(* ===== verification/Prelude.thy ===== *)
theory Prelude
  imports Complex_Main
begin

text \<open>
  Shared vocabulary of the development: the identifiers of stored documents, the ways a
  request handler can fail without answering, the collections of lemmas the component
  theories feed and use, and generic facts on lists searched by a key.
\<close>

section \<open>Names of the model's types\<close>

text \<open>
  A MongoDB \<open>ObjectId\<close> is an opaque identifier, unique across collections. The store of
  the model hands out identifiers from a counter, so an identifier is a natural number.
\<close>

type_synonym oid = nat

text \<open>
  A request handler of \<open>src/index.js\<close> is an \<open>async\<close> function. Library calls can
  reject the promise it awaits, and no handler catches the rejection, so the request is
  left without a handled answer:
  \<^item> \<open>CastError\<close>: Mongoose cannot cast a value to the schema's type (a path id that is
    not an ObjectId, a \<open>NaN\<close> assigned to a \<open>Number\<close> path);
  \<^item> \<open>DocumentNotFound\<close>: \<open>doc.save()\<close> of a document that is no longer in the store;
  \<^item> \<open>IllegalArguments\<close>: \<open>bcrypt.hash\<close> called without a string;
  \<^item> \<open>TypeError\<close>: destructuring \<open>req.body\<close> when no JSON body was parsed and
    \<open>req.body\<close> is \<open>undefined\<close> (or \<open>null\<close>).
  One more value is not a rejection of the code but the edge of the model:
  \<^item> \<open>InfiniteNumber\<close>: a handler would store \<open>Infinity\<close> or \<open>-Infinity\<close> in a \<open>Number\<close>
    path, which Mongoose accepts; the stored numbers of the model are finite reals, so the
    model ends the request there (see \<open>cast_num\<close> in \<open>JsNumber\<close>).
\<close>

datatype failure = CastError | DocumentNotFound | IllegalArguments | InfiniteNumber | TypeError

section \<open>Lemma collections\<close>

named_theorems js_simps "evaluation rules of the JavaScript operators the handlers use"
named_theorems store_simps "rules of the document-store collections"

section \<open>Lists searched by a key\<close>

text \<open>
  A collection is a list of documents, each with a key. Updating the documents with one
  key by a function that keeps the key leaves the keys of the list as they were.
\<close>

lemma map_key_update [simp]:
  assumes "\<And>x. key (f x) = key x"
  shows "map key (map (\<lambda>x. if key x = i then f x else x) xs) = map key xs"
  using assms by (induction xs) auto

lemma find_key_update:
  assumes "\<And>x. key (f x) = key x"
  shows "find (\<lambda>x. key x = j) (map (\<lambda>x. if key x = i then f x else x) xs) =
    (if i = j then map_option f (find (\<lambda>x. key x = j) xs) else find (\<lambda>x. key x = j) xs)"
  using assms by (induction xs) auto

lemma find_key_filter:
  "find (\<lambda>x. key x = j) (filter (\<lambda>x. key x \<noteq> i) xs) =
    (if i = j then None else find (\<lambda>x. key x = j) xs)"
  by (induction xs) auto

lemma find_key_append:
  "find (\<lambda>x. key x = j) (xs @ [y]) =
    (case find (\<lambda>x. key x = j) xs of None \<Rightarrow> (if key y = j then Some y else None) | r \<Rightarrow> r)"
  by (induction xs) auto

lemma find_key_Some:
  "find (\<lambda>x. key x = j) xs = Some y \<Longrightarrow> y \<in> set xs \<and> key y = j"
  by (auto simp: find_Some_iff nth_mem)

lemma find_key_None:
  "find (\<lambda>x. key x = j) xs = None \<longleftrightarrow> j \<notin> key ` set xs"
  by (auto simp: find_None_iff)

lemma sum_list_map_update_other:
  assumes "\<And>x. key (f x) = key x"
  shows "sum_list (map g (filter (\<lambda>x. key x = j) (map (\<lambda>x. if key x = i then f x else x) xs))) =
    (if i = j then sum_list (map (g \<circ> f) (filter (\<lambda>x. key x = j) xs))
     else sum_list (map g (filter (\<lambda>x. key x = j) xs)))"
  using assms by (induction xs) auto

end
