(* ===== verification/JsNumber.thy ===== *)
theory JsNumber
  imports Prelude
begin

text \<open>
  JavaScript numbers as the handlers of \<open>src/index.js\<close> compute with them: finite values
  as exact reals, \<open>NaN\<close>, and the two infinities. IEEE-754 rounding, overflow of a
  finite computation and negative zero are not modelled. The operators follow
  ECMAScript (section 6.1.6.1): \<open>NaN\<close> absorbs, \<open>Infinity - Infinity\<close> and
  \<open>Infinity * 0\<close> are \<open>NaN\<close>, every comparison with \<open>NaN\<close> is false. They are defined as
  functions (\<open>js_plus\<close>, \<open>js_neg\<close>, \<open>js_times\<close>, \<open>js_less\<close>) and made the instances of
  HOL's \<open>+\<close>, \<open>-\<close>, \<open>*\<close> and \<open><\<close>, so that the handlers read as the code.
\<close>

datatype jsnum = Num real | NaN | PInf | NInf

section \<open>Operators\<close>

fun js_neg :: "jsnum \<Rightarrow> jsnum" where
  "js_neg (Num a) = Num (- a)"
| "js_neg NaN = NaN"
| "js_neg PInf = NInf"
| "js_neg NInf = PInf"

fun js_plus :: "jsnum \<Rightarrow> jsnum \<Rightarrow> jsnum" where
  "js_plus (Num a) (Num b) = Num (a + b)"
| "js_plus NaN _ = NaN"
| "js_plus _ NaN = NaN"
| "js_plus PInf NInf = NaN"
| "js_plus NInf PInf = NaN"
| "js_plus PInf _ = PInf"
| "js_plus _ PInf = PInf"
| "js_plus NInf _ = NInf"
| "js_plus _ NInf = NInf"

text \<open>An infinity times a finite number: \<open>NaN\<close> for zero, otherwise signed.\<close>

fun inf_times :: "bool \<Rightarrow> real \<Rightarrow> jsnum" where
  "inf_times pos b = (if b = 0 then NaN else if (0 < b) = pos then PInf else NInf)"

fun js_times :: "jsnum \<Rightarrow> jsnum \<Rightarrow> jsnum" where
  "js_times (Num a) (Num b) = Num (a * b)"
| "js_times NaN _ = NaN"
| "js_times _ NaN = NaN"
| "js_times PInf (Num b) = inf_times True b"
| "js_times NInf (Num b) = inf_times False b"
| "js_times (Num a) PInf = inf_times True a"
| "js_times (Num a) NInf = inf_times False a"
| "js_times PInf PInf = PInf"
| "js_times NInf NInf = PInf"
| "js_times PInf NInf = NInf"
| "js_times NInf PInf = NInf"

text \<open>The relational operator \<open><\<close>; \<open>a > b\<close> is \<open>b < a\<close>.\<close>

fun js_less :: "jsnum \<Rightarrow> jsnum \<Rightarrow> bool" where
  "js_less (Num a) (Num b) = (a < b)"
| "js_less (Num a) PInf = True"
| "js_less NInf (Num b) = True"
| "js_less NInf PInf = True"
| "js_less _ _ = False"

instantiation jsnum :: "{plus, minus, uminus, times, ord}"
begin

definition plus_jsnum :: "jsnum \<Rightarrow> jsnum \<Rightarrow> jsnum" where "plus_jsnum = js_plus"
definition uminus_jsnum :: "jsnum \<Rightarrow> jsnum" where "uminus_jsnum = js_neg"
definition minus_jsnum :: "jsnum \<Rightarrow> jsnum \<Rightarrow> jsnum" where "minus_jsnum a b = js_plus a (js_neg b)"
definition times_jsnum :: "jsnum \<Rightarrow> jsnum \<Rightarrow> jsnum" where "times_jsnum = js_times"
definition less_jsnum :: "jsnum \<Rightarrow> jsnum \<Rightarrow> bool" where "less_jsnum = js_less"
definition less_eq_jsnum :: "jsnum \<Rightarrow> jsnum \<Rightarrow> bool" where "less_eq_jsnum a b = (js_less a b \<or> (a = b \<and> a \<noteq> NaN))"

instance ..

end

section \<open>The Mongoose cast of a computed number\<close>

text \<open>
  Assigning a computed number to a \<open>Number\<close> path: \<open>NaN\<close> fails the cast and the save
  rejects. Mongoose would store an infinity, but the stored numbers of the model are
  finite reals: the model ends the request with \<open>InfiniteNumber\<close> there, the one place
  where it does not follow the code.
\<close>

fun cast_num :: "jsnum \<Rightarrow> failure + real" where
  "cast_num (Num r) = Inr r"
| "cast_num NaN = Inl CastError"
| "cast_num PInf = Inl InfiniteNumber"
| "cast_num NInf = Inl InfiniteNumber"

section \<open>Evaluation rules\<close>

lemma jsnum_ops [simp]:
  "x + y = js_plus x y" "- x = js_neg x" "x - y = js_plus x (js_neg y)" "x * y = js_times x y"
  "x < y \<longleftrightarrow> js_less x y"
  by (simp_all add: plus_jsnum_def uminus_jsnum_def minus_jsnum_def times_jsnum_def less_jsnum_def)

lemma jsnum_arith_Num [js_simps]:
  "js_plus (Num a) x = Num r \<longleftrightarrow> (\<exists>b. x = Num b \<and> r = a + b)"
  "js_plus (Num a) (js_neg x) = Num r \<longleftrightarrow> (\<exists>b. x = Num b \<and> r = a - b)"
  "js_times (Num a) x = Num r \<longleftrightarrow> (\<exists>b. x = Num b \<and> r = a * b)"
  by (cases x; auto)+

lemma jsnum_NaN [js_simps]:
  "js_plus NaN x = NaN" "js_plus x NaN = NaN" "js_times NaN x = NaN" "js_times x NaN = NaN"
  "\<not> js_less NaN x" "\<not> js_less x NaN"
  by (cases x; simp)+

lemma cast_num_Inr [js_simps]: "cast_num x = Inr r \<longleftrightarrow> x = Num r"
  by (cases x) auto

end
