(* ===== verification/JsString.thy ===== *)
theory JsString
  imports JsNumber
begin

text \<open>
  The two conversions between strings and numbers that the handlers reach when a body
  field holds a string. \<open>str_to_number\<close> is ECMAScript's StringToNumber (7.1.4.1.1):
  surrounding white space is trimmed, the empty string is \<open>0\<close>, a decimal literal with
  optional sign, fraction and exponent is its exact value, \<open>Infinity\<close> with an optional
  sign is an infinity, \<open>0x\<close>, \<open>0o\<close> and \<open>0b\<close> literals are read in their radix, and
  everything else is \<open>NaN\<close>. Strings are lists of 8-bit characters, so the white space
  recognised is the ASCII one and the Latin-1 no-break space. \<open>num_to_string\<close> is
  Number::toString (6.1.6.1.20): digits, then the choice between plain, fractional and
  exponent notation by the position of the decimal point. It is exact for the reals with
  at most 1100 decimals, which include every finite double; the shortest round-trip
  digits of a double are not modelled, since numbers are exact reals. The lemmas read
  digit strings, print integers, and show that printing an integer and reading it back
  is the identity (\<open>num_string_roundtrip\<close>).
\<close>

section \<open>StringToNumber\<close>

definition js_space :: "char \<Rightarrow> bool" where
  "js_space c \<longleftrightarrow> of_char c \<in> {9, 10, 11, 12, 13, 32, 160 :: nat}"

definition trim :: "string \<Rightarrow> string" where
  "trim s = rev (dropWhile js_space (rev (dropWhile js_space s)))"

definition digit_val :: "nat \<Rightarrow> char \<Rightarrow> nat option" where
  "digit_val b c =
     (let n = of_char c :: nat;
          v = (if 48 \<le> n \<and> n \<le> 57 then Some (n - 48)
               else if 97 \<le> n \<and> n \<le> 122 then Some (n - 87)
               else if 65 \<le> n \<and> n \<le> 90 then Some (n - 55)
               else None)
      in case v of Some x \<Rightarrow> if x < b then Some x else None | None \<Rightarrow> None)"

fun scan_digits :: "nat \<Rightarrow> string \<Rightarrow> nat list \<times> string" where
  "scan_digits b [] = ([], [])"
| "scan_digits b (c # cs) =
     (case digit_val b c of
        None \<Rightarrow> ([], c # cs)
      | Some x \<Rightarrow> (let (ds, r) = scan_digits b cs in (x # ds, r)))"

definition digits_value :: "nat \<Rightarrow> nat list \<Rightarrow> nat" where
  "digits_value b ds = foldl (\<lambda>a x. a * b + x) 0 ds"

definition exp10 :: "int \<Rightarrow> real" where
  "exp10 e = (if 0 \<le> e then 10 ^ nat e else inverse (10 ^ nat (- e)))"

definition int_digits :: "string \<Rightarrow> nat option" where
  "int_digits s = (case scan_digits 10 s of (ds, []) \<Rightarrow> if ds = [] then None else Some (digits_value 10 ds)
                   | _ \<Rightarrow> None)"

fun exp_part :: "string \<Rightarrow> int option" where
  "exp_part [] = Some 0"
| "exp_part (c # r) =
     (if c = CHR ''e'' \<or> c = CHR ''E'' then
        (case r of
           s # ds \<Rightarrow>
             if s = CHR ''+'' then map_option int (int_digits ds)
             else if s = CHR ''-'' then map_option (\<lambda>n. - int n) (int_digits ds)
             else map_option int (int_digits r)
         | [] \<Rightarrow> None)
      else None)"

definition unsigned_dec :: "string \<Rightarrow> jsnum" where
  "unsigned_dec s =
     (if s = ''Infinity'' then PInf
      else
        (let (ip, r1) = scan_digits 10 s
         in if r1 \<noteq> [] \<and> hd r1 = CHR ''.'' then
              (let (fp, r2) = scan_digits 10 (tl r1)
               in if ip = [] \<and> fp = [] then NaN
                  else case exp_part r2 of
                         None \<Rightarrow> NaN
                       | Some e \<Rightarrow> Num ((of_nat (digits_value 10 ip) +
                              of_nat (digits_value 10 fp) / 10 ^ length fp) * exp10 e))
            else if ip = [] then NaN
            else case exp_part r1 of
                   None \<Rightarrow> NaN
                 | Some e \<Rightarrow> Num (of_nat (digits_value 10 ip) * exp10 e)))"

fun str_dec :: "string \<Rightarrow> jsnum" where
  "str_dec [] = NaN"
| "str_dec (c # r) =
     (if c = CHR ''+'' then unsigned_dec r
      else if c = CHR ''-'' then - unsigned_dec r
      else unsigned_dec (c # r))"

fun radix_prefix :: "string \<Rightarrow> (nat \<times> string) option" where
  "radix_prefix (z # c # r) =
     (if z \<noteq> CHR ''0'' then None
      else if c = CHR ''x'' \<or> c = CHR ''X'' then Some (16, r)
      else if c = CHR ''o'' \<or> c = CHR ''O'' then Some (8, r)
      else if c = CHR ''b'' \<or> c = CHR ''B'' then Some (2, r)
      else None)"
| "radix_prefix _ = None"

definition str_to_number :: "string \<Rightarrow> jsnum" where
  "str_to_number s =
     (let t = trim s
      in if t = [] then Num 0
         else case radix_prefix t of
                Some (b, r) \<Rightarrow>
                  (case scan_digits b r of
                     (ds, []) \<Rightarrow> if ds = [] then NaN else Num (of_nat (digits_value b ds))
                   | _ \<Rightarrow> NaN)
              | None \<Rightarrow> str_dec t)"

section \<open>Number to string\<close>

definition digit_char :: "nat \<Rightarrow> char" where
  "digit_char d = ''0123456789'' ! d"

fun nat_digits :: "nat \<Rightarrow> string" where
  "nat_digits n = (if n < 10 then [digit_char n] else nat_digits (n div 10) @ [digit_char (n mod 10)])"

fun dec_scale :: "nat \<Rightarrow> real \<Rightarrow> nat \<Rightarrow> nat" where
  "dec_scale 0 x j = j"
| "dec_scale (Suc f) x j = (if x * 10 ^ j = of_int \<lfloor>x * 10 ^ j\<rfloor> then j else dec_scale f x (Suc j))"

function strip_zeros :: "nat \<Rightarrow> nat \<times> nat" where
  "strip_zeros m = (if m \<noteq> 0 \<and> m mod 10 = 0 then (let (s, t) = strip_zeros (m div 10) in (s, Suc t))
                    else (m, 0))"
  by auto
termination by (relation "measure id") auto

definition pos_to_string :: "real \<Rightarrow> string" where
  "pos_to_string x =
     (let j = dec_scale 1100 x 0;
          (s, t) = strip_zeros (nat \<lfloor>x * 10 ^ j\<rfloor>);
          ds = nat_digits s;
          k = int (length ds);
          n = k + int t - int j
      in if k \<le> n \<and> n \<le> 21 then ds @ replicate (nat (n - k)) (CHR ''0'')
         else if 0 < n \<and> n \<le> 21 then take (nat n) ds @ ''.'' @ drop (nat n) ds
         else if - 6 < n \<and> n \<le> 0 then ''0.'' @ replicate (nat (- n)) (CHR ''0'') @ ds
         else
           (let e = n - 1;
                es = (if 0 \<le> e then ''+'' else ''-'') @ nat_digits (nat \<bar>e\<bar>)
            in if k = 1 then ds @ ''e'' @ es else [hd ds] @ ''.'' @ tl ds @ ''e'' @ es))"

definition num_to_string :: "real \<Rightarrow> string" where
  "num_to_string x =
     (if x = 0 then ''0'' else if x < 0 then ''-'' @ pos_to_string (- x) else pos_to_string x)"

section \<open>Lemmas\<close>

declare nat_digits.simps [simp del] strip_zeros.simps [simp del]

lemma replicate_numeral [simp]: "replicate (numeral k) x = x # replicate (pred_numeral k) x"
  by (simp add: numeral_eq_Suc)

lemma dec_scale_found: "0 < f \<Longrightarrow> x * 10 ^ j = of_int \<lfloor>x * 10 ^ j\<rfloor> \<Longrightarrow> dec_scale f x j = j"
  by (cases f) simp_all

lemma dec_scale_next:
  "0 < f \<Longrightarrow> x * 10 ^ j \<noteq> of_int \<lfloor>x * 10 ^ j\<rfloor> \<Longrightarrow> dec_scale f x j = dec_scale (f - 1) x (Suc j)"
  by (cases f) simp_all


lemma digit_val_dec: "digit_val 10 c \<noteq> None \<longleftrightarrow> 48 \<le> (of_char c :: nat) \<and> of_char c \<le> (57 :: nat)"
  by (auto simp: digit_val_def Let_def)

lemma digit_val_digit_char: "d < 10 \<Longrightarrow> digit_val 10 (digit_char d) = Some d"
  by (auto simp: less_Suc_eq numeral_eq_Suc digit_val_def digit_char_def)

lemma scan_digits_append:
  "list_all (\<lambda>c. digit_val b c \<noteq> None) xs \<Longrightarrow>
   scan_digits b (xs @ r) = (map (\<lambda>c. the (digit_val b c)) xs @ fst (scan_digits b r), snd (scan_digits b r))"
proof (induction xs)
  case Nil
  then show ?case by simp
next
  case (Cons a xs)
  then obtain x where "digit_val b a = Some x" by auto
  with Cons show ?case by (simp add: case_prod_beta)
qed

lemma digits_value_append:
  "digits_value b (xs @ ys) = digits_value b xs * b ^ length ys + digits_value b ys"
proof -
  have "foldl (\<lambda>a x. a * b + x) a ys = a * b ^ length ys + foldl (\<lambda>a x. a * b + x) 0 ys" for a
  proof (induction ys arbitrary: a)
    case Nil
    then show ?case by simp
  next
    case (Cons y ys)
    show ?case using Cons.IH [of "a * b + y"] Cons.IH [of y] by (simp add: algebra_simps)
  qed
  from this [of "foldl (\<lambda>a x. a * b + x) 0 xs"] show ?thesis by (simp add: digits_value_def)
qed

lemma digits_value_single [simp]: "digits_value b [x] = x"
  by (simp add: digits_value_def)

lemma nat_digits_dec: "list_all (\<lambda>c. digit_val 10 c \<noteq> None) (nat_digits n)"
  by (induction n rule: nat_digits.induct) (subst nat_digits.simps, simp add: digit_val_digit_char)

lemma nat_digits_value: "digits_value 10 (map (\<lambda>c. the (digit_val 10 c)) (nat_digits n)) = n"
proof (induction n rule: nat_digits.induct)
  case (1 n)
  show ?case
  proof (cases "n < 10")
    case True
    then show ?thesis by (subst nat_digits.simps) (simp add: digit_val_digit_char digits_value_def)
  next
    case False
    then have "digits_value 10 (map (\<lambda>c. the (digit_val 10 c)) (nat_digits n)) = n div 10 * 10 + n mod 10"
      using 1 by (subst nat_digits.simps) (simp add: digits_value_append digit_val_digit_char)
    then show ?thesis by simp
  qed
qed

lemma nat_digits_not_Nil [simp]: "nat_digits n \<noteq> []"
  by (subst nat_digits.simps) simp

text \<open>Decimal digits are none of the characters the parser dispatches on.\<close>

lemma dec_char:
  assumes "digit_val 10 c \<noteq> None"
  shows "\<not> js_space c" "c \<noteq> CHR ''+''" "c \<noteq> CHR ''-''" "c \<noteq> CHR ''.''" "c \<noteq> CHR ''I''"
    "c \<noteq> CHR ''x''" "c \<noteq> CHR ''X''" "c \<noteq> CHR ''o''" "c \<noteq> CHR ''O''" "c \<noteq> CHR ''b''" "c \<noteq> CHR ''B''"
  using assms unfolding digit_val_dec by (auto simp: js_space_def)

lemma trim_id:
  assumes "xs \<noteq> []" "\<not> js_space (hd xs)" "\<not> js_space (last xs)"
  shows "trim xs = xs"
proof -
  have "dropWhile js_space xs = xs" using assms(2) by (simp add: dropWhile_eq_self_iff)
  moreover have "dropWhile js_space (rev xs) = rev xs" using assms(1,3) by (simp add: dropWhile_eq_self_iff hd_rev)
  ultimately show ?thesis by (simp add: trim_def)
qed

lemma radix_prefix_dec:
  assumes "list_all (\<lambda>c. digit_val 10 c \<noteq> None) (tl xs)"
  shows "radix_prefix xs = None"
proof (cases xs rule: radix_prefix.cases)
  case (1 z c r)
  then have "digit_val 10 c \<noteq> None" using assms by simp
  with 1 show ?thesis using dec_char(6-11) [of c] by auto
qed simp_all

lemma unsigned_dec_digits:
  assumes "xs \<noteq> []" "list_all (\<lambda>c. digit_val 10 c \<noteq> None) xs"
  shows "unsigned_dec xs = Num (of_nat (digits_value 10 (map (\<lambda>c. the (digit_val 10 c)) xs)))"
proof -
  have "\<not> list_all (\<lambda>c. digit_val 10 c \<noteq> None) ''Infinity''" by (simp add: digit_val_def)
  then have "xs \<noteq> ''Infinity''" using assms(2) by auto
  moreover have "scan_digits 10 xs = (map (\<lambda>c. the (digit_val 10 c)) xs, [])"
    using scan_digits_append [OF assms(2), of "[]"] by simp
  ultimately show ?thesis using assms(1) by (simp add: unsigned_dec_def exp10_def)
qed

lemma str_to_number_digits:
  assumes "xs \<noteq> []" "list_all (\<lambda>c. digit_val 10 c \<noteq> None) xs"
  shows "str_to_number xs = Num (of_nat (digits_value 10 (map (\<lambda>c. the (digit_val 10 c)) xs)))"
    and "str_to_number (CHR ''-'' # xs) = Num (- of_nat (digits_value 10 (map (\<lambda>c. the (digit_val 10 c)) xs)))"
proof -
  have hd: "digit_val 10 (hd xs) \<noteq> None" and last: "digit_val 10 (last xs) \<noteq> None"
    using assms by (simp_all add: list_all_iff)
  have tl: "list_all (\<lambda>c. digit_val 10 c \<noteq> None) (tl xs)"
    using assms(2) by (cases xs) simp_all
  obtain c cs where xs: "xs = c # cs" using assms(1) by (cases xs) auto
  show "str_to_number xs = Num (of_nat (digits_value 10 (map (\<lambda>c. the (digit_val 10 c)) xs)))"
    using assms trim_id [OF assms(1) dec_char(1) [OF hd] dec_char(1) [OF last]]
      radix_prefix_dec [OF tl] dec_char(2,3) [OF hd] unsigned_dec_digits [OF assms]
    by (simp add: str_to_number_def xs)
  have "trim (CHR ''-'' # xs) = CHR ''-'' # xs"
    using dec_char(1) [OF last] assms(1) by (intro trim_id) (simp_all add: js_space_def)
  then show "str_to_number (CHR ''-'' # xs) = Num (- of_nat (digits_value 10 (map (\<lambda>c. the (digit_val 10 c)) xs)))"
    using unsigned_dec_digits [OF assms] by (simp add: str_to_number_def xs)
qed

lemma strip_zeros_spec:
  "0 < m \<Longrightarrow> strip_zeros m = (s, t) \<Longrightarrow> m = s * 10 ^ t \<and> 0 < s \<and> s mod 10 \<noteq> 0"
proof (induction m arbitrary: s t rule: strip_zeros.induct)
  case (1 m)
  show ?case
  proof (cases "m mod 10 = 0")
    case True
    obtain s' t' where st: "strip_zeros (m div 10) = (s', t')" by fastforce
    with True "1.prems" have "s = s'" "t = Suc t'" by (subst (asm) strip_zeros.simps, simp)+
    moreover have "0 < m div 10" using True "1.prems"(1) by auto
    ultimately show ?thesis using "1.IH" [OF _ _ st] True "1.prems"(1) by auto
  next
    case False
    with "1.prems" show ?thesis by (subst (asm) strip_zeros.simps) auto
  qed
qed

lemma nat_digits_shift: "0 < s \<Longrightarrow> nat_digits (s * 10 ^ t) = nat_digits s @ replicate t (CHR ''0'')"
proof (induction t)
  case 0
  then show ?case by simp
next
  case (Suc t)
  have "0 < s * 10 ^ t" using Suc.prems by simp
  then have "nat_digits (s * 10 ^ t * 10) = nat_digits (s * 10 ^ t) @ [CHR ''0'']"
    by (subst nat_digits.simps) (simp add: digit_char_def)
  then have "nat_digits (s * 10 ^ Suc t) = nat_digits (s * 10 ^ t) @ [CHR ''0'']"
    by (simp add: ac_simps)
  with Suc show ?case by (simp add: replicate_append_same)
qed

lemma nat_digits_length: "n < 10 ^ p \<Longrightarrow> 0 < p \<Longrightarrow> length (nat_digits n) \<le> p"
proof (induction n arbitrary: p rule: nat_digits.induct)
  case (1 n)
  show ?case
  proof (cases "n < 10")
    case True
    with "1.prems" show ?thesis by (subst nat_digits.simps) simp
  next
    case False
    have "1 < p"
    proof (rule ccontr)
      assume "\<not> 1 < p"
      with "1.prems"(2) have "p = 1" by simp
      with "1.prems"(1) False show False by simp
    qed
    moreover have "n div 10 < 10 ^ (p - 1)"
      using "1.prems"(1) \<open>1 < p\<close> by (cases p) (auto simp: div_less_iff_less_mult)
    ultimately have "length (nat_digits (n div 10)) \<le> p - 1" using "1.IH" False by simp
    with False \<open>1 < p\<close> show ?thesis by (subst nat_digits.simps) simp
  qed
qed

lemma num_to_string_nat:
  assumes "0 < n" "n < 10 ^ 21"
  shows "num_to_string (of_nat n) = nat_digits n"
proof -
  obtain s t where st: "strip_zeros n = (s, t)" by fastforce
  from strip_zeros_spec [OF assms(1) st] have n: "n = s * 10 ^ t" and s: "0 < s" by auto
  have ds: "nat_digits n = nat_digits s @ replicate t (CHR ''0'')" using n s nat_digits_shift by simp
  have "length (nat_digits n) \<le> 21" using assms(2) by (rule nat_digits_length) simp
  then have len: "length (nat_digits s) + t \<le> 21" using ds by simp
  have "dec_scale 1100 (of_nat n) 0 = 0" by (rule dec_scale_found) simp_all
  then show ?thesis
    using assms(1) st len by (simp add: num_to_string_def pos_to_string_def Let_def ds nat_add_distrib)
qed

lemma num_to_string_int:
  assumes "\<bar>z\<bar> < 10 ^ 21"
  shows "num_to_string (of_int z) =
    (if z < 0 then CHR ''-'' # nat_digits (nat (- z)) else nat_digits (nat z))"
proof -
  consider "z = 0" | "0 < z" | "z < 0" by linarith
  then show ?thesis
  proof cases
    case 1
    then show ?thesis by (simp add: num_to_string_def nat_digits.simps digit_char_def)
  next
    case 2
    then have "of_int z = (of_nat (nat z) :: real)" "0 < nat z" "nat z < 10 ^ 21"
      using assms by auto
    with 2 show ?thesis using num_to_string_nat [of "nat z"] by simp
  next
    case 3
    then have "of_int (- z) = (of_nat (nat (- z)) :: real)" "0 < nat (- z)" "nat (- z) < 10 ^ 21"
      using assms by auto
    with 3 show ?thesis using num_to_string_nat [of "nat (- z)"]
      by (simp add: num_to_string_def split: if_splits)
  qed
qed

lemma num_to_string_of_nat: "n < 10 ^ 21 \<Longrightarrow> num_to_string (of_nat n) = nat_digits n"
  using num_to_string_int [of "int n"] by simp

lemma str_to_number_nat_digits:
  assumes "list_all (\<lambda>c. digit_val 10 c \<noteq> None) ys"
  shows "str_to_number (nat_digits n @ ys) =
    Num (of_nat (n * 10 ^ length ys + digits_value 10 (map (\<lambda>c. the (digit_val 10 c)) ys)))"
  using str_to_number_digits(1) [of "nat_digits n @ ys"] assms nat_digits_dec [of n]
  by (simp add: digits_value_append nat_digits_value)

lemma exp10_pos: "0 < exp10 e"
  by (simp add: exp10_def)

lemma unsigned_dec_nonneg:
  assumes "u \<noteq> ''Infinity''"
  shows "unsigned_dec u = NaN \<or> (\<exists>x. 0 \<le> x \<and> unsigned_dec u = Num x)"
  using assms exp10_pos
  by (auto simp: unsigned_dec_def Let_def less_imp_le split: prod.split option.split
      intro!: mult_nonneg_nonneg)

lemma trim_hd:
  assumes "t \<noteq> []" "\<not> js_space (hd t)"
  shows "trim t \<noteq> [] \<and> hd (trim t) = hd t"
proof -
  obtain c r where t: "t = c # r" using assms(1) by (cases t) auto
  have "dropWhile js_space t = t" using assms(2) by (simp add: dropWhile_eq_self_iff)
  moreover have "\<exists>xs. dropWhile js_space (rev r @ [c]) = xs @ [c]"
    using assms(2) t by (auto simp: dropWhile_append)
  ultimately show ?thesis using assms(2) by (auto simp: trim_def t)
qed

lemma str_to_number_nonneg:
  assumes "t \<noteq> []" "digit_val 10 (hd t) \<noteq> None"
  shows "str_to_number t = NaN \<or> (\<exists>x. 0 \<le> x \<and> str_to_number t = Num x)"
proof -
  obtain u c r where u: "trim t = u" "u = c # r" and c: "c = hd t"
    using trim_hd [OF assms(1) dec_char(1) [OF assms(2)]] by (cases "trim t") auto
  have notinf: "c # r \<noteq> ''Infinity''" using assms(2) c dec_char(5) by auto
  show ?thesis
  proof (cases "radix_prefix u")
    case None
    then show ?thesis
      using u c dec_char(2,3) [OF assms(2)] unsigned_dec_nonneg [OF notinf]
      by (simp add: str_to_number_def)
  next
    case (Some br)
    then show ?thesis using u by (auto simp: str_to_number_def split: prod.split list.split)
  qed
qed

lemma pos_to_string_digit: "pos_to_string w \<noteq> [] \<and> digit_val 10 (hd (pos_to_string w)) \<noteq> None"
proof -
  obtain s t where st: "strip_zeros (nat \<lfloor>w * 10 ^ dec_scale 1100 w 0\<rfloor>) = (s, t)" by fastforce
  have d: "nat_digits s \<noteq> []" "digit_val 10 (hd (nat_digits s)) \<noteq> None"
    using nat_digits_dec [of s] nat_digits_not_Nil [of s] by (cases "nat_digits s", simp_all)+
  have z: "digit_val 10 CHR ''0'' = Some 0" by (simp add: digit_val_def)
  show ?thesis
    unfolding pos_to_string_def Let_def st prod.case using d z by (simp add: hd_append)
qed

lemma num_to_string_not_Nil [simp]: "num_to_string x \<noteq> []"
  using pos_to_string_digit [of x] by (simp add: num_to_string_def)

lemma num_to_string_digit:
  assumes "0 \<le> w"
  shows "num_to_string w \<noteq> [] \<and> digit_val 10 (hd (num_to_string w)) \<noteq> None"
  using assms pos_to_string_digit [of w] by (simp add: num_to_string_def digit_val_def)

text \<open>Printing an integer below 10^21 in magnitude with Number::toString and reading the string back with StringToNumber gives the integer again.\<close>

theorem num_string_roundtrip:
  assumes "\<bar>z\<bar> < 10 ^ 21"
  shows "str_to_number (num_to_string (of_int z)) = Num (of_int z)"
proof (cases "z < 0")
  case True
  then show ?thesis
    using num_to_string_int [OF assms] str_to_number_digits(2) [OF nat_digits_not_Nil nat_digits_dec]
    by (simp add: nat_digits_value)
next
  case False
  then show ?thesis
    using num_to_string_int [OF assms] str_to_number_digits(1) [OF nat_digits_not_Nil nat_digits_dec]
    by (simp add: nat_digits_value)
qed

section \<open>Concrete runs\<close>

theorem num_string_roundtrip_witness:
  "\<bar>- 42 :: int\<bar> < 10 ^ 21 \<and> num_to_string (- 42) = ''-42'' \<and> str_to_number ''-42'' = Num (- 42)"
proof -
  have "num_to_string (of_int (- 42)) = ''-42''"
    by (simp add: num_to_string_def pos_to_string_def Let_def dec_scale_found strip_zeros.simps
        nat_digits.simps digit_char_def)
  moreover have "str_to_number (num_to_string (of_int (- 42))) = Num (of_int (- 42))"
    by (rule num_string_roundtrip) simp
  ultimately show ?thesis by simp
qed

end
