(* ===== verification/JsValue.thy ===== *)
theory JsValue
  imports JsString
begin

text \<open>
  The values the handlers of \<open>src/index.js\<close> read from a JSON request body, and what
  the code does with them: \<open>ToNumber\<close> in arithmetic and comparisons, the \<open>+\<close> of
  \<open>customer.wallet += wallet_topup\<close>, which concatenates when the amount is a string,
  truthiness of a stored number, and Mongoose's \<open>castNumber\<close> of a value assigned to a
  \<open>Number\<close> path of a schema.
\<close>

section \<open>Values of a JSON body\<close>

text \<open>
  \<open>express.json()\<close> parses the body; a field that is absent reads as \<open>undefined\<close>.
  JSON numbers are finite (a literal that overflows to an infinity is not modelled);
  strings are lists of 8-bit characters. Arrays and objects in a numeric field are not
  modelled.
\<close>

datatype jsval = JNum real | JStr string | JBool bool | JNull | JUndef

fun is_str :: "jsval \<Rightarrow> bool" where
  "is_str (JStr _) = True"
| "is_str _ = False"

fun to_number :: "jsval \<Rightarrow> jsnum" where
  "to_number (JNum r) = Num r"
| "to_number (JStr s) = str_to_number s"
| "to_number (JBool b) = Num (if b then 1 else 0)"
| "to_number JNull = Num 0"
| "to_number JUndef = NaN"

text \<open>
  The primitive a \<open>+\<close> yields: a number, or a string when either side is a string
  (ECMAScript 13.15.3).
\<close>

datatype prim = PNum jsnum | PStr string

text \<open>\<open>x + v\<close> for a number \<open>x\<close> on the left, as in \<open>customer.wallet += wallet_topup\<close>.\<close>

fun add_to_number :: "real \<Rightarrow> jsval \<Rightarrow> prim" where
  "add_to_number x (JStr s) = PStr (num_to_string x @ s)"
| "add_to_number x v = PNum (Num x + to_number v)"

text \<open>
  Truthiness of a stored \<open>Number\<close> path that may be \<open>null\<close> (absent, \<open>None\<close>): \<open>null\<close>
  and \<open>0\<close> are falsy, every other number is truthy.
\<close>

fun num_truthy :: "real option \<Rightarrow> bool" where
  "num_truthy None = False"
| "num_truthy (Some r) = (r \<noteq> 0)"

text \<open>
  Truthiness of a body value (ECMAScript ToBoolean): the empty string, \<open>0\<close>, \<open>false\<close>,
  \<open>null\<close> and \<open>undefined\<close> are falsy.
\<close>

fun js_truthy :: "jsval \<Rightarrow> bool" where
  "js_truthy (JNum r) = (r \<noteq> 0)"
| "js_truthy (JStr s) = (s \<noteq> [])"
| "js_truthy (JBool b) = b"
| "js_truthy JNull = False"
| "js_truthy JUndef = False"

section \<open>Mongoose cast to a String path\<close>

text \<open>
  Mongoose's \<open>castString\<close>: \<open>null\<close> and \<open>undefined\<close> leave the path empty, a string stays,
  and a number or a boolean is replaced by its \<open>toString()\<close>. (Arrays and objects, which
  it rejects, are not body values of the model.)
\<close>

fun cast_string :: "jsval \<Rightarrow> string option" where
  "cast_string (JNum r) = Some (num_to_string r)"
| "cast_string (JStr s) = Some s"
| "cast_string (JBool b) = Some (if b then ''true'' else ''false'')"
| "cast_string JNull = None"
| "cast_string JUndef = None"

section \<open>Mongoose casts to a Number path\<close>

text \<open>
  Mongoose's \<open>castNumber\<close> on assignment: \<open>null\<close> and \<open>undefined\<close> leave the path empty
  (\<open>None\<close>), the empty string is \<open>null\<close> too, any other string and a boolean go through
  \<open>Number(...)\<close>, and a \<open>NaN\<close> result is a cast error that makes the next \<open>save()\<close>
  reject.
\<close>

definition cast_str :: "string \<Rightarrow> failure + real option" where
  "cast_str s = (if s = [] then Inr None
                 else case cast_num (str_to_number s) of Inl e \<Rightarrow> Inl e | Inr r \<Rightarrow> Inr (Some r))"

fun cast_number :: "jsval \<Rightarrow> failure + real option" where
  "cast_number (JNum r) = Inr (Some r)"
| "cast_number (JStr s) = cast_str s"
| "cast_number (JBool b) = Inr (Some (if b then 1 else 0))"
| "cast_number JNull = Inr None"
| "cast_number JUndef = Inr None"

text \<open>
  The cast of the sum a top-up assigns to the wallet. A string sum is never empty (it
  starts with the digits of the wallet, \<open>add_to_number_Str\<close>), so the \<open>null\<close> that
  \<open>castNumber\<close> makes of an empty string does not arise.
\<close>

fun cast_prim :: "prim \<Rightarrow> failure + real" where
  "cast_prim (PNum n) = cast_num n"
| "cast_prim (PStr s) = cast_num (str_to_number s)"

section \<open>Evaluation rules\<close>

lemma cast_num_Inl [js_simps]:
  "cast_num x = Inl e \<longleftrightarrow> (x = NaN \<and> e = CastError) \<or> ((x = PInf \<or> x = NInf) \<and> e = InfiniteNumber)"
  by (cases x) auto

lemma to_number_NaN [js_simps]: "to_number v = NaN \<longleftrightarrow> v = JUndef \<or> (\<exists>s. v = JStr s \<and> str_to_number s = NaN)"
  by (cases v) auto

lemma add_to_number_Num [simp]: "\<not> is_str v \<Longrightarrow> add_to_number x v = PNum (Num x + to_number v)"
  by (cases v) auto

lemma add_to_number_Str: "add_to_number x v = PStr s \<Longrightarrow> s \<noteq> []"
  by (cases v) auto

lemma cast_number_num:
  "\<not> is_str v \<Longrightarrow> cast_number v = Inr r \<longleftrightarrow> (r = None \<and> (v = JNull \<or> v = JUndef)) \<or>
     (\<exists>x. r = Some x \<and> to_number v = Num x \<and> v \<noteq> JNull)"
  by (cases v) auto

end
