(* ===== verification/Collection.thy ===== *)
theory Collection
  imports Prelude
begin

text \<open>
  A MongoDB collection as the driver presents it to \<open>src/index.js\<close>: a sequence of
  documents in natural (insertion) order, each with its \<open>_id\<close>. The operations are
  generic in the document type; \<open>key\<close> reads a document's \<open>_id\<close>. They are the part of
  Mongoose's \<open>Model\<close> interface the program calls (\<open>findById\<close>, \<open>find\<close>, \<open>save\<close> of a
  new and of a loaded document, \<open>findByIdAndUpdate\<close>, \<open>findByIdAndDelete\<close>), written from
  the specification's description of the store (section 4.1, 4.2) since Mongoose is
  not part of the repository.
  An abstraction to a finite map and refinement lemmas show the list operations
  implement the map operations the specification names, under the invariant that
  \<open>_id\<close>s are distinct.
\<close>

section \<open>Operations\<close>

definition coll_find :: "('a \<Rightarrow> oid) \<Rightarrow> oid \<Rightarrow> 'a list \<Rightarrow> 'a option" where
  "coll_find key i xs = find (\<lambda>x. key x = i) xs"

definition coll_insert :: "'a \<Rightarrow> 'a list \<Rightarrow> 'a list" where
  "coll_insert x xs = xs @ [x]"

definition coll_update :: "('a \<Rightarrow> oid) \<Rightarrow> oid \<Rightarrow> ('a \<Rightarrow> 'a) \<Rightarrow> 'a list \<Rightarrow> 'a list" where
  "coll_update key i f xs = map (\<lambda>x. if key x = i then f x else x) xs"

definition coll_delete :: "('a \<Rightarrow> oid) \<Rightarrow> oid \<Rightarrow> 'a list \<Rightarrow> 'a list" where
  "coll_delete key i xs = filter (\<lambda>x. key x \<noteq> i) xs"

section \<open>Invariant and abstraction\<close>

text \<open>Well-formed: no two documents share an \<open>_id\<close>.\<close>

definition coll_wf :: "('a \<Rightarrow> oid) \<Rightarrow> 'a list \<Rightarrow> bool" where
  "coll_wf key xs \<longleftrightarrow> distinct (map key xs)"

definition coll_ids :: "('a \<Rightarrow> oid) \<Rightarrow> 'a list \<Rightarrow> oid set" where
  "coll_ids key xs = key ` set xs"

text \<open>The abstract collection: a finite map from \<open>_id\<close> to document.\<close>

definition coll_map :: "('a \<Rightarrow> oid) \<Rightarrow> 'a list \<Rightarrow> oid \<rightharpoonup> 'a" where
  "coll_map key xs = map_of (map (\<lambda>x. (key x, x)) xs)"

section \<open>Lemmas\<close>

lemma coll_find_map: "coll_find key i xs = coll_map key xs i"
  unfolding coll_find_def coll_map_def by (induction xs) auto

lemma coll_find_Some [store_simps]:
  "coll_find key i xs = Some x \<Longrightarrow> x \<in> set xs \<and> key x = i"
  unfolding coll_find_def by (rule find_key_Some)

lemma coll_find_None [store_simps]: "coll_find key i xs = None \<longleftrightarrow> i \<notin> coll_ids key xs"
  unfolding coll_find_def coll_ids_def by (rule find_key_None)

lemma coll_ids_insert [store_simps]:
  "coll_ids key (coll_insert x xs) = insert (key x) (coll_ids key xs)"
  by (auto simp: coll_ids_def coll_insert_def)

lemma coll_ids_update [store_simps]:
  "(\<And>x. key (f x) = key x) \<Longrightarrow> coll_ids key (coll_update key i f xs) = coll_ids key xs"
  unfolding coll_ids_def coll_update_def
  by (metis list.set_map map_key_update)

lemma coll_ids_delete [store_simps]: "coll_ids key (coll_delete key i xs) = coll_ids key xs - {i}"
  by (auto simp: coll_ids_def coll_delete_def)

lemma coll_wf_insert [store_simps]:
  "coll_wf key (coll_insert x xs) \<longleftrightarrow> coll_wf key xs \<and> key x \<notin> coll_ids key xs"
  by (auto simp: coll_wf_def coll_insert_def coll_ids_def)

lemma coll_wf_update [store_simps]:
  "(\<And>x. key (f x) = key x) \<Longrightarrow> coll_wf key (coll_update key i f xs) = coll_wf key xs"
  unfolding coll_wf_def coll_update_def by (metis map_key_update)

lemma coll_wf_delete [store_simps]: "coll_wf key xs \<Longrightarrow> coll_wf key (coll_delete key i xs)"
  unfolding coll_wf_def coll_delete_def by (simp add: distinct_map_filter)

lemma coll_find_insert_same [store_simps]:
  "key x \<notin> coll_ids key xs \<Longrightarrow> coll_find key (key x) (coll_insert x xs) = Some x"
proof -
  assume "key x \<notin> coll_ids key xs"
  then have "find (\<lambda>y. key y = key x) xs = None"
    by (simp add: find_key_None coll_ids_def)
  then show ?thesis by (simp add: coll_find_def coll_insert_def find_key_append)
qed

lemma coll_find_update [store_simps]:
  "(\<And>x. key (f x) = key x) \<Longrightarrow>
   coll_find key j (coll_update key i f xs) =
     (if i = j then map_option f (coll_find key j xs) else coll_find key j xs)"
  unfolding coll_find_def coll_update_def by (rule find_key_update)

lemma coll_find_delete [store_simps]:
  "coll_find key j (coll_delete key i xs) = (if i = j then None else coll_find key j xs)"
  unfolding coll_find_def coll_delete_def by (rule find_key_filter)

lemma coll_update_list_all [store_simps]:
  "list_all P xs \<Longrightarrow> (\<And>x. x \<in> set xs \<Longrightarrow> key x = i \<Longrightarrow> P x \<Longrightarrow> P (f x)) \<Longrightarrow>
   list_all P (coll_update key i f xs)"
  by (induction xs) (auto simp: coll_update_def)

lemma coll_insert_list_all [store_simps]:
  "list_all P (coll_insert x xs) \<longleftrightarrow> list_all P xs \<and> P x"
  by (auto simp: coll_insert_def)

lemma coll_delete_list_all [store_simps]: "list_all P xs \<Longrightarrow> list_all P (coll_delete key i xs)"
  by (auto simp: coll_delete_def list_all_iff)

lemma coll_update_field [store_simps]:
  "(\<And>x. g (f x) = g x) \<Longrightarrow> map g (coll_update key i f xs) = map g xs"
  by (induction xs) (auto simp: coll_update_def)

lemma coll_delete_absent [store_simps]: "i \<notin> coll_ids key xs \<Longrightarrow> coll_delete key i xs = xs"
  by (induction xs) (auto simp: coll_delete_def coll_ids_def)

subsection \<open>Refinement of the finite-map operations\<close>

text \<open>
  Under \<open>coll_wf\<close> the list operations implement the map operations: inserting a fresh
  document adds its \<open>_id\<close>, updating applies the function at one \<open>_id\<close>, deleting
  removes one \<open>_id\<close>. This is the contract \<open>src/index.js\<close> relies on.
\<close>

lemma coll_map_insert:
  "key x \<notin> coll_ids key xs \<Longrightarrow> coll_map key (coll_insert x xs) = (coll_map key xs)(key x \<mapsto> x)"
proof (rule ext)
  fix j
  assume fresh: "key x \<notin> coll_ids key xs"
  show "coll_map key (coll_insert x xs) j = ((coll_map key xs)(key x \<mapsto> x)) j"
  proof (cases "j = key x")
    case True
    with fresh show ?thesis by (simp add: coll_find_map [symmetric] coll_find_insert_same)
  next
    case False
    then show ?thesis
      by (simp add: coll_find_map [symmetric] coll_find_def coll_insert_def find_key_append
          split: option.split)
  qed
qed

lemma coll_map_update:
  "(\<And>x. key (f x) = key x) \<Longrightarrow>
   coll_map key (coll_update key i f xs) = (coll_map key xs)(i := map_option f (coll_map key xs i))"
  by (rule ext) (simp add: coll_find_map [symmetric] coll_find_update)

lemma coll_map_delete: "coll_map key (coll_delete key i xs) = (coll_map key xs)(i := None)"
  by (rule ext) (simp add: coll_find_map [symmetric] coll_find_delete)

lemma coll_update_id: "coll_update key i (\<lambda>x. x) xs = xs"
  by (simp add: coll_update_def)

lemma coll_update_commute:
  "i \<noteq> j \<Longrightarrow> (\<And>x. key (f x) = key x) \<Longrightarrow> (\<And>x. key (g x) = key x) \<Longrightarrow>
   coll_update key i f (coll_update key j g xs) = coll_update key j g (coll_update key i f xs)"
  by (induction xs) (auto simp: coll_update_def)

end
