(* ===== verification/Model.thy ===== *)
theory Model
  imports JsValue Collection
begin

text \<open>
  The data model of \<open>src/index.js\<close> (lines 20--40): the Mongoose schemas \<open>Customer\<close>
  and \<open>Order\<close> as records with their defaults, the database as a record of the two
  collections and the identifier counter, and the Mongoose model calls the handlers make
  (\<open>findById\<close>, \<open>save\<close>, \<open>findByIdAndUpdate\<close>, \<open>findByIdAndDelete\<close>, \<open>find\<close>,
  \<open>populate\<close>) on top of the generic collection of \<open>Collection\<close>.
  The invariant \<open>db_wf\<close> (identifiers unique and below the counter) is kept by every
  call.
\<close>

section \<open>Schemas\<close>

text \<open>
  \<open>customerSchema\<close>: the string paths may be missing (\<open>None\<close>: the body field was
  \<open>undefined\<close>); \<open>rate_discount\<close> defaults to \<open>null\<close> (\<open>None\<close>), \<open>wallet\<close> to \<open>0\<close>.
  \<open>password\<close> holds what the handler stored, the bcrypt hash.
\<close>

record customer =
  cust_id :: oid
  name :: "string option"
  email :: "string option"
  password :: "string option"
  phone :: "string option"
  rate_discount :: "real option"
  wallet :: real

text \<open>\<open>orderSchema\<close>: \<open>customer_id\<close> is a reference to a customer, never checked.\<close>

record order =
  order_id :: oid
  customer_id :: oid
  product_name :: "string option"
  product_price :: real
  purchase_date :: int

text \<open>
  The state the program keeps outside itself: the \<open>customers\<close> and \<open>orders\<close> collections
  of the MongoDB database, and the source of fresh \<open>ObjectId\<close>s.
\<close>

record db =
  customers :: "customer list"
  orders :: "order list"
  next_oid :: oid

text \<open>A document built by \<open>new Customer({...})\<close>: the schema defaults fill the rest.\<close>

definition new_customer ::
  "oid \<Rightarrow> string option \<Rightarrow> string option \<Rightarrow> string option \<Rightarrow> string option \<Rightarrow> customer" where
  "new_customer i n e pw ph =
     \<lparr>cust_id = i, name = n, email = e, password = pw, phone = ph,
      rate_discount = None, wallet = 0\<rparr>"

text \<open>\<open>new Order({...})\<close>: \<open>purchase_date\<close> defaults to \<open>Date.now\<close>, the time \<open>now\<close>.\<close>

definition new_order :: "oid \<Rightarrow> oid \<Rightarrow> string option \<Rightarrow> real \<Rightarrow> int \<Rightarrow> order" where
  "new_order i c pn pp now =
     \<lparr>order_id = i, customer_id = c, product_name = pn, product_price = pp,
      purchase_date = now\<rparr>"

section \<open>Identifiers\<close>

text \<open>
  \<open>req.params.id\<close> is a string: either it casts to an \<open>ObjectId\<close> or it does not, and
  then every query on it rejects with a \<open>CastError\<close>.
\<close>

datatype req_id = Oid oid | Malformed

fun cast_id :: "req_id \<Rightarrow> failure + oid" where
  "cast_id (Oid i) = Inr i"
| "cast_id Malformed = Inl CastError"

definition alloc_oid :: "db \<Rightarrow> oid \<times> db" where
  "alloc_oid d = (next_oid d, d\<lparr>next_oid := Suc (next_oid d)\<rparr>)"

section \<open>Model calls\<close>

text \<open>\<open>Customer.findById(id)\<close>: the document, \<open>null\<close> (\<open>None\<close>) if there is none.\<close>

definition find_customer :: "req_id \<Rightarrow> db \<Rightarrow> failure + customer option" where
  "find_customer r d =
     (case cast_id r of
        Inl e \<Rightarrow> Inl e
      | Inr i \<Rightarrow> Inr (coll_find cust_id i (customers d)))"

text \<open>
  \<open>doc.save()\<close> of a loaded customer: Mongoose sends \<open>$set\<close> of the paths the handler
  modified (\<open>f\<close>) for the document's \<open>_id\<close>, and rejects with \<open>DocumentNotFound\<close> when
  no document has that \<open>_id\<close> any more.
\<close>

definition save_customer :: "oid \<Rightarrow> (customer \<Rightarrow> customer) \<Rightarrow> db \<Rightarrow> failure + db" where
  "save_customer i f d =
     (if i \<in> coll_ids cust_id (customers d)
      then Inr (d\<lparr>customers := coll_update cust_id i f (customers d)\<rparr>)
      else Inl DocumentNotFound)"

text \<open>\<open>doc.save()\<close> of a new document: an insert.\<close>

definition insert_customer :: "customer \<Rightarrow> db \<Rightarrow> db" where
  "insert_customer c d = d\<lparr>customers := coll_insert c (customers d)\<rparr>"

definition insert_order :: "order \<Rightarrow> db \<Rightarrow> db" where
  "insert_order od d = d\<lparr>orders := coll_insert od (orders d)\<rparr>"

text \<open>
  \<open>Customer.findByIdAndUpdate(id, data, {new: true})\<close>: the updated document, or
  \<open>null\<close> when there is none.
\<close>

definition update_customer ::
  "req_id \<Rightarrow> (customer \<Rightarrow> customer) \<Rightarrow> db \<Rightarrow> failure + customer option \<times> db" where
  "update_customer r f d =
     (case cast_id r of
        Inl e \<Rightarrow> Inl e
      | Inr i \<Rightarrow>
          (let d' = d\<lparr>customers := coll_update cust_id i f (customers d)\<rparr>
           in Inr (coll_find cust_id i (customers d'), d')))"

text \<open>\<open>Customer.findByIdAndDelete(id)\<close>: removes the document if there is one.\<close>

definition delete_customer :: "req_id \<Rightarrow> db \<Rightarrow> failure + db" where
  "delete_customer r d =
     (case cast_id r of
        Inl e \<Rightarrow> Inl e
      | Inr i \<Rightarrow> Inr (d\<lparr>customers := coll_delete cust_id i (customers d)\<rparr>))"

text \<open>\<open>Order.find({customer_id: id})\<close>, in natural order.\<close>

definition orders_of :: "req_id \<Rightarrow> db \<Rightarrow> failure + order list" where
  "orders_of r d =
     (case cast_id r of
        Inl e \<Rightarrow> Inl e
      | Inr i \<Rightarrow> Inr (filter (\<lambda>od. customer_id od = i) (orders d)))"

text \<open>
  \<open>populate('customer_id', 'name email')\<close> of one order: the reference is replaced by
  the customer's \<open>_id\<close>, \<open>name\<close> and \<open>email\<close>, or by \<open>null\<close> when the customer is gone.
\<close>

type_synonym populated = "order \<times> (oid \<times> string option \<times> string option) option"

definition populate :: "db \<Rightarrow> order \<Rightarrow> populated" where
  "populate d od =
     (od, map_option (\<lambda>c. (cust_id c, name c, email c))
           (coll_find cust_id (customer_id od) (customers d)))"

section \<open>Responses\<close>

text \<open>
  What a handler sends: a status and a body. \<open>res.send(text)\<close> is a text body,
  \<open>res.json(x)\<close> a JSON body (\<open>null\<close> for a missing document), \<open>res.status(204).send()\<close>
  an empty one.
\<close>

datatype payload =
    Text string
  | JsonCustomer customer
  | JsonCustomers "customer list"
  | JsonOrder order
  | JsonOrders "order list"
  | JsonPopulated "populated list"
  | JsonNull
  | NoBody

record response =
  status :: nat
  payload :: payload

definition reply :: "nat \<Rightarrow> payload \<Rightarrow> response" where
  "reply s b = \<lparr>status = s, payload = b\<rparr>"

text \<open>
  The outcome of a handler: the response, or the failure that left the request without
  one, and the database after the calls the handler made before it stopped.
\<close>

type_synonym outcome = "(failure + response) \<times> db"

section \<open>Well-formedness of the database\<close>

text \<open>
  Identifiers are unique within each collection and were all handed out by the counter,
  so a fresh one is never in use.
\<close>

definition db_wf :: "db \<Rightarrow> bool" where
  "db_wf d \<longleftrightarrow> coll_wf cust_id (customers d) \<and> coll_wf order_id (orders d) \<and>
     coll_ids cust_id (customers d) \<union> coll_ids order_id (orders d) \<subseteq> {..< next_oid d}"

text \<open>
  A sample database for concrete runs: one customer with \<open>100\<close> in its wallet and a
  \<open>20\<close> percent discount, as in the specification's example (section 8).
\<close>

definition sample_customer :: customer where
  "sample_customer =
     \<lparr>cust_id = 0, name = Some ''Ann'', email = Some ''ann@example.com'',
      password = Some ''hash-of-secret'', phone = Some ''0812345678'',
      rate_discount = Some 20, wallet = 100\<rparr>"

definition sample_db :: db where
  "sample_db = \<lparr>customers = [sample_customer], orders = [], next_oid = 1\<rparr>"

lemmas sample_simps = sample_db_def sample_customer_def coll_find_def coll_ids_def
  coll_update_def coll_insert_def coll_delete_def

lemma sample_found: "coll_find cust_id 0 (customers sample_db) = Some sample_customer"
  by (simp add: sample_simps)

lemma sample_absent: "coll_find cust_id 5 (customers sample_db) = None"
  by (simp add: sample_simps)

lemma sample_balance_facts:
  "db_wf sample_db" "wallet sample_customer = 100" "rate_discount sample_customer = Some 20"
  by (simp_all add: db_wf_def coll_wf_def sample_simps)

lemma db_wf_fresh:
  "db_wf d \<Longrightarrow> next_oid d \<notin> coll_ids cust_id (customers d) \<and> next_oid d \<notin> coll_ids order_id (orders d)"
  unfolding db_wf_def by blast

lemma db_wf_alloc_insert_customer:
  "db_wf d \<Longrightarrow> alloc_oid d = (i, d1) \<Longrightarrow> cust_id c = i \<Longrightarrow> db_wf (insert_customer c d1)"
  by (auto simp: db_wf_def alloc_oid_def insert_customer_def store_simps)

lemma db_wf_alloc_insert_order:
  "db_wf d \<Longrightarrow> alloc_oid d = (i, d1) \<Longrightarrow> order_id od = i \<Longrightarrow> db_wf (insert_order od d1)"
  by (auto simp: db_wf_def alloc_oid_def insert_order_def store_simps)

lemma db_wf_save_customer:
  "db_wf d \<Longrightarrow> save_customer i f d = Inr d' \<Longrightarrow> (\<And>c. cust_id (f c) = cust_id c) \<Longrightarrow> db_wf d'"
  by (auto simp: db_wf_def save_customer_def store_simps split: if_splits)

lemma db_wf_customers_update:
  "db_wf d \<Longrightarrow> (\<And>c. cust_id (f c) = cust_id c) \<Longrightarrow>
   db_wf (d\<lparr>customers := coll_update cust_id i f (customers d)\<rparr>)"
  by (simp add: db_wf_def store_simps)

lemma db_wf_update_customer:
  "db_wf d \<Longrightarrow> update_customer r f d = Inr (x, d') \<Longrightarrow> (\<And>c. cust_id (f c) = cust_id c) \<Longrightarrow> db_wf d'"
  by (auto simp: db_wf_def update_customer_def store_simps split: sum.splits)

lemma db_wf_delete_customer:
  "db_wf d \<Longrightarrow> delete_customer r d = Inr d' \<Longrightarrow> db_wf d'"
  by (auto simp: db_wf_def delete_customer_def store_simps split: sum.splits)

end
