(* ===== verification/Wallet.thy ===== *)
theory Wallet
  imports Model
begin

text \<open>
  The pricing and wallet engine of \<open>src/index.js\<close>: the three handlers that read a
  customer, change its wallet or its discount and write it back
  (\<open>POST /customers/:id/topup\<close>, lines 80--87; \<open>POST /customers/:id/discount\<close>, lines
  90--103; \<open>POST /customers/:id/purchase\<close>, lines 106--129), and the price computation
  of the purchase (lines 111--112). Each handler is one function from the request's
  fields and the database to an outcome, with every early return of the source as a
  branch. The lemmas give the behaviour of each branch, the abstract pricing rule the
  computation implements, and what the handlers keep: discounts within \<open>[0, 100]\<close>,
  wallets non-negative, and the money of a customer (wallet plus what its orders cost).
\<close>

section \<open>Pricing\<close>

text \<open>
  Lines 111--112: the discount is taken only when the stored \<open>rate_discount\<close> is
  truthy, so a rate of \<open>0\<close> is the same as \<open>null\<close>. The guard makes \<open>the\<close> defined.
\<close>

definition final_price :: "real option \<Rightarrow> jsval \<Rightarrow> jsnum" where
  "final_price rd price =
     (let discount = (if num_truthy rd then Num (the rd / 100) * to_number price
                      else Num 0)
      in to_number price - discount)"

text \<open>The pricing rule of the specification (section 4.3), on a numeric listed price.\<close>

definition spec_price :: "real option \<Rightarrow> real \<Rightarrow> real" where
  "spec_price rd p = (case rd of None \<Rightarrow> p | Some r \<Rightarrow> p - p * (r / 100))"

section \<open>Handlers\<close>

definition not_found :: response where
  "not_found = reply 404 (Text ''Customer not found'')"

text \<open>\<open>POST /customers/:id/topup\<close>: \<open>customer.wallet += wallet_topup\<close>, then save.\<close>

definition topup :: "req_id \<Rightarrow> jsval \<Rightarrow> db \<Rightarrow> outcome" where
  "topup r wallet_topup d =
     (case find_customer r d of
        Inl e \<Rightarrow> (Inl e, d)
      | Inr None \<Rightarrow> (Inr not_found, d)
      | Inr (Some c) \<Rightarrow>
          (case cast_prim (add_to_number (wallet c) wallet_topup) of
             Inl e \<Rightarrow> (Inl e, d)
           | Inr w \<Rightarrow>
               (case save_customer (cust_id c) (\<lambda>x. x\<lparr>wallet := w\<rparr>) d of
                  Inl e \<Rightarrow> (Inl e, d)
                | Inr d' \<Rightarrow> (Inr (reply 200 (JsonCustomer (c\<lparr>wallet := w\<rparr>))), d'))))"

text \<open>
  \<open>POST /customers/:id/discount\<close>: the range check is the JavaScript comparison
  \<open>rate_discount < 0 || rate_discount > 100\<close> on the raw body value.
\<close>

definition invalid_rate :: response where
  "invalid_rate = reply 400 (Text ''Invalid rate_discount value. Must be between 0 and 100'')"

definition discount :: "req_id \<Rightarrow> jsval \<Rightarrow> db \<Rightarrow> outcome" where
  "discount r rate d =
     (case find_customer r d of
        Inl e \<Rightarrow> (Inl e, d)
      | Inr None \<Rightarrow> (Inr not_found, d)
      | Inr (Some c) \<Rightarrow>
          (if to_number rate < Num 0 \<or> Num 100 < to_number rate
           then (Inr invalid_rate, d)
           else
             (case cast_number rate of
                Inl e \<Rightarrow> (Inl e, d)
              | Inr rd \<Rightarrow>
                  (case save_customer (cust_id c) (\<lambda>x. x\<lparr>rate_discount := rd\<rparr>) d of
                     Inl e \<Rightarrow> (Inl e, d)
                   | Inr d' \<Rightarrow> (Inr (reply 200 (JsonCustomer (c\<lparr>rate_discount := rd\<rparr>))), d')))))"

text \<open>
  \<open>POST /customers/:id/purchase\<close>: check the balance against the final price, debit
  and save the customer, then build and save the order with the final price.
\<close>

definition insufficient :: response where
  "insufficient = reply 400 (Text ''Insufficient wallet balance'')"

definition purchase :: "req_id \<Rightarrow> jsval \<Rightarrow> jsval \<Rightarrow> int \<Rightarrow> db \<Rightarrow> outcome" where
  "purchase r pname price now d =
     (case find_customer r d of
        Inl e \<Rightarrow> (Inl e, d)
      | Inr None \<Rightarrow> (Inr not_found, d)
      | Inr (Some c) \<Rightarrow>
          (let fp = final_price (rate_discount c) price
           in if Num (wallet c) < fp then (Inr insufficient, d)
              else
                (case cast_num (Num (wallet c) - fp) of
                   Inl e \<Rightarrow> (Inl e, d)
                 | Inr w \<Rightarrow>
                     (case save_customer (cust_id c) (\<lambda>x. x\<lparr>wallet := w\<rparr>) d of
                        Inl e \<Rightarrow> (Inl e, d)
                      | Inr d1 \<Rightarrow>
                          (let (i, d2) = alloc_oid d1
                           in case cast_num fp of
                                Inl e \<Rightarrow> (Inl e, d2)
                              | Inr p \<Rightarrow>
                                  (let od = new_order i (cust_id c) (cast_string pname) p now
                                   in (Inr (reply 200 (JsonOrder od)), insert_order od d2)))))))"

section \<open>The customer's money and the stored invariants\<close>

text \<open>
  What a customer has spent: the sum of the prices of the orders that reference it. Its
  balance is its wallet plus what it has spent; a purchase moves money from the wallet to
  an order and should leave the balance as it was.
\<close>

definition spent :: "db \<Rightarrow> oid \<Rightarrow> real" where
  "spent d i = sum_list (map product_price (filter (\<lambda>od. customer_id od = i) (orders d)))"

definition balance :: "db \<Rightarrow> oid \<Rightarrow> real option" where
  "balance d i = map_option (\<lambda>c. wallet c + spent d i) (coll_find cust_id i (customers d))"

text \<open>The database after a successful purchase of price \<open>p\<close> by customer \<open>c\<close>.\<close>

definition debit_db :: "oid \<Rightarrow> customer \<Rightarrow> string option \<Rightarrow> real \<Rightarrow> int \<Rightarrow> db \<Rightarrow> db" where
  "debit_db i c pname p now d =
     d\<lparr>customers := coll_update cust_id i (\<lambda>x. x\<lparr>wallet := wallet c - p\<rparr>) (customers d),
       orders := coll_insert (new_order (next_oid d) i pname p now) (orders d),
       next_oid := Suc (next_oid d)\<rparr>"

text \<open>Every stored discount is \<open>null\<close> or within \<open>[0, 100]\<close>.\<close>

definition rate_ok :: "customer \<Rightarrow> bool" where
  "rate_ok c = (case rate_discount c of None \<Rightarrow> True | Some r \<Rightarrow> 0 \<le> r \<and> r \<le> 100)"

definition rates_ok :: "db \<Rightarrow> bool" where
  "rates_ok d = list_all rate_ok (customers d)"

text \<open>Every stored wallet is non-negative.\<close>

definition wallets_ok :: "db \<Rightarrow> bool" where
  "wallets_ok d = list_all (\<lambda>c. 0 \<le> wallet c) (customers d)"

text \<open>A top-up amount that cannot make a wallet negative.\<close>

definition amount_ok :: "jsval \<Rightarrow> bool" where
  "amount_ok v = (is_str v \<or> (case to_number v of Num x \<Rightarrow> 0 \<le> x | _ \<Rightarrow> True))"

section \<open>Lemmas\<close>

subsection \<open>Model calls on a found customer\<close>

lemma find_customer_simps [simp]:
  "find_customer (Oid i) d = Inr (coll_find cust_id i (customers d))"
  "find_customer Malformed d = Inl CastError"
  by (simp_all add: find_customer_def)

lemma coll_find_cust_id: "coll_find cust_id i xs = Some c \<Longrightarrow> cust_id c = i"
  by (drule coll_find_Some) simp

lemma save_customer_found:
  "coll_find cust_id i (customers d) = Some c \<Longrightarrow>
   save_customer i f d = Inr (d\<lparr>customers := coll_update cust_id i f (customers d)\<rparr>)"
  by (auto simp: save_customer_def coll_ids_def dest!: coll_find_Some)

lemma spent_customers [simp]: "spent (d\<lparr>customers := cs\<rparr>) j = spent d j"
  by (simp add: spent_def)

lemma spent_debit:
  "spent (debit_db i c pname p now d) j = spent d j + (if j = i then p else 0)"
  by (simp add: debit_db_def spent_def new_order_def coll_insert_def)

lemma balance_update_wallet:
  "coll_find cust_id i (customers d) = Some c \<Longrightarrow>
   balance (d\<lparr>customers := coll_update cust_id i (\<lambda>x. x\<lparr>wallet := w\<rparr>) (customers d)\<rparr>) j =
   (if j = i then Some (w + spent d i) else balance d j)"
  by (simp add: balance_def coll_find_update)

lemmas wallet_unfold = purchase_def topup_def discount_def Let_def

subsection \<open>Pricing\<close>

text \<open>C5: On a numeric listed price the price computation of the purchase handler is the specification's rule: the listed price less the discount rate percent of it, no discount when the rate is null.\<close>

theorem final_price_spec: "final_price rd (JNum p) = Num (spec_price rd p)"
  by (cases rd) (auto simp: final_price_def spec_price_def)

text \<open>A stored discount rate of 0 is falsy and gives the same final price as no discount at all, for every listed price.\<close>

theorem final_price_zero_rate: "final_price (Some 0) price = final_price None price"
  by (simp add: final_price_def)

subsection \<open>Purchase\<close>

text \<open>C1: When the customer exists, the listed price is a number whose discounted final price p is at most the wallet, a purchase answers 200 with a new order of price p, debits the wallet by p, appends the order and draws one fresh identifier.\<close>

theorem purchase_debits:
  assumes found: "coll_find cust_id i (customers d) = Some c"
    and price: "final_price (rate_discount c) price = Num p"
    and enough: "p \<le> wallet c"
  shows "purchase (Oid i) pname price now d =
    (Inr (reply 200 (JsonOrder (new_order (next_oid d) i (cast_string pname) p now))),
     d\<lparr>customers := coll_update cust_id i (\<lambda>x. x\<lparr>wallet := wallet c - p\<rparr>) (customers d),
       orders := orders d @ [new_order (next_oid d) i (cast_string pname) p now],
       next_oid := Suc (next_oid d)\<rparr>)"
  using found enough coll_find_cust_id [OF found]
  by (simp add: purchase_def price save_customer_found Let_def alloc_oid_def insert_order_def
      coll_insert_def debit_db_def)

text \<open>C2: When the wallet is below the final price, a purchase answers 400 Insufficient wallet balance and changes nothing: no debit, no order.\<close>

theorem purchase_insufficient:
  assumes "coll_find cust_id i (customers d) = Some c"
    and "Num (wallet c) < final_price (rate_discount c) price"
  shows "purchase (Oid i) pname price now d = (Inr insufficient, d)"
  using assms by (simp add: purchase_def)

text \<open>C15: A purchase for an id with no customer answers 404 Customer not found and changes nothing.\<close>

theorem purchase_not_found:
  assumes "coll_find cust_id i (customers d) = None"
  shows "purchase (Oid i) pname price now d = (Inr not_found, d)"
  using assms by (simp add: purchase_def)

text \<open>C9: A purchase without product_price computes a NaN final price, passes the balance check (a comparison with NaN is false), and then the save of the NaN wallet rejects: the request is left unanswered and nothing changes.\<close>

theorem purchase_missing_price:
  assumes "coll_find cust_id i (customers d) = Some c"
  shows "purchase (Oid i) pname JUndef now d = (Inl CastError, d)"
  using assms by (simp add: purchase_def final_price_def Let_def js_simps)

text \<open>C36: A purchase at the listed price ''-Infinity'' passes the balance check, since no wallet is below minus infinity. With a discount rate in (0, 100] the final price is NaN and the save rejects; without a discount the wallet would become Infinity, which Mongoose stores and the model stops at with InfiniteNumber. Either way nothing is recorded.\<close>

theorem purchase_minus_infinity:
  assumes "coll_find cust_id i (customers d) = Some c" and "rate_ok c"
  shows "purchase (Oid i) pname (JStr ''-Infinity'') now d =
    (if num_truthy (rate_discount c) then (Inl CastError, d) else (Inl InfiniteNumber, d))"
proof -
  have inf: "str_to_number ''-Infinity'' = NInf"
    by (simp add: str_to_number_def trim_def js_space_def unsigned_dec_def)
  show ?thesis
    using assms by (cases "rate_discount c")
      (auto simp: purchase_def final_price_def Let_def inf rate_ok_def)
qed

text \<open>A purchase either changes nothing or debits the customer and records the order.\<close>

lemma purchase_success_db:
  assumes found: "coll_find cust_id i (customers d) = Some c"
    and "final_price (rate_discount c) price = Num p" and "p \<le> wallet c"
  shows "snd (purchase (Oid i) pname price now d) = debit_db i c (cast_string pname) p now d"
  using assms coll_find_cust_id [OF found]
  by (simp add: purchase_def save_customer_found Let_def alloc_oid_def insert_order_def
      coll_insert_def debit_db_def)

lemma purchase_cases:
  "snd (purchase r pname price now d) = d \<or>
   (\<exists>i c p. r = Oid i \<and> coll_find cust_id i (customers d) = Some c \<and>
      final_price (rate_discount c) price = Num p \<and> p \<le> wallet c \<and>
      snd (purchase r pname price now d) = debit_db i c (cast_string pname) p now d)"
proof (cases "\<exists>i c p. r = Oid i \<and> coll_find cust_id i (customers d) = Some c \<and>
      final_price (rate_discount c) price = Num p \<and> p \<le> wallet c")
  case True
  then obtain i c p where "r = Oid i" "coll_find cust_id i (customers d) = Some c"
    "final_price (rate_discount c) price = Num p" "p \<le> wallet c" by blast
  then show ?thesis by (auto simp: purchase_success_db)
next
  case no_debit: False
  show ?thesis
  proof (cases r)
    case Malformed
    then show ?thesis by (simp add: purchase_def)
  next
    case (Oid i)
    show ?thesis
    proof (cases "coll_find cust_id i (customers d)")
      case None
      with Oid show ?thesis by (simp add: purchase_def)
    next
      case (Some c)
      with Oid no_debit show ?thesis
        by (cases "final_price (rate_discount c) price") (auto simp: purchase_def not_less)
    qed
  qed
qed

lemma purchase_balance: "balance (snd (purchase r pname price now d)) j = balance d j"
  using purchase_cases [of r pname price now d]
proof
  assume "snd (purchase r pname price now d) = d"
  then show ?thesis by simp
next
  assume "\<exists>i c p. r = Oid i \<and> coll_find cust_id i (customers d) = Some c \<and>
      final_price (rate_discount c) price = Num p \<and> p \<le> wallet c \<and>
      snd (purchase r pname price now d) = debit_db i c (cast_string pname) p now d"
  then obtain i c p where found: "coll_find cust_id i (customers d) = Some c"
    and eq: "snd (purchase r pname price now d) = debit_db i c (cast_string pname) p now d" by blast
  show ?thesis
    using found by (simp add: eq balance_def spent_debit) (simp add: debit_db_def coll_find_update)
qed

lemma purchase_wallets_ok: "wallets_ok d \<Longrightarrow> wallets_ok (snd (purchase r pname price now d))"
  using purchase_cases [of r pname price now d]
  by (auto simp: wallets_ok_def debit_db_def intro!: coll_update_list_all)

subsection \<open>Top-up\<close>

text \<open>C8: A top-up whose amount is not a string and reads as the number x adds x to the wallet of an existing customer, negative x included, and answers 200 with the updated customer.\<close>

theorem topup_adds:
  assumes found: "coll_find cust_id i (customers d) = Some c"
    and "\<not> is_str v" and amount: "to_number v = Num x"
  shows "topup (Oid i) v d =
    (Inr (reply 200 (JsonCustomer (c\<lparr>wallet := wallet c + x\<rparr>))),
     d\<lparr>customers := coll_update cust_id i (\<lambda>y. y\<lparr>wallet := wallet c + x\<rparr>) (customers d)\<rparr>)"
  using assms coll_find_cust_id [OF found]
  by (simp add: topup_def save_customer_found)

text \<open>C16: A top-up without wallet_topup adds undefined, a NaN the save rejects: the request is unanswered and the wallet is unchanged.\<close>

theorem topup_undefined:
  assumes "coll_find cust_id i (customers d) = Some c"
  shows "topup (Oid i) JUndef d = (Inl CastError, d)"
  using assms by (simp add: topup_def)

text \<open>C33: A top-up whose amount is a string of decimal digits s is not added but appended: with an integer wallet n the stored wallet becomes the number whose digits are those of n followed by s (100 and ''10'' give 10010), and the customer is answered 200.\<close>

theorem topup_string_concat:
  assumes found: "coll_find cust_id i (customers d) = Some c"
    and n: "wallet c = of_nat n" "n < 10 ^ 21"
    and s: "list_all (\<lambda>ch. digit_val 10 ch \<noteq> None) s"
  shows "topup (Oid i) (JStr s) d =
    (let w = of_nat (n * 10 ^ length s + digits_value 10 (map (\<lambda>ch. the (digit_val 10 ch)) s))
     in (Inr (reply 200 (JsonCustomer (c\<lparr>wallet := w\<rparr>))),
         d\<lparr>customers := coll_update cust_id i (\<lambda>y. y\<lparr>wallet := w\<rparr>) (customers d)\<rparr>))"
  using found coll_find_cust_id [OF found] num_to_string_of_nat [OF n(2)] str_to_number_nat_digits [OF s]
  by (simp add: topup_def n save_customer_found Let_def)

lemma topup_success_db:
  assumes found: "coll_find cust_id i (customers d) = Some c"
    and "cast_prim (add_to_number (wallet c) v) = Inr w"
  shows "snd (topup (Oid i) v d) =
    d\<lparr>customers := coll_update cust_id i (\<lambda>y. y\<lparr>wallet := w\<rparr>) (customers d)\<rparr>"
  using assms coll_find_cust_id [OF found] by (simp add: topup_def save_customer_found)

lemma topup_cases:
  "snd (topup r v d) = d \<or>
   (\<exists>i c w. r = Oid i \<and> coll_find cust_id i (customers d) = Some c \<and>
      cast_prim (add_to_number (wallet c) v) = Inr w \<and>
      snd (topup r v d) = d\<lparr>customers := coll_update cust_id i (\<lambda>y. y\<lparr>wallet := w\<rparr>) (customers d)\<rparr>)"
proof (cases r)
  case Malformed
  then show ?thesis by (simp add: topup_def)
next
  case (Oid i)
  show ?thesis
  proof (cases "coll_find cust_id i (customers d)")
    case None
    with Oid show ?thesis by (simp add: topup_def)
  next
    case (Some c)
    with Oid show ?thesis
      by (cases "cast_prim (add_to_number (wallet c) v)") (auto simp: topup_success_db, simp add: topup_def)
  qed
qed

text \<open>A top-up whose amount is not a string and reads as the number x raises the balance of the customer it names by exactly x and leaves every other balance alone.\<close>

theorem topup_balance:
  assumes "\<not> is_str v" and amount: "to_number v = Num x"
  shows "balance (snd (topup (Oid i) v d)) j =
    (if j = i then map_option (\<lambda>b. b + x) (balance d j) else balance d j)"
proof (cases "coll_find cust_id i (customers d)")
  case None
  then show ?thesis by (simp add: topup_def balance_def)
next
  case (Some c)
  have "cast_prim (add_to_number (wallet c) v) = Inr (wallet c + x)" using assms by simp
  with Some show ?thesis
    by (simp add: topup_success_db balance_update_wallet) (simp add: balance_def)
qed

text \<open>
  What a top-up can store when the wallet is non-negative and the amount is allowed by
  \<open>amount_ok\<close>: a string is appended to the wallet's digits, so what it reads as is
  \<open>NaN\<close> or non-negative, whatever the string.
\<close>

lemma amount_ok_cast:
  assumes "0 \<le> x" "amount_ok v" "cast_prim (add_to_number x v) = Inr w"
  shows "0 \<le> w"
proof (cases "is_str v")
  case True
  then obtain s where v: "v = JStr s" by (cases v) auto
  have "num_to_string x @ s \<noteq> []" "digit_val 10 (hd (num_to_string x @ s)) \<noteq> None"
    using num_to_string_digit [OF assms(1)] by auto
  from str_to_number_nonneg [OF this] assms(3) show ?thesis by (auto simp: v)
next
  case False
  with assms show ?thesis by (cases "to_number v") (auto simp: amount_ok_def)
qed

lemma topup_wallets_ok:
  assumes "wallets_ok d" and "amount_ok v"
  shows "wallets_ok (snd (topup r v d))"
  using topup_cases [of r v d]
proof
  assume "snd (topup r v d) = d"
  with assms(1) show ?thesis by simp
next
  assume "\<exists>i c w. r = Oid i \<and> coll_find cust_id i (customers d) = Some c \<and>
      cast_prim (add_to_number (wallet c) v) = Inr w \<and>
      snd (topup r v d) = d\<lparr>customers := coll_update cust_id i (\<lambda>y. y\<lparr>wallet := w\<rparr>) (customers d)\<rparr>"
  then obtain i c w where found: "coll_find cust_id i (customers d) = Some c"
    and cast: "cast_prim (add_to_number (wallet c) v) = Inr w"
    and eq: "snd (topup r v d) = d\<lparr>customers := coll_update cust_id i (\<lambda>y. y\<lparr>wallet := w\<rparr>) (customers d)\<rparr>"
    by blast
  have "0 \<le> wallet c" using assms(1) found by (auto simp: wallets_ok_def list_all_iff dest!: coll_find_Some)
  then have "0 \<le> w" using assms(2) cast by (rule amount_ok_cast)
  with assms(1) show ?thesis
    by (auto simp: eq wallets_ok_def intro!: coll_update_list_all)
qed

text \<open>C34: A top-up whose amount is a string never makes a wallet negative: whatever the string, with ''-500'' included, the non-negative wallets of a database stay non-negative, since the string is appended to the wallet's digits rather than added.\<close>

theorem topup_string_nonneg:
  assumes "wallets_ok d"
  shows "wallets_ok (snd (topup r (JStr s) d))"
proof -
  have "amount_ok (JStr s)" by (simp add: amount_ok_def)
  with assms show ?thesis by (rule topup_wallets_ok)
qed

subsection \<open>Discount\<close>

lemma discount_cases:
  "snd (discount r v d) = d \<or>
   (\<exists>i c rd. r = Oid i \<and> coll_find cust_id i (customers d) = Some c \<and>
      \<not> (to_number v < Num 0 \<or> Num 100 < to_number v) \<and> cast_number v = Inr rd \<and>
      snd (discount r v d) =
        d\<lparr>customers := coll_update cust_id i (\<lambda>y. y\<lparr>rate_discount := rd\<rparr>) (customers d)\<rparr>)"
proof (cases r)
  case Malformed
  then show ?thesis by (simp add: discount_def)
next
  case (Oid i)
  show ?thesis
  proof (cases "coll_find cust_id i (customers d)")
    case None
    with Oid show ?thesis by (simp add: discount_def)
  next
    case (Some c)
    with Oid coll_find_cust_id [OF Some] show ?thesis
      by (auto simp: discount_def save_customer_found split: sum.split)
  qed
qed

lemma cast_number_in_range:
  "\<not> js_less (to_number v) (Num 0) \<Longrightarrow> \<not> js_less (Num 100) (to_number v) \<Longrightarrow>
   cast_number v = Inr rd \<Longrightarrow> (case rd of None \<Rightarrow> True | Some r \<Rightarrow> 0 \<le> r \<and> r \<le> 100)"
  by (cases v) (auto simp: cast_str_def js_simps split: if_splits sum.splits)

text \<open>C7: A discount rate below 0 or above 100 is answered 400 and leaves the database unchanged.\<close>

theorem discount_rejects:
  assumes "coll_find cust_id i (customers d) = Some c"
    and "to_number v = Num x" and "x < 0 \<or> 100 < x"
  shows "discount (Oid i) v d = (Inr invalid_rate, d)"
  using assms by (auto simp: discount_def)

text \<open>C14: A numeric rate within [0, 100] is stored as the customer's discount and the updated customer is answered with 200.\<close>

theorem discount_sets:
  assumes found: "coll_find cust_id i (customers d) = Some c"
    and "0 \<le> x" and "x \<le> 100"
  shows "discount (Oid i) (JNum x) d =
    (Inr (reply 200 (JsonCustomer (c\<lparr>rate_discount := Some x\<rparr>))),
     d\<lparr>customers := coll_update cust_id i (\<lambda>y. y\<lparr>rate_discount := Some x\<rparr>) (customers d)\<rparr>)"
  using assms coll_find_cust_id [OF found]
  by (simp add: discount_def save_customer_found not_less)

text \<open>C10: A discount request whose rate_discount is null, missing or the empty string passes the range check (each reads as 0 or NaN) and clears the stored discount.\<close>

theorem discount_clears:
  assumes found: "coll_find cust_id i (customers d) = Some c"
    and "v = JNull \<or> v = JUndef \<or> v = JStr []"
  shows "discount (Oid i) v d =
    (Inr (reply 200 (JsonCustomer (c\<lparr>rate_discount := None\<rparr>))),
     d\<lparr>customers := coll_update cust_id i (\<lambda>y. y\<lparr>rate_discount := None\<rparr>) (customers d)\<rparr>)"
  using assms coll_find_cust_id [OF found]
  by (auto simp: discount_def save_customer_found str_to_number_def trim_def cast_str_def)

text \<open>C35: A discount request whose rate_discount is a string that does not read as a number passes the range check, since every comparison with NaN is false, and then fails the Mongoose cast: the request is left unanswered and the database is unchanged.\<close>

theorem discount_nan_string:
  assumes "coll_find cust_id i (customers d) = Some c" and "str_to_number s = NaN"
  shows "discount (Oid i) (JStr s) d = (Inl CastError, d)"
proof -
  have "s \<noteq> []" using assms(2) by (auto simp: str_to_number_def trim_def)
  with assms show ?thesis by (simp add: discount_def cast_str_def)
qed

lemma discount_rates_ok: "rates_ok d \<Longrightarrow> rates_ok (snd (discount r v d))"
  using discount_cases [of r v d]
  by (auto simp: rates_ok_def rate_ok_def dest!: cast_number_in_range intro!: coll_update_list_all)

subsection \<open>What each handler leaves alone\<close>

lemma rates_ok_wallet_update:
  "rates_ok d \<Longrightarrow>
   rates_ok (d\<lparr>customers := coll_update cust_id i (\<lambda>y. y\<lparr>wallet := w\<rparr>) (customers d)\<rparr>)"
  by (auto simp: rates_ok_def rate_ok_def intro!: coll_update_list_all)

lemma topup_rates_ok: "rates_ok d \<Longrightarrow> rates_ok (snd (topup r v d))"
  using topup_cases [of r v d] by (auto intro: rates_ok_wallet_update)

lemma purchase_rates_ok: "rates_ok d \<Longrightarrow> rates_ok (snd (purchase r pname price now d))"
  using purchase_cases [of r pname price now d]
  by (auto simp: debit_db_def rates_ok_def rate_ok_def intro!: coll_update_list_all)

lemma discount_wallets_ok: "wallets_ok d \<Longrightarrow> wallets_ok (snd (discount r v d))"
  using discount_cases [of r v d]
  by (auto simp: wallets_ok_def intro!: coll_update_list_all)

section \<open>Concrete runs\<close>

text \<open>Each property above applied to the sample database, its hypotheses discharged.\<close>

theorem purchase_debits_witness:
  "coll_find cust_id 0 (customers sample_db) = Some sample_customer \<and>
   final_price (rate_discount sample_customer) (JNum 100) = Num 80 \<and>
   (80::real) \<le> wallet sample_customer \<and>
   purchase (Oid 0) (JStr ''book'') (JNum 100) 7 sample_db =
    (Inr (reply 200 (JsonOrder (new_order 1 0 (Some ''book'') 80 7))),
     \<lparr>customers = [sample_customer\<lparr>wallet := 20\<rparr>],
      orders = [new_order 1 0 (Some ''book'') 80 7], next_oid = 2\<rparr>)"
proof -
  have price: "final_price (rate_discount sample_customer) (JNum 100) = Num 80"
    by (simp add: sample_customer_def final_price_def)
  have enough: "(80::real) \<le> wallet sample_customer"
    by (simp add: sample_customer_def)
  show ?thesis
    using purchase_debits [OF sample_found price enough] sample_found price enough
    by (simp add: sample_simps)
qed

theorem purchase_insufficient_witness:
  "coll_find cust_id 0 (customers sample_db) = Some sample_customer \<and>
   Num (wallet sample_customer) < final_price (rate_discount sample_customer) (JNum 200) \<and>
   purchase (Oid 0) (JStr ''tv'') (JNum 200) 7 sample_db = (Inr insufficient, sample_db)"
proof -
  have short: "Num (wallet sample_customer) < final_price (rate_discount sample_customer) (JNum 200)"
    by (simp add: sample_customer_def final_price_def)
  show ?thesis using purchase_insufficient [OF sample_found short] sample_found short by simp
qed

theorem purchase_not_found_witness:
  "coll_find cust_id 5 (customers sample_db) = None \<and>
   purchase (Oid 5) (JStr ''book'') (JNum 10) 7 sample_db = (Inr not_found, sample_db)"
  using purchase_not_found [OF sample_absent] sample_absent by simp

theorem purchase_missing_price_witness:
  "coll_find cust_id 0 (customers sample_db) = Some sample_customer \<and>
   purchase (Oid 0) (JStr ''book'') JUndef 7 sample_db = (Inl CastError, sample_db)"
  using purchase_missing_price [OF sample_found] sample_found by simp

theorem topup_adds_witness:
  "coll_find cust_id 0 (customers sample_db) = Some sample_customer \<and> \<not> is_str (JNum 50) \<and>
   to_number (JNum 50) = Num 50 \<and>
   topup (Oid 0) (JNum 50) sample_db =
    (Inr (reply 200 (JsonCustomer (sample_customer\<lparr>wallet := 150\<rparr>))),
     sample_db\<lparr>customers := [sample_customer\<lparr>wallet := 150\<rparr>]\<rparr>)"
  using topup_adds [OF sample_found, of "JNum 50" 50] sample_found
  by (simp add: sample_simps)

theorem topup_undefined_witness:
  "coll_find cust_id 0 (customers sample_db) = Some sample_customer \<and>
   topup (Oid 0) JUndef sample_db = (Inl CastError, sample_db)"
  using topup_undefined [OF sample_found] sample_found by simp

theorem topup_balance_witness:
  "\<not> is_str (JNum (-30)) \<and> to_number (JNum (-30)) = Num (-30) \<and>
   balance (snd (topup (Oid 0) (JNum (-30)) sample_db)) 0 = Some 70"
proof -
  have "balance sample_db 0 = Some 100"
    by (simp add: balance_def spent_def sample_simps)
  then show ?thesis using topup_balance [of "JNum (-30)" "-30" 0 sample_db 0] by simp
qed

theorem discount_rejects_witness:
  "coll_find cust_id 0 (customers sample_db) = Some sample_customer \<and>
   to_number (JNum 150) = Num 150 \<and> ((150::real) < 0 \<or> 100 < (150::real)) \<and>
   discount (Oid 0) (JNum 150) sample_db = (Inr invalid_rate, sample_db)"
  using discount_rejects [OF sample_found, of "JNum 150" 150] sample_found by simp

theorem discount_sets_witness:
  "coll_find cust_id 0 (customers sample_db) = Some sample_customer \<and> (0::real) \<le> 50 \<and> (50::real) \<le> 100 \<and>
   discount (Oid 0) (JNum 50) sample_db =
    (Inr (reply 200 (JsonCustomer (sample_customer\<lparr>rate_discount := Some 50\<rparr>))),
     sample_db\<lparr>customers := [sample_customer\<lparr>rate_discount := Some 50\<rparr>]\<rparr>)"
  using discount_sets [OF sample_found, of 50] sample_found by (simp add: sample_simps)

theorem discount_clears_witness:
  "coll_find cust_id 0 (customers sample_db) = Some sample_customer \<and>
   (JStr [] = JNull \<or> JStr [] = JUndef \<or> JStr [] = JStr []) \<and>
   discount (Oid 0) (JStr []) sample_db =
    (Inr (reply 200 (JsonCustomer (sample_customer\<lparr>rate_discount := None\<rparr>))),
     sample_db\<lparr>customers := [sample_customer\<lparr>rate_discount := None\<rparr>]\<rparr>)"
  using discount_clears [OF sample_found, of "JStr []"] sample_found by (simp add: sample_simps)

theorem purchase_minus_infinity_witness:
  "coll_find cust_id 0 (customers sample_db) = Some sample_customer \<and> rate_ok sample_customer \<and>
   purchase (Oid 0) (JStr ''book'') (JStr ''-Infinity'') 1 sample_db = (Inl CastError, sample_db)"
proof -
  have ok: "rate_ok sample_customer" by (simp add: rate_ok_def sample_customer_def)
  show ?thesis
    using purchase_minus_infinity [OF sample_found ok, of "JStr ''book''" 1] sample_found ok
    by (simp add: sample_customer_def)
qed

theorem topup_string_concat_witness:
  "coll_find cust_id 0 (customers sample_db) = Some sample_customer \<and> wallet sample_customer = of_nat 100 \<and>
   (100::nat) < 10 ^ 21 \<and> list_all (\<lambda>ch. digit_val 10 ch \<noteq> None) ''10'' \<and>
   topup (Oid 0) (JStr ''10'') sample_db =
    (Inr (reply 200 (JsonCustomer (sample_customer\<lparr>wallet := 10010\<rparr>))),
     sample_db\<lparr>customers := [sample_customer\<lparr>wallet := 10010\<rparr>]\<rparr>)"
proof -
  have w: "wallet sample_customer = of_nat 100" by (simp add: sample_customer_def)
  have s: "list_all (\<lambda>ch. digit_val 10 ch \<noteq> None) ''10''" by (simp add: digit_val_def)
  show ?thesis
    using topup_string_concat [OF sample_found w _ s] sample_found w s
    by (simp add: sample_simps digit_val_def digits_value_def)
qed

theorem topup_string_nonneg_witness:
  "wallets_ok sample_db \<and> wallets_ok (snd (topup (Oid 0) (JStr ''-500'') sample_db))"
proof -
  have ok: "wallets_ok sample_db" by (simp add: wallets_ok_def sample_simps)
  show ?thesis using topup_string_nonneg [OF ok, of "Oid 0" "''-500''"] ok by simp
qed

theorem discount_nan_string_witness:
  "coll_find cust_id 0 (customers sample_db) = Some sample_customer \<and> str_to_number ''abc'' = NaN \<and>
   discount (Oid 0) (JStr ''abc'') sample_db = (Inl CastError, sample_db)"
proof -
  have nan: "str_to_number ''abc'' = NaN"
    by (simp add: str_to_number_def trim_def js_space_def digit_val_def unsigned_dec_def Let_def)
  show ?thesis using discount_nan_string [OF sample_found nan] sample_found nan by simp
qed

end
