(* ===== verification/Customers.thy ===== *)
theory Customers
  imports Wallet
begin

text \<open>
  The other handlers of \<open>src/index.js\<close>: the home route (lines 16--18), the customer
  CRUD routes (lines 43--77) and the two order listings (lines 132--141). Password
  hashing is an interface: \<open>bcrypt\<close> stands for \<open>bcrypt.hash(_, 10)\<close>, a function from
  the plaintext to the stored string that the lemmas take as a parameter; the salt it
  draws is part of the function. Body fields are JavaScript values, cast to the schema's
  String paths when stored. The lemmas show what each route stores and answers,
  that a created customer is found again by its id, that an update with a falsy password
  keeps the stored hash, that a null field is cleared while an absent one is kept, and
  that deleting a customer removes no order.
\<close>

section \<open>Handlers\<close>

definition home :: "db \<Rightarrow> outcome" where
  "home d = (Inr (reply 200 (Text ''This is my API running'')), d)"

text \<open>
  \<open>bcrypt.hash(password, 10)\<close>: the hash of a string; bcryptjs rejects any other
  argument (a number, a boolean, \<open>null\<close>, \<open>undefined\<close>) with \<open>Illegal arguments\<close>.
\<close>

definition hash_password :: "(string \<Rightarrow> string) \<Rightarrow> jsval \<Rightarrow> failure + string" where
  "hash_password bcrypt pw = (case pw of JStr p \<Rightarrow> Inr (bcrypt p) | _ \<Rightarrow> Inl IllegalArguments)"

text \<open>
  \<open>POST /customers\<close>: hash the password, build the document (which draws its \<open>_id\<close>
  and casts the other fields to the \<open>String\<close> paths of the schema), save it.
\<close>

definition create :: "(string \<Rightarrow> string) \<Rightarrow> jsval \<Rightarrow> jsval \<Rightarrow> jsval \<Rightarrow> jsval \<Rightarrow> db \<Rightarrow> outcome" where
  "create bcrypt n e pw ph d =
     (case hash_password bcrypt pw of
        Inl err \<Rightarrow> (Inl err, d)
      | Inr hashed \<Rightarrow>
          (let (i, d1) = alloc_oid d;
               c = new_customer i (cast_string n) (cast_string e) (Some hashed) (cast_string ph)
           in (Inr (reply 201 (JsonCustomer c)), insert_customer c d1)))"

definition list_customers :: "db \<Rightarrow> outcome" where
  "list_customers d = (Inr (reply 200 (JsonCustomers (customers d))), d)"

text \<open>\<open>GET /customers/:id\<close>: \<open>res.json(null)\<close> with status 200 when there is none.\<close>

definition get :: "req_id \<Rightarrow> db \<Rightarrow> outcome" where
  "get r d =
     (case find_customer r d of
        Inl e \<Rightarrow> (Inl e, d)
      | Inr None \<Rightarrow> (Inr (reply 200 JsonNull), d)
      | Inr (Some c) \<Rightarrow> (Inr (reply 200 (JsonCustomer c)), d))"

text \<open>
  \<open>PUT /customers/:id\<close>, line 66: a truthy password is hashed (and rejected when it is
  not a string), a falsy one (empty, \<open>0\<close>, \<open>false\<close>, \<open>null\<close>, missing) gives
  \<open>undefined\<close>.
\<close>

definition update_hash :: "(string \<Rightarrow> string) \<Rightarrow> jsval \<Rightarrow> failure + string option" where
  "update_hash bcrypt pw =
     (if js_truthy pw
      then (case hash_password bcrypt pw of Inl err \<Rightarrow> Inl err | Inr h \<Rightarrow> Inr (Some h))
      else Inr None)"

text \<open>
  Line 68, \<open>if (hashedPassword)\<close>: a hash is written only when it is a non-empty string.
\<close>

fun str_truthy :: "string option \<Rightarrow> bool" where
  "str_truthy None = False"
| "str_truthy (Some s) = (s \<noteq> [])"

text \<open>
  Lines 67 and 69: Mongoose drops the \<open>undefined\<close> keys of an update, so a field missing
  from the body keeps its stored value; \<open>null\<close> clears it; any other value is cast to
  the \<open>String\<close> path.
\<close>

fun set_field :: "jsval \<Rightarrow> string option \<Rightarrow> string option" where
  "set_field JUndef old = old"
| "set_field v old = cast_string v"

definition update_patch ::
  "jsval \<Rightarrow> jsval \<Rightarrow> jsval \<Rightarrow> string option \<Rightarrow> customer \<Rightarrow> customer" where
  "update_patch n e ph hashed c =
     (let c' = c\<lparr>name := set_field n (name c), email := set_field e (email c),
                 phone := set_field ph (phone c)\<rparr>
      in if str_truthy hashed then c'\<lparr>password := hashed\<rparr> else c')"

definition update :: "(string \<Rightarrow> string) \<Rightarrow> req_id \<Rightarrow> jsval \<Rightarrow> jsval \<Rightarrow> jsval \<Rightarrow> jsval \<Rightarrow>
    db \<Rightarrow> outcome" where
  "update bcrypt r n e pw ph d =
     (case update_hash bcrypt pw of
        Inl err \<Rightarrow> (Inl err, d)
      | Inr hashed \<Rightarrow>
          (case update_customer r (update_patch n e ph hashed) d of
             Inl err \<Rightarrow> (Inl err, d)
           | Inr (None, d') \<Rightarrow> (Inr (reply 200 JsonNull), d')
           | Inr (Some c, d') \<Rightarrow> (Inr (reply 200 (JsonCustomer c)), d')))"

text \<open>\<open>DELETE /customers/:id\<close>: 204 whether or not there was such a customer.\<close>

definition delete :: "req_id \<Rightarrow> db \<Rightarrow> outcome" where
  "delete r d =
     (case delete_customer r d of
        Inl e \<Rightarrow> (Inl e, d)
      | Inr d' \<Rightarrow> (Inr (reply 204 NoBody), d'))"

text \<open>\<open>GET /orders\<close>: every order with its customer's \<open>name\<close> and \<open>email\<close>.\<close>

definition list_orders :: "db \<Rightarrow> outcome" where
  "list_orders d = (Inr (reply 200 (JsonPopulated (map (populate d) (orders d)))), d)"

text \<open>\<open>GET /customers/:id/orders\<close>.\<close>

definition customer_orders :: "req_id \<Rightarrow> db \<Rightarrow> outcome" where
  "customer_orders r d =
     (case orders_of r d of
        Inl e \<Rightarrow> (Inl e, d)
      | Inr os \<Rightarrow> (Inr (reply 200 (JsonOrders os)), d))"

section \<open>Lemmas\<close>

subsection \<open>Create and read back\<close>

text \<open>C17: Creating a customer with a string password stores, under a fresh id, a customer whose password is the bcrypt hash of the password, never the plaintext field, whose other fields are cast to strings, with no discount and an empty wallet, and answers 201 with it.\<close>

theorem create_stores_hash:
  "create bcrypt n e (JStr p) ph d =
    (let c = \<lparr>cust_id = next_oid d, name = cast_string n, email = cast_string e,
              password = Some (bcrypt p), phone = cast_string ph, rate_discount = None, wallet = 0\<rparr>
     in (Inr (reply 201 (JsonCustomer c)),
         d\<lparr>next_oid := Suc (next_oid d), customers := coll_insert c (customers d)\<rparr>))"
  by (simp add: create_def hash_password_def alloc_oid_def new_customer_def insert_customer_def)

text \<open>C18: In a well-formed database a created customer is read back by its new id exactly as it was created.\<close>

theorem create_then_get:
  assumes wf: "db_wf d" and created: "create bcrypt n e (JStr p) ph d = (res, d')"
  shows "get (Oid (next_oid d)) d' =
    (Inr (reply 200 (JsonCustomer
       (new_customer (next_oid d) (cast_string n) (cast_string e) (Some (bcrypt p)) (cast_string ph)))), d')"
proof -
  let ?c = "new_customer (next_oid d) (cast_string n) (cast_string e) (Some (bcrypt p)) (cast_string ph)"
  from created have d': "d' = insert_customer ?c (d\<lparr>next_oid := Suc (next_oid d)\<rparr>)"
    by (simp add: create_def hash_password_def alloc_oid_def Let_def)
  from db_wf_fresh [OF wf] have "cust_id ?c \<notin> coll_ids cust_id (customers d)"
    by (simp add: new_customer_def)
  then have "coll_find cust_id (cust_id ?c) (coll_insert ?c (customers d)) = Some ?c"
    by (rule coll_find_insert_same)
  then show ?thesis
    by (simp add: get_def d' insert_customer_def find_customer_def new_customer_def)
qed

text \<open>Reading an id with no customer answers 200 with a JSON null body.\<close>

theorem get_absent:
  "coll_find cust_id i (customers d) = None \<Longrightarrow> get (Oid i) d = (Inr (reply 200 JsonNull), d)"
  by (simp add: get_def find_customer_def)

lemma create_bad_password:
  "\<not> is_str pw \<Longrightarrow> create bcrypt n e pw ph d = (Inl IllegalArguments, d)"
  by (cases pw) (simp_all add: create_def hash_password_def)

subsection \<open>Update\<close>

lemma update_patch_password:
  "password (update_patch n e ph hashed c) =
     (if str_truthy hashed then hashed else password c)"
  by (simp add: update_patch_def Let_def)

lemma update_patch_key [simp]: "cust_id (update_patch n e ph hashed c) = cust_id c"
  by (simp add: update_patch_def Let_def)

lemma update_fail: "update_hash bcrypt pw = Inl err \<Longrightarrow> update bcrypt r n e pw ph d = (Inl err, d)"
  by (simp add: update_def)

lemma update_db:
  "update_hash bcrypt pw = Inr hashed \<Longrightarrow>
   snd (update bcrypt r n e pw ph d) =
     (case r of Malformed \<Rightarrow> d
      | Oid i \<Rightarrow> d\<lparr>customers := coll_update cust_id i (update_patch n e ph hashed) (customers d)\<rparr>)"
  by (cases r) (simp_all add: update_def update_customer_def Let_def split: option.split)

lemma update_cases:
  "snd (update bcrypt r n e pw ph d) = d \<or>
   (\<exists>i hashed. r = Oid i \<and>
      snd (update bcrypt r n e pw ph d) =
        d\<lparr>customers := coll_update cust_id i (update_patch n e ph hashed) (customers d)\<rparr>)"
  by (cases "update_hash bcrypt pw") (auto simp: update_fail update_db split: req_id.split)

lemma update_bad_password:
  "js_truthy pw \<Longrightarrow> \<not> is_str pw \<Longrightarrow> update bcrypt r n e pw ph d = (Inl IllegalArguments, d)"
  by (cases pw) (simp_all add: update_def update_hash_def hash_password_def)

text \<open>C19: An update whose password is falsy (missing, null, empty, 0 or false) leaves every stored password hash as it was.\<close>

theorem update_keeps_password:
  assumes "\<not> js_truthy pw"
  shows "map password (customers (snd (update bcrypt r n e pw ph d))) = map password (customers d)"
proof -
  have "update_hash bcrypt pw = Inr None" using assms by (simp add: update_hash_def)
  then show ?thesis
    by (auto simp: update_db update_patch_password coll_update_field split: req_id.split)
qed

text \<open>C20: An update with a non-empty string password stores the hash of that password in the customer it names.\<close>

theorem update_sets_password:
  assumes found: "coll_find cust_id i (customers d) = Some c" and "p \<noteq> []" and "bcrypt p \<noteq> []"
  shows "coll_find cust_id i (customers (snd (update bcrypt (Oid i) n e (JStr p) ph d))) =
    Some (update_patch n e ph (Some (bcrypt p)) c) \<and>
    password (update_patch n e ph (Some (bcrypt p)) c) = Some (bcrypt p)"
proof -
  have "update_hash bcrypt (JStr p) = Inr (Some (bcrypt p))"
    using assms by (simp add: update_hash_def hash_password_def)
  then show ?thesis using assms by (simp add: update_db coll_find_update update_patch_password)
qed

text \<open>C40: An update sets each field the way the body gives it: a field sent as null is cleared, a field left out keeps its stored value, and a number is stored as its decimal string.\<close>

theorem update_field_values:
  assumes found: "coll_find cust_id i (customers d) = Some c"
  shows "coll_find cust_id i (customers (snd (update bcrypt (Oid i) JNull JUndef JUndef (JNum 5) d))) =
    Some (c\<lparr>name := None, phone := Some ''5''\<rparr>)"
proof -
  have "update_hash bcrypt JUndef = Inr None" by (simp add: update_hash_def)
  moreover have "num_to_string 5 = ''5''"
    by (simp add: num_to_string_def pos_to_string_def Let_def dec_scale_found strip_zeros.simps
        nat_digits.simps digit_char_def)
  ultimately show ?thesis
    using found by (simp add: update_db coll_find_update update_patch_def Let_def)
qed

subsection \<open>Delete\<close>

text \<open>Deleting an id with no customer still answers 204 and changes nothing.\<close>

theorem delete_absent:
  "coll_find cust_id i (customers d) = None \<Longrightarrow> delete (Oid i) d = (Inr (reply 204 NoBody), d)"
  by (simp add: delete_def delete_customer_def coll_find_None coll_delete_absent)

text \<open>C22: Deleting a customer keeps every order; its orders are then listed with a null customer.\<close>

theorem delete_no_cascade:
  "orders (snd (delete (Oid i) d)) = orders d \<and>
   map (populate (snd (delete (Oid i) d))) (filter (\<lambda>od. customer_id od = i) (orders d)) =
   map (\<lambda>od. (od, None)) (filter (\<lambda>od. customer_id od = i) (orders d))"
  by (simp add: delete_def delete_customer_def populate_def coll_find_delete)

text \<open>C28: After a purchase is answered 200 with its order, GET /customers/:id/orders lists that customer's orders as before with the new order at the end: the order is stored, and it references the customer who bought it.\<close>

theorem purchase_then_orders:
  assumes "purchase (Oid i) pname price now d = (Inr (reply 200 (JsonOrder od)), d')"
  shows "customer_id od = i \<and>
    customer_orders (Oid i) d' =
      (Inr (reply 200 (JsonOrders (filter (\<lambda>x. customer_id x = i) (orders d) @ [od]))), d')"
proof (cases "coll_find cust_id i (customers d)")
  case None
  with assms show ?thesis by (simp add: purchase_def not_found_def reply_def)
next
  case (Some c)
  have ci: "cust_id c = i" using Some by (rule coll_find_cust_id)
  show ?thesis
  proof (cases "Num (wallet c) < final_price (rate_discount c) price")
    case True
    with Some assms show ?thesis by (simp add: purchase_def insufficient_def reply_def)
  next
    case False
    with Some assms ci show ?thesis
      by (auto simp: purchase_def save_customer_found alloc_oid_def insert_order_def coll_insert_def
          customer_orders_def orders_of_def new_order_def reply_def Let_def
          split: sum.splits if_splits)
  qed
qed

section \<open>Concrete runs\<close>

theorem create_then_get_witness:
  "db_wf sample_db \<and>
   get (Oid 1) (snd (create rev (JStr ''Bob'') JNull (JStr ''pw'') (JNum 5) sample_db)) =
    (Inr (reply 200 (JsonCustomer (new_customer 1 (Some ''Bob'') None (Some ''wp'') (Some (num_to_string 5))))),
     snd (create rev (JStr ''Bob'') JNull (JStr ''pw'') (JNum 5) sample_db))"
  using create_then_get [OF sample_balance_facts(1), of rev "JStr ''Bob''" JNull "''pw''" "JNum 5"
      "fst (create rev (JStr ''Bob'') JNull (JStr ''pw'') (JNum 5) sample_db)"
      "snd (create rev (JStr ''Bob'') JNull (JStr ''pw'') (JNum 5) sample_db)"]
    sample_balance_facts(1)
  by (simp add: sample_db_def)

theorem get_absent_witness:
  "coll_find cust_id 5 (customers sample_db) = None \<and>
   get (Oid 5) sample_db = (Inr (reply 200 JsonNull), sample_db)"
  using get_absent [OF sample_absent] sample_absent by simp

theorem update_keeps_password_witness:
  "\<not> js_truthy (JStr '''') \<and>
   map password (customers (snd (update rev (Oid 0) (JStr ''Ann B'') JUndef (JStr '''') JUndef sample_db))) =
   [Some ''hash-of-secret'']"
  using update_keeps_password [of "JStr ''''" rev "Oid 0" "JStr ''Ann B''" JUndef JUndef sample_db]
  by (simp add: sample_simps)

theorem update_sets_password_witness:
  "coll_find cust_id 0 (customers sample_db) = Some sample_customer \<and> ''new'' \<noteq> [] \<and> rev ''new'' \<noteq> [] \<and>
   coll_find cust_id 0 (customers (snd (update rev (Oid 0) JUndef JUndef (JStr ''new'') JUndef sample_db))) =
    Some (update_patch JUndef JUndef JUndef (Some ''wen'') sample_customer) \<and>
   password (update_patch JUndef JUndef JUndef (Some ''wen'') sample_customer) = Some ''wen''"
  using update_sets_password [OF sample_found, of "''new''" rev JUndef JUndef JUndef]
    sample_found by simp

theorem update_field_values_witness:
  "coll_find cust_id 0 (customers sample_db) = Some sample_customer \<and>
   coll_find cust_id 0 (customers (snd (update rev (Oid 0) JNull JUndef JUndef (JNum 5) sample_db))) =
    Some (sample_customer\<lparr>name := None, phone := Some ''5''\<rparr>)"
  using update_field_values [OF sample_found, of rev] sample_found by simp

theorem delete_absent_witness:
  "coll_find cust_id 5 (customers sample_db) = None \<and>
   delete (Oid 5) sample_db = (Inr (reply 204 NoBody), sample_db)"
  using delete_absent [OF sample_absent] sample_absent by simp

theorem purchase_then_orders_witness:
  "purchase (Oid 0) (JStr ''book'') (JNum 100) 7 sample_db =
     (Inr (reply 200 (JsonOrder (new_order 1 0 (Some ''book'') 80 7))),
      \<lparr>customers = [sample_customer\<lparr>wallet := 20\<rparr>], orders = [new_order 1 0 (Some ''book'') 80 7],
       next_oid = 2\<rparr>) \<and>
   customer_orders (Oid 0)
     \<lparr>customers = [sample_customer\<lparr>wallet := 20\<rparr>], orders = [new_order 1 0 (Some ''book'') 80 7],
      next_oid = 2\<rparr> =
     (Inr (reply 200 (JsonOrders [new_order 1 0 (Some ''book'') 80 7])),
      \<lparr>customers = [sample_customer\<lparr>wallet := 20\<rparr>], orders = [new_order 1 0 (Some ''book'') 80 7],
       next_oid = 2\<rparr>)"
proof -
  have p: "purchase (Oid 0) (JStr ''book'') (JNum 100) 7 sample_db =
     (Inr (reply 200 (JsonOrder (new_order 1 0 (Some ''book'') 80 7))),
      \<lparr>customers = [sample_customer\<lparr>wallet := 20\<rparr>], orders = [new_order 1 0 (Some ''book'') 80 7],
       next_oid = 2\<rparr>)"
    by (simp add: purchase_def final_price_def sample_simps save_customer_def alloc_oid_def
        insert_order_def Let_def)
  show ?thesis using purchase_then_orders [OF p] p by (simp add: sample_simps)
qed

end
