(* ===== verification/App.thy ===== *)
theory App
  imports Customers
begin

text \<open>
  The Express application of \<open>src/index.js\<close> as a whole: the route table (lines
  16--141) as a datatype of requests and one dispatch function, requests served one
  after another (\<open>run\<close>), and the states reachable from an empty database.
  The lemmas lift the handlers' properties to every request: the database stays
  well-formed and every stored discount stays in \<open>[0, 100]\<close>; wallets stay
  non-negative as long as no top-up is negative; a customer's money changes only by
  its top-ups; a path id that is not an \<open>ObjectId\<close> leaves the request unanswered.
  Requests that fail are followed by the next one, as under Express 5, where a rejected
  handler promise becomes a 500 answer.
\<close>

section \<open>Routes\<close>

text \<open>One constructor per route, carrying the fields the handler reads.\<close>

datatype request =
    Home
  | CreateCustomer jsval jsval jsval jsval
  | ListCustomers
  | GetCustomer req_id
  | UpdateCustomer req_id jsval jsval jsval jsval
  | DeleteCustomer req_id
  | TopUp req_id jsval
  | SetDiscount req_id jsval
  | Purchase req_id jsval jsval
  | ListOrders
  | CustomerOrders req_id

text \<open>
  Dispatch: \<open>bcrypt\<close> is the hash of \<open>POST\<close> and \<open>PUT /customers\<close>, \<open>now\<close> the
  clock \<open>Date.now\<close> reads when an order is built.
\<close>

fun handle :: "(string \<Rightarrow> string) \<Rightarrow> int \<Rightarrow> request \<Rightarrow> db \<Rightarrow> outcome" where
  "handle bcrypt now Home d = home d"
| "handle bcrypt now (CreateCustomer n e pw ph) d = create bcrypt n e pw ph d"
| "handle bcrypt now ListCustomers d = list_customers d"
| "handle bcrypt now (GetCustomer r) d = get r d"
| "handle bcrypt now (UpdateCustomer r n e pw ph) d = update bcrypt r n e pw ph d"
| "handle bcrypt now (DeleteCustomer r) d = delete r d"
| "handle bcrypt now (TopUp r v) d = topup r v d"
| "handle bcrypt now (SetDiscount r v) d = discount r v d"
| "handle bcrypt now (Purchase r pn pr) d = purchase r pn pr now d"
| "handle bcrypt now ListOrders d = list_orders d"
| "handle bcrypt now (CustomerOrders r) d = customer_orders r d"

text \<open>Requests served one at a time, each with the time it arrives.\<close>

fun run :: "(string \<Rightarrow> string) \<Rightarrow> (request \<times> int) list \<Rightarrow> db \<Rightarrow> (failure + response) list \<times> db" where
  "run bcrypt [] d = ([], d)"
| "run bcrypt ((rq, now) # rqs) d =
     (let (out, d1) = handle bcrypt now rq d;
          (outs, d2) = run bcrypt rqs d1
      in (out # outs, d2))"

definition init_db :: db where
  "init_db = \<lparr>customers = [], orders = [], next_oid = 0\<rparr>"

section \<open>Classes of requests\<close>

text \<open>The path id a request carries, if any.\<close>

fun request_id :: "request \<Rightarrow> req_id option" where
  "request_id (GetCustomer r) = Some r"
| "request_id (UpdateCustomer r _ _ _ _) = Some r"
| "request_id (DeleteCustomer r) = Some r"
| "request_id (TopUp r _) = Some r"
| "request_id (SetDiscount r _) = Some r"
| "request_id (Purchase r _ _) = Some r"
| "request_id (CustomerOrders r) = Some r"
| "request_id _ = None"

text \<open>A request that cannot make a wallet negative: anything but a negative top-up.\<close>

fun request_ok :: "request \<Rightarrow> bool" where
  "request_ok (TopUp r v) = amount_ok v"
| "request_ok _ = True"

text \<open>Requests that may change a customer's balance: top-up, create, delete.\<close>

fun moves_money :: "request \<Rightarrow> bool" where
  "moves_money (TopUp _ _) = True"
| "moves_money (CreateCustomer _ _ _ _) = True"
| "moves_money (DeleteCustomer _) = True"
| "moves_money _ = False"

text \<open>
  A purchase whose price reads as \<open>Infinity\<close> or \<open>-Infinity\<close> makes the code store an
  infinite wallet (line 119), which the model stops with \<open>InfiniteNumber\<close>; the balance
  claim is made for the other requests.
\<close>

fun finite_price :: "request \<Rightarrow> bool" where
  "finite_price (Purchase _ _ pr) = (to_number pr \<noteq> PInf \<and> to_number pr \<noteq> NInf)"
| "finite_price _ = True"

text \<open>The customer a top-up or a discount writes to: the two requests that change one document only.\<close>

fun wallet_write :: "request \<Rightarrow> oid option" where
  "wallet_write (TopUp (Oid i) v) = Some i"
| "wallet_write (SetDiscount (Oid i) v) = Some i"
| "wallet_write _ = None"

section \<open>The interface table of the specification\<close>

text \<open>
  Section 6 of the specification lists, for each route, the status and the kind of body
  of every answer. \<open>body_of\<close> forgets the data of a body; \<open>route_table\<close> is the table,
  with the \<open>null\<close> body that a \<open>PUT\<close> of an absent id gets added to the update row.
\<close>

datatype body = BText | BCustomer | BCustomers | BOrder | BOrders | BPopulated | BNull | BNone

fun body_of :: "payload \<Rightarrow> body" where
  "body_of (Text _) = BText"
| "body_of (JsonCustomer _) = BCustomer"
| "body_of (JsonCustomers _) = BCustomers"
| "body_of (JsonOrder _) = BOrder"
| "body_of (JsonOrders _) = BOrders"
| "body_of (JsonPopulated _) = BPopulated"
| "body_of JsonNull = BNull"
| "body_of NoBody = BNone"

fun route_table :: "request \<Rightarrow> (nat \<times> body) list" where
  "route_table Home = [(200, BText)]"
| "route_table (CreateCustomer _ _ _ _) = [(201, BCustomer)]"
| "route_table ListCustomers = [(200, BCustomers)]"
| "route_table (GetCustomer _) = [(200, BCustomer), (200, BNull)]"
| "route_table (UpdateCustomer _ _ _ _ _) = [(200, BCustomer), (200, BNull)]"
| "route_table (DeleteCustomer _) = [(204, BNone)]"
| "route_table (TopUp _ _) = [(200, BCustomer), (404, BText)]"
| "route_table (SetDiscount _ _) = [(200, BCustomer), (404, BText), (400, BText)]"
| "route_table (Purchase _ _ _) = [(200, BOrder), (404, BText), (400, BText)]"
| "route_table ListOrders = [(200, BPopulated)]"
| "route_table (CustomerOrders _) = [(200, BOrders)]"

definition conforms :: "request \<Rightarrow> response \<Rightarrow> bool" where
  "conforms rq r \<longleftrightarrow> (status r, body_of (payload r)) \<in> set (route_table rq)"

text \<open>States reachable from the empty database by requests served one at a time.\<close>

inductive reachable :: "(string \<Rightarrow> string) \<Rightarrow> (request \<Rightarrow> bool) \<Rightarrow> db \<Rightarrow> bool"
  for bcrypt :: "string \<Rightarrow> string" and allowed :: "request \<Rightarrow> bool" where
  reach_init: "reachable bcrypt allowed init_db"
| reach_step: "reachable bcrypt allowed d \<Longrightarrow> allowed rq \<Longrightarrow>
    reachable bcrypt allowed (snd (handle bcrypt now rq d))"

section \<open>Lemmas\<close>

subsection \<open>Well-formedness\<close>

lemma db_wf_debit: "db_wf d \<Longrightarrow> db_wf (debit_db i c pname p now d)"
  by (auto simp: db_wf_def debit_db_def new_order_def store_simps)

lemma purchase_db_wf: "db_wf d \<Longrightarrow> db_wf (snd (purchase r pname price now d))"
  using purchase_cases [of r pname price now d] by (auto intro: db_wf_debit)

lemma topup_db_wf: "db_wf d \<Longrightarrow> db_wf (snd (topup r v d))"
  using topup_cases [of r v d] by (auto intro!: db_wf_customers_update)

lemma discount_db_wf: "db_wf d \<Longrightarrow> db_wf (snd (discount r v d))"
  using discount_cases [of r v d] by (auto intro!: db_wf_customers_update)

lemma create_db_wf:
  assumes wf: "db_wf d"
  shows "db_wf (snd (create bcrypt n e pw ph d))"
proof (cases "is_str pw")
  case False
  with wf show ?thesis by (simp add: create_bad_password)
next
  case True
  then obtain p where Some: "pw = JStr p" by (cases pw) simp_all
  let ?c = "new_customer (next_oid d) (cast_string n) (cast_string e) (Some (bcrypt p)) (cast_string ph)"
  have "db_wf (insert_customer ?c (d\<lparr>next_oid := Suc (next_oid d)\<rparr>))"
    by (rule db_wf_alloc_insert_customer [OF wf]) (simp_all add: alloc_oid_def new_customer_def)
  with Some show ?thesis by (simp add: create_def hash_password_def alloc_oid_def Let_def)
qed

lemma update_db_wf: "db_wf d \<Longrightarrow> db_wf (snd (update bcrypt r n e pw ph d))"
  using update_cases [of bcrypt r n e pw ph d] by (auto intro!: db_wf_customers_update)

lemma delete_db_wf: "db_wf d \<Longrightarrow> db_wf (snd (delete r d))"
  by (auto simp: delete_def intro: db_wf_delete_customer split: sum.split)

lemma customer_orders_db [simp]: "snd (customer_orders r d) = d"
  by (simp add: customer_orders_def split: sum.split)

lemma get_db [simp]: "snd (get r d) = d"
  by (simp add: get_def split: sum.split option.split)

lemmas handler_db_wf = purchase_db_wf topup_db_wf discount_db_wf create_db_wf update_db_wf
  delete_db_wf

subsection \<open>Discounts and wallets\<close>

lemma update_patch_money [simp]:
  "rate_discount (update_patch n e ph hashed c) = rate_discount c"
  "wallet (update_patch n e ph hashed c) = wallet c"
  by (simp_all add: update_patch_def Let_def)

lemma create_invariants:
  "rates_ok d \<Longrightarrow> rates_ok (snd (create bcrypt n e pw ph d))"
  "wallets_ok d \<Longrightarrow> wallets_ok (snd (create bcrypt n e pw ph d))"
  by (cases pw; simp add: create_def hash_password_def Let_def alloc_oid_def insert_customer_def
      rates_ok_def wallets_ok_def store_simps rate_ok_def new_customer_def)+

lemma update_invariants:
  "rates_ok d \<Longrightarrow> rates_ok (snd (update bcrypt r n e pw ph d))"
  "wallets_ok d \<Longrightarrow> wallets_ok (snd (update bcrypt r n e pw ph d))"
  using update_cases [of bcrypt r n e pw ph d]
  by (auto simp: rates_ok_def wallets_ok_def rate_ok_def intro!: coll_update_list_all)

lemma delete_invariants:
  "rates_ok d \<Longrightarrow> rates_ok (snd (delete r d))"
  "wallets_ok d \<Longrightarrow> wallets_ok (snd (delete r d))"
  by (auto simp: delete_def delete_customer_def rates_ok_def wallets_ok_def store_simps
      split: sum.split req_id.split)

lemmas handler_invariants = purchase_rates_ok topup_rates_ok discount_rates_ok
  purchase_wallets_ok discount_wallets_ok create_invariants update_invariants delete_invariants

lemma init_db_ok: "db_wf init_db" "rates_ok init_db" "wallets_ok init_db"
  by (simp_all add: init_db_def db_wf_def rates_ok_def wallets_ok_def coll_wf_def coll_ids_def)

text \<open>C4: In every database reachable from the empty one by requests served one at a time, without negative top-ups, identifiers are unique, every stored discount is null or within [0, 100], and every wallet is non-negative.\<close>

theorem reachable_invariants:
  "reachable bcrypt request_ok d \<Longrightarrow> db_wf d \<and> rates_ok d \<and> wallets_ok d"
proof (induction rule: reachable.induct)
  case reach_init
  then show ?case by (simp add: init_db_ok)
next
  case (reach_step d rq now)
  then show ?case
    by (cases rq) (simp_all add: handler_db_wf handler_invariants topup_wallets_ok home_def
        list_customers_def list_orders_def)
qed

subsection \<open>Balances\<close>

lemma balance_keep_wallet:
  "(\<And>c. wallet (f c) = wallet c) \<Longrightarrow> (\<And>c. cust_id (f c) = cust_id c) \<Longrightarrow>
   balance (d\<lparr>customers := coll_update cust_id i f (customers d)\<rparr>) j = balance d j"
  by (simp add: balance_def coll_find_update option.map_comp comp_def)

text \<open>C3: No request other than a top-up, a creation or a deletion, and no purchase at a price that reads as a finite number or NaN, changes any customer's balance, its wallet plus the prices of its orders: a purchase moves exactly the final price from the wallet to the new order.\<close>

theorem handle_balance:
  "\<not> moves_money rq \<Longrightarrow> finite_price rq \<Longrightarrow> balance (snd (handle bcrypt now rq d)) j = balance d j"
proof (cases rq)
  case (UpdateCustomer r n e pw ph)
  then show ?thesis using update_cases [of bcrypt r n e pw ph d] by (auto simp: balance_keep_wallet)
next
  case (SetDiscount r v)
  then show ?thesis using discount_cases [of r v d] by (auto simp: balance_keep_wallet)
next
  case (Purchase r pn pr)
  then show ?thesis by (simp add: purchase_balance)
qed (simp_all add: home_def list_customers_def list_orders_def)

subsection \<open>Requests on different customers\<close>

text \<open>A top-up or a discount reads one customer and rewrites that document only.\<close>

lemma wallet_local:
  assumes "wallet_write rq = Some i"
    and same: "coll_find cust_id i (customers d) = coll_find cust_id i (customers e)"
  shows "\<exists>f. (\<forall>x. cust_id (f x) = cust_id x) \<and>
    handle bcrypt now rq d = (fst (handle bcrypt now rq e), d\<lparr>customers := coll_update cust_id i f (customers d)\<rparr>) \<and>
    snd (handle bcrypt now rq e) = e\<lparr>customers := coll_update cust_id i f (customers e)\<rparr>"
proof -
  have keep: "\<exists>f. (\<forall>x. cust_id (f x) = cust_id x) \<and> d = d\<lparr>customers := coll_update cust_id i f (customers d)\<rparr> \<and>
      e = e\<lparr>customers := coll_update cust_id i f (customers e)\<rparr>"
    by (rule exI [of _ "\<lambda>x. x"]) (simp add: coll_update_id)
  show ?thesis
  proof (cases "coll_find cust_id i (customers d)")
    case None
    with assms keep show ?thesis
      by (cases "(rq)" rule: wallet_write.cases) (simp_all add: topup_def discount_def)
  next
    case (Some c)
    have ci: "cust_id c = i" using Some by (rule coll_find_cust_id)
    from assms(1) consider (t) v where "rq = TopUp (Oid i) v" | (s) v where "rq = SetDiscount (Oid i) v"
      by (cases rq rule: wallet_write.cases) auto
    then show ?thesis
    proof cases
      case t
      show ?thesis
      proof (cases "cast_prim (add_to_number (wallet c) v)")
        case Inl
        with t Some same keep show ?thesis by (simp add: topup_def)
      next
        case (Inr w)
        show ?thesis
          by (rule exI [of _ "\<lambda>x. x\<lparr>wallet := w\<rparr>"])
            (use t Some same ci Inr in \<open>simp add: topup_def save_customer_found\<close>)
      qed
    next
      case s
      show ?thesis
      proof (cases "\<not> (to_number v < Num 0 \<or> Num 100 < to_number v)")
        case ok: True
        show ?thesis
        proof (cases "cast_number v")
          case Inl
          with s ok Some same keep show ?thesis by (simp add: discount_def)
        next
          case (Inr rd)
          show ?thesis
            by (rule exI [of _ "\<lambda>x. x\<lparr>rate_discount := rd\<rparr>"])
              (use s ok Some same ci Inr in \<open>simp add: discount_def save_customer_found\<close>)
        qed
      qed (use s Some same keep in \<open>simp add: discount_def\<close>)
    qed
  qed
qed

text \<open>C32: A top-up or a discount on one customer and a top-up or a discount on another commute when served one after the other: the second is answered as if the first had not run, and both orders leave the same database.\<close>

theorem wallet_requests_commute:
  assumes "wallet_write rq1 = Some i" "wallet_write rq2 = Some j" "i \<noteq> j"
  shows "fst (handle bcrypt now rq2 (snd (handle bcrypt now rq1 d))) = fst (handle bcrypt now rq2 d) \<and>
    snd (handle bcrypt now rq2 (snd (handle bcrypt now rq1 d))) =
    snd (handle bcrypt now rq1 (snd (handle bcrypt now rq2 d)))"
proof -
  let ?d1 = "snd (handle bcrypt now rq1 d)" and ?d2 = "snd (handle bcrypt now rq2 d)"
  obtain f0 where f0: "\<forall>x. cust_id (f0 x) = cust_id x"
    and "?d1 = d\<lparr>customers := coll_update cust_id i f0 (customers d)\<rparr>"
    using wallet_local [OF assms(1) refl, where d = d and bcrypt = bcrypt and now = now] by auto
  then have j1: "coll_find cust_id j (customers ?d1) = coll_find cust_id j (customers d)"
    using assms(3) by (simp add: coll_find_update)
  obtain g0 where g0: "\<forall>x. cust_id (g0 x) = cust_id x"
    and "?d2 = d\<lparr>customers := coll_update cust_id j g0 (customers d)\<rparr>"
    using wallet_local [OF assms(2) refl, where d = d and bcrypt = bcrypt and now = now] by auto
  then have i2: "coll_find cust_id i (customers d) = coll_find cust_id i (customers ?d2)"
    using assms(3) by (simp add: coll_find_update)
  obtain f where f: "\<forall>x. cust_id (f x) = cust_id x"
    and h1: "?d1 = d\<lparr>customers := coll_update cust_id i f (customers d)\<rparr>"
    and h1': "snd (handle bcrypt now rq1 ?d2) = ?d2\<lparr>customers := coll_update cust_id i f (customers ?d2)\<rparr>"
    using wallet_local [OF assms(1) i2, where bcrypt = bcrypt and now = now] by auto
  obtain g where g: "\<forall>x. cust_id (g x) = cust_id x"
    and h2: "handle bcrypt now rq2 ?d1 =
      (fst (handle bcrypt now rq2 d), ?d1\<lparr>customers := coll_update cust_id j g (customers ?d1)\<rparr>)"
    and h2': "?d2 = d\<lparr>customers := coll_update cust_id j g (customers d)\<rparr>"
    using wallet_local [OF assms(2) j1, where bcrypt = bcrypt and now = now] by auto
  show ?thesis using h1 h1' h2 h2' f g assms(3) by (simp add: coll_update_commute)
qed

subsection \<open>Path ids that are not ObjectIds\<close>

text \<open>C37: Every answer a handler sends has a status and a kind of body that the interface table of the specification lists for its route: 201 with the customer for a creation, 204 with no body for a deletion, 200, 400 or 404 with the documented bodies for the wallet routes, and 200 with the resource for the reads.\<close>

theorem handle_conforms:
  assumes "fst (handle bcrypt now rq d) = Inr r"
  shows "conforms rq r"
  using assms
proof (cases rq)
  case (CreateCustomer n e pw ph)
  with assms show ?thesis
    by (cases "hash_password bcrypt pw")
      (auto simp: conforms_def create_def reply_def alloc_oid_def Let_def)
next
  case (UpdateCustomer i n e pw ph)
  with assms show ?thesis
    by (cases "update_hash bcrypt pw")
      (auto simp: conforms_def update_def reply_def split: sum.splits option.splits prod.splits)
qed (auto simp: conforms_def home_def list_customers_def get_def
      delete_def topup_def discount_def purchase_def list_orders_def customer_orders_def reply_def
      not_found_def invalid_rate_def insufficient_def Let_def
      split: sum.splits option.splits if_splits prod.splits)

text \<open>C11: A request whose path id is not an ObjectId is never answered 404: the query rejects with a CastError and the database is unchanged. The one earlier rejection is PUT's: a truthy password that is not a string makes bcrypt.hash reject with its argument error before the query runs.\<close>

theorem malformed_id_unanswered:
  assumes m: "request_id rq = Some Malformed"
  shows "handle bcrypt now rq d =
     (Inl (case rq of UpdateCustomer _ _ _ pw _ \<Rightarrow>
             if js_truthy pw \<and> \<not> is_str pw then IllegalArguments else CastError
           | _ \<Rightarrow> CastError), d)"
  using m
proof (cases rq)
  case (UpdateCustomer r n e pw ph)
  with m have "r = Malformed" by simp
  with UpdateCustomer show ?thesis
    by (cases pw) (auto simp: update_def update_hash_def hash_password_def update_customer_def)
qed (simp_all add: get_def delete_def delete_customer_def topup_def discount_def purchase_def
    customer_orders_def orders_of_def Let_def)

subsection \<open>Negative top-ups\<close>

text \<open>
  The top-up handler accepts any number, so when negative top-ups are allowed a wallet
  becomes negative in two requests: create a customer, top it up by \<open>-5\<close>.
\<close>

text \<open>C12: Because a top-up accepts any number, a customer's wallet becomes negative after two requests, a creation and a top-up of -5.\<close>

theorem negative_topup_reachable:
  "\<exists>d. reachable bcrypt (\<lambda>_. True) d \<and> \<not> wallets_ok d"
proof -
  let ?d1 = "snd (handle bcrypt 0 (CreateCustomer JUndef JUndef (JStr ''pw'') JUndef) init_db)"
  let ?d2 = "snd (handle bcrypt 0 (TopUp (Oid 0) (JNum (-5))) ?d1)"
  have "reachable bcrypt (\<lambda>_. True) ?d2"
    by (intro reachable.reach_step reachable.reach_init TrueI)
  moreover have "\<not> wallets_ok ?d2"
    by (simp add: init_db_def create_def hash_password_def alloc_oid_def insert_customer_def topup_def
        find_customer_def save_customer_def coll_find_def coll_insert_def coll_ids_def
        coll_update_def new_customer_def wallets_ok_def Let_def)
  ultimately show ?thesis by blast
qed

section \<open>Concrete runs\<close>

theorem reachable_invariants_witness:
  "reachable rev request_ok (snd (handle rev 0 (CreateCustomer JUndef JUndef (JStr ''pw'') JUndef) init_db)) \<and>
   db_wf (snd (handle rev 0 (CreateCustomer JUndef JUndef (JStr ''pw'') JUndef) init_db))"
proof -
  have r: "reachable rev request_ok
      (snd (handle rev 0 (CreateCustomer JUndef JUndef (JStr ''pw'') JUndef) init_db))"
    by (intro reachable.reach_step reachable.reach_init) simp
  show ?thesis using reachable_invariants [OF r] r by simp
qed

theorem handle_balance_witness:
  "\<not> moves_money (Purchase (Oid 0) (JStr ''book'') (JNum 100)) \<and>
   finite_price (Purchase (Oid 0) (JStr ''book'') (JNum 100)) \<and>
   balance (snd (handle rev 7 (Purchase (Oid 0) (JStr ''book'') (JNum 100)) sample_db)) 0 = Some 100"
proof -
  have "balance sample_db 0 = Some 100"
    by (simp add: balance_def spent_def sample_simps)
  then show ?thesis
    using handle_balance [of "Purchase (Oid 0) (JStr ''book'') (JNum 100)" rev 7 sample_db 0]
    by simp
qed

theorem handle_conforms_witness:
  "fst (handle rev 1 (Purchase (Oid 0) (JStr ''book'') (JNum 1000)) sample_db) = Inr insufficient \<and>
   conforms (Purchase (Oid 0) (JStr ''book'') (JNum 1000)) insufficient"
proof -
  have out: "fst (handle rev 1 (Purchase (Oid 0) (JStr ''book'') (JNum 1000)) sample_db) = Inr insufficient"
    by (simp add: purchase_def final_price_def sample_simps)
  show ?thesis using handle_conforms [OF out] out by simp
qed

theorem malformed_id_unanswered_witness:
  "request_id (TopUp Malformed (JNum 10)) = Some Malformed \<and>
   handle rev 7 (TopUp Malformed (JNum 10)) sample_db = (Inl CastError, sample_db)"
  using malformed_id_unanswered [of "TopUp Malformed (JNum 10)" rev 7 sample_db] by simp

theorem wallet_requests_commute_witness:
  "wallet_write (TopUp (Oid 0) (JNum 5)) = Some 0 \<and> wallet_write (SetDiscount (Oid 1) (JNum 10)) = Some 1 \<and>
   (0::nat) \<noteq> 1 \<and>
   fst (handle rev 7 (SetDiscount (Oid 1) (JNum 10))
     (snd (handle rev 7 (TopUp (Oid 0) (JNum 5)) sample_db))) =
   fst (handle rev 7 (SetDiscount (Oid 1) (JNum 10)) sample_db) \<and>
   snd (handle rev 7 (SetDiscount (Oid 1) (JNum 10)) (snd (handle rev 7 (TopUp (Oid 0) (JNum 5)) sample_db))) =
   snd (handle rev 7 (TopUp (Oid 0) (JNum 5)) (snd (handle rev 7 (SetDiscount (Oid 1) (JNum 10)) sample_db)))"
  using wallet_requests_commute [of "TopUp (Oid 0) (JNum 5)" 0 "SetDiscount (Oid 1) (JNum 10)" 1 rev 7 sample_db]
  by simp

end
