(* ===== verification/Concurrency.thy ===== *)
theory Concurrency
  imports App
begin

text \<open>
  Concurrent requests. Node runs one handler at a time, but a handler gives up control
  at every \<open>await\<close>, and MongoDB applies the reads and writes of different requests in
  any order. Between two \<open>await\<close>s a handler runs without interruption, so the
  database events of a request are atomic steps: the \<open>findById\<close> read, then a \<open>save\<close>
  write computed from what was read, then (for a purchase) the insert of the order.
  A request in flight is a process (\<open>proc\<close>) that remembers what its handler holds
  between two \<open>await\<close>s; \<open>proc_step\<close> runs one segment of \<open>src/index.js\<close>;
  \<open>conc_step\<close> lets any unfinished process take its next step, as the parallel
  composition of the Owicki-Gries semantics does. Requests with a single store call
  (create, read, update, delete, listings) are one step, the \<open>handle\<close> of \<open>App\<close>.

  The lemmas: a process run alone computes what \<open>handle\<close> computes (the sequential
  model is the special case of no interleaving); every schedule ends, since each step
  lowers the work left; well-formedness, discount range and, without negative top-ups,
  non-negative wallets hold in every interleaving; and two purchases that read the same
  wallet both succeed while only one debit remains (the lost update of section 5 of
  the specification).
\<close>

section \<open>Processes\<close>

datatype proc =
    Ready request int
  | TopupLoaded customer jsval
  | DiscountLoaded customer jsval
  | PurchaseLoaded customer jsval jsval int
  | PurchaseSaved customer jsval jsnum int
  | Finished "failure + response"

text \<open>
  One segment of a handler. The first segment of top-up, discount and purchase is the
  \<open>findById\<close> read (lines 82, 93, 108) and the early returns after it; the second
  computes from the customer read and saves (lines 84--85, 96--101, 111--119); the
  third segment of a purchase builds and saves the order (lines 121--128).
\<close>

fun proc_step :: "(string \<Rightarrow> string) \<Rightarrow> proc \<Rightarrow> db \<Rightarrow> proc \<times> db" where
  "proc_step bcrypt (Ready (TopUp r v) now) d =
     (case find_customer r d of
        Inl e \<Rightarrow> (Finished (Inl e), d)
      | Inr None \<Rightarrow> (Finished (Inr not_found), d)
      | Inr (Some c) \<Rightarrow> (TopupLoaded c v, d))"
| "proc_step bcrypt (Ready (SetDiscount r v) now) d =
     (case find_customer r d of
        Inl e \<Rightarrow> (Finished (Inl e), d)
      | Inr None \<Rightarrow> (Finished (Inr not_found), d)
      | Inr (Some c) \<Rightarrow> (DiscountLoaded c v, d))"
| "proc_step bcrypt (Ready (Purchase r pname price) now) d =
     (case find_customer r d of
        Inl e \<Rightarrow> (Finished (Inl e), d)
      | Inr None \<Rightarrow> (Finished (Inr not_found), d)
      | Inr (Some c) \<Rightarrow> (PurchaseLoaded c pname price now, d))"
| "proc_step bcrypt (Ready rq now) d =
     (let (out, d') = handle bcrypt now rq d in (Finished out, d'))"
| "proc_step bcrypt (TopupLoaded c v) d =
     (case cast_prim (add_to_number (wallet c) v) of
        Inl e \<Rightarrow> (Finished (Inl e), d)
      | Inr w \<Rightarrow>
          (case save_customer (cust_id c) (\<lambda>x. x\<lparr>wallet := w\<rparr>) d of
             Inl e \<Rightarrow> (Finished (Inl e), d)
           | Inr d' \<Rightarrow> (Finished (Inr (reply 200 (JsonCustomer (c\<lparr>wallet := w\<rparr>)))), d')))"
| "proc_step bcrypt (DiscountLoaded c rate) d =
     (if to_number rate < Num 0 \<or> Num 100 < to_number rate
      then (Finished (Inr invalid_rate), d)
      else
        (case cast_number rate of
           Inl e \<Rightarrow> (Finished (Inl e), d)
         | Inr rd \<Rightarrow>
             (case save_customer (cust_id c) (\<lambda>x. x\<lparr>rate_discount := rd\<rparr>) d of
                Inl e \<Rightarrow> (Finished (Inl e), d)
              | Inr d' \<Rightarrow> (Finished (Inr (reply 200 (JsonCustomer (c\<lparr>rate_discount := rd\<rparr>)))), d'))))"
| "proc_step bcrypt (PurchaseLoaded c pname price now) d =
     (let fp = final_price (rate_discount c) price
      in if Num (wallet c) < fp then (Finished (Inr insufficient), d)
         else
           (case cast_num (Num (wallet c) - fp) of
              Inl e \<Rightarrow> (Finished (Inl e), d)
            | Inr w \<Rightarrow>
                (case save_customer (cust_id c) (\<lambda>x. x\<lparr>wallet := w\<rparr>) d of
                   Inl e \<Rightarrow> (Finished (Inl e), d)
                 | Inr d1 \<Rightarrow> (PurchaseSaved c pname fp now, d1))))"
| "proc_step bcrypt (PurchaseSaved c pname fp now) d =
     (let (i, d2) = alloc_oid d
      in case cast_num fp of
           Inl e \<Rightarrow> (Finished (Inl e), d2)
         | Inr p \<Rightarrow>
             (let od = new_order i (cust_id c) (cast_string pname) p now
              in (Finished (Inr (reply 200 (JsonOrder od))), insert_order od d2)))"
| "proc_step bcrypt (Finished out) d = (Finished out, d)"

fun finished :: "proc \<Rightarrow> bool" where
  "finished (Finished _) = True"
| "finished _ = False"

text \<open>A process run alone for \<open>n\<close> steps.\<close>

fun proc_steps :: "(string \<Rightarrow> string) \<Rightarrow> nat \<Rightarrow> proc \<Rightarrow> db \<Rightarrow> proc \<times> db" where
  "proc_steps bcrypt 0 p d = (p, d)"
| "proc_steps bcrypt (Suc n) p d = (let (p', d') = proc_step bcrypt p d in proc_steps bcrypt n p' d')"

section \<open>Interleaving\<close>

text \<open>
  The state of the server: the requests in flight and the database. Any unfinished
  request may take its next step.
\<close>

type_synonym server = "proc list \<times> db"

inductive conc_step :: "(string \<Rightarrow> string) \<Rightarrow> server \<Rightarrow> server \<Rightarrow> bool" for bcrypt where
  step: "i < length ps \<Longrightarrow> \<not> finished (ps ! i) \<Longrightarrow> proc_step bcrypt (ps ! i) d = (p', d') \<Longrightarrow>
    conc_step bcrypt (ps, d) (ps[i := p'], d')"

text \<open>Steps left before a process finishes, and before all of a server's do.\<close>

fun work :: "proc \<Rightarrow> nat" where
  "work (Ready (TopUp _ _) _) = 2"
| "work (Ready (SetDiscount _ _) _) = 2"
| "work (Ready (Purchase _ _ _) _) = 3"
| "work (Ready _ _) = 1"
| "work (TopupLoaded _ _) = 1"
| "work (DiscountLoaded _ _) = 1"
| "work (PurchaseLoaded _ _ _ _) = 2"
| "work (PurchaseSaved _ _ _ _) = 1"
| "work (Finished _) = 0"

definition server_work :: "server \<Rightarrow> nat" where
  "server_work s = sum_list (map work (fst s))"

section \<open>Invariants under interleaving\<close>

text \<open>
  What a process holds must be as safe as the database it came from: a loaded top-up
  holds a non-negative wallet and an amount that is not negative. A purchase holds no
  condition: the balance check it makes before its save bounds what it writes.
\<close>

fun proc_ok :: "proc \<Rightarrow> bool" where
  "proc_ok (Ready rq now) = request_ok rq"
| "proc_ok (TopupLoaded c v) = (0 \<le> wallet c \<and> amount_ok v)"
| "proc_ok _ = True"

definition db_ok :: "db \<Rightarrow> bool" where
  "db_ok d \<longleftrightarrow> db_wf d \<and> rates_ok d \<and> wallets_ok d"

definition server_ok :: "server \<Rightarrow> bool" where
  "server_ok s \<longleftrightarrow> db_ok (snd s) \<and> list_all proc_ok (fst s)"

section \<open>Lemmas\<close>

lemma proc_steps_finished: "proc_steps bcrypt n (Finished out) d = (Finished out, d)"
  by (induction n) simp_all

lemma proc_alone_topup:
  "proc_steps bcrypt 2 (Ready (TopUp r v) now) d = (Finished (fst (topup r v d)), snd (topup r v d))"
  by (simp add: numeral_2_eq_2 topup_def proc_steps_finished split: sum.split option.split)

lemma proc_alone_discount:
  "proc_steps bcrypt 2 (Ready (SetDiscount r v) now) d = (Finished (fst (discount r v d)), snd (discount r v d))"
  by (simp add: numeral_2_eq_2 discount_def proc_steps_finished split: sum.split option.split)

lemma proc_alone_purchase:
  "proc_steps bcrypt 3 (Ready (Purchase r pn pr) now) d =
     (Finished (fst (purchase r pn pr now d)), snd (purchase r pn pr now d))"
  by (simp add: numeral_3_eq_3 purchase_def proc_steps_finished Let_def
      split: sum.split option.split prod.split)

lemma proc_alone_handle:
  "proc_steps bcrypt (work (Ready rq now)) (Ready rq now) d =
     (Finished (fst (handle bcrypt now rq d)), snd (handle bcrypt now rq d))"
  by (cases rq) (simp_all add: proc_alone_topup proc_alone_discount proc_alone_purchase
      case_prod_beta)

text \<open>A request whose steps are not interleaved with any other computes exactly what the sequential handler computes: the same answer or failure and the same database.\<close>

theorem proc_alone:
  "proc_steps bcrypt (work (Ready rq now)) (Ready rq now) d =
     (Finished (fst (handle bcrypt now rq d)), snd (handle bcrypt now rq d))"
  by (cases rq) (simp_all add: numeral_2_eq_2 numeral_3_eq_3 topup_def discount_def purchase_def
      Let_def case_prod_beta proc_steps_finished split: sum.split option.split prod.split)

lemma proc_step_work: "\<not> finished p \<Longrightarrow> work (fst (proc_step bcrypt p d)) < work p"
proof (cases p)
  case (Ready rq now)
  then show ?thesis by (cases rq) (auto simp: case_prod_beta split: sum.split option.split)
qed (auto simp: Let_def case_prod_beta split: sum.split option.split)

lemma sum_list_map_update:
  "i < length xs \<Longrightarrow> sum_list (map f (xs[i := x])) + f (xs ! i) = sum_list (map f xs) + (f x :: nat)"
  by (induction xs arbitrary: i) (auto split: nat.split)

lemma conc_step_work: "conc_step bcrypt s s' \<Longrightarrow> server_work s' < server_work s"
proof (induction rule: conc_step.induct)
  case (step i ps d p' d')
  then have "work p' < work (ps ! i)"
    using proc_step_work [of "ps ! i" bcrypt d] by simp
  with step.hyps(1) show ?case
    using sum_list_map_update [of i ps work p'] by (simp add: server_work_def)
qed

lemma find_customer_in:
  "find_customer r d = Inr (Some c) \<Longrightarrow> c \<in> set (customers d)"
  by (auto simp: find_customer_def split: sum.splits dest: coll_find_Some)

lemma save_customer_Inr:
  "save_customer i f d = Inr d' \<Longrightarrow> d' = d\<lparr>customers := coll_update cust_id i f (customers d)\<rparr>"
  by (simp add: save_customer_def split: if_splits)

lemma db_ok_update:
  assumes "db_ok d" and "\<And>c. cust_id (f c) = cust_id c"
    and "\<And>c. rate_ok c \<Longrightarrow> rate_ok (f c)" and "\<And>c. 0 \<le> wallet c \<Longrightarrow> 0 \<le> wallet (f c)"
  shows "db_ok (d\<lparr>customers := coll_update cust_id i f (customers d)\<rparr>)"
  using assms by (auto simp: db_ok_def rates_ok_def wallets_ok_def intro: db_wf_customers_update
      intro!: coll_update_list_all)

lemma handle_db_ok:
  "request_ok rq \<Longrightarrow> db_ok d \<Longrightarrow> db_ok (snd (handle bcrypt now rq d))"
  by (cases rq) (simp_all add: db_ok_def handler_db_wf handler_invariants topup_wallets_ok
      home_def list_customers_def list_orders_def)

lemma proc_step_ok:
  assumes ok: "proc_ok p" "db_ok d" and st: "proc_step bcrypt p d = (p', d')"
  shows "proc_ok p' \<and> db_ok d'"
proof (cases p)
  case (Ready rq now)
  show ?thesis
  proof (cases rq)
    case (TopUp r v)
    with ok Ready st show ?thesis
      by (auto simp: db_ok_def wallets_ok_def list_all_iff dest!: find_customer_in
          split: sum.splits option.splits)
  next
    case (SetDiscount r v)
    with ok Ready st show ?thesis by (auto split: sum.splits option.splits)
  next
    case (Purchase r pn pr)
    with ok Ready st show ?thesis by (auto split: sum.splits option.splits)
  qed (use ok Ready st handle_db_ok [of rq d bcrypt now] in \<open>auto simp: case_prod_beta\<close>)
next
  case (TopupLoaded c v)
  with ok have "0 \<le> wallet c" "amount_ok v" by simp_all
  with TopupLoaded ok st show ?thesis
    using amount_ok_cast [of "wallet c" v]
    by (auto simp: rate_ok_def split: sum.splits dest!: save_customer_Inr intro!: db_ok_update)
next
  case (DiscountLoaded c v)
  with ok st show ?thesis
    by (auto simp: rate_ok_def cast_number_in_range split: sum.splits if_splits
        dest!: save_customer_Inr intro!: db_ok_update)
next
  case (PurchaseLoaded c pn pr now)
  with ok st show ?thesis
    by (cases "final_price (rate_discount c) pr")
      (auto simp: Let_def rate_ok_def not_less split: sum.splits if_splits
        dest!: save_customer_Inr intro!: db_ok_update)
next
  case (PurchaseSaved c pn fp now)
  with ok st show ?thesis
    by (auto simp: Let_def alloc_oid_def db_ok_def rates_ok_def wallets_ok_def insert_order_def
        new_order_def db_wf_def store_simps split: sum.splits)
qed (use ok st in auto)


lemma conc_step_ok: "conc_step bcrypt s s' \<Longrightarrow> server_ok s \<Longrightarrow> server_ok s'"
proof (induction rule: conc_step.induct)
  case (step i ps d p' d')
  then have "proc_ok (ps ! i)" "db_ok d" by (auto simp: server_ok_def list_all_length)
  then have "proc_ok p' \<and> db_ok d'" using step.hyps(3) by (rule proc_step_ok)
  with step show ?case by (auto simp: server_ok_def list_all_length nth_list_update)
qed

text \<open>C25: In every interleaving of requests without negative top-ups, starting from a well-formed database with discounts in range and non-negative wallets, the database stays well-formed, discounts stay in [0, 100], and no wallet becomes negative: a lost update loses money but never overdraws.\<close>

theorem conc_invariants:
  assumes "(conc_step bcrypt)\<^sup>*\<^sup>* s0 s" and "server_ok s0"
  shows "db_wf (snd s) \<and> rates_ok (snd s) \<and> wallets_ok (snd s)"
proof -
  from assms have "server_ok s"
    by (induction rule: rtranclp_induct) (auto intro: conc_step_ok)
  then show ?thesis by (simp add: server_ok_def db_ok_def)
qed

text \<open>While some request in flight is unfinished, the server can take a step: no set of requests deadlocks.\<close>

theorem conc_progress:
  assumes "\<not> list_all finished ps"
  shows "\<exists>s'. conc_step bcrypt (ps, d) s'"
proof -
  from assms obtain i where "i < length ps" "\<not> finished (ps ! i)"
    by (auto simp: list_all_length)
  then have "conc_step bcrypt (ps, d)
      (ps[i := fst (proc_step bcrypt (ps ! i) d)], snd (proc_step bcrypt (ps ! i) d))"
    by (intro conc_step.step) simp_all
  then show ?thesis by blast
qed

text \<open>No schedule of the concurrent server runs forever: every step lowers the number of steps the requests in flight still have to take.\<close>

theorem conc_terminates: "wf {(s', s). conc_step bcrypt s s'}"
proof (rule wf_subset [OF wf_measure])
  show "{(s', s). conc_step bcrypt s s'} \<subseteq> measure server_work"
    by (auto dest: conc_step_work)
qed

text \<open>C24: Two purchases of the same customer that both read the wallet before either saves both succeed: with 100 in the wallet and two purchases at the final price 80, both are answered 200, two orders of 80 are stored and the wallet ends at 20, so the customer's balance grows from 100 to 180; served one after another, the second purchase is answered 400.\<close>

theorem lost_update:
  "(conc_step bcrypt)\<^sup>*\<^sup>*
     ([Ready (Purchase (Oid 0) (JStr ''book'') (JNum 100)) 1,
       Ready (Purchase (Oid 0) (JStr ''pen'') (JNum 100)) 2], sample_db)
     ([Finished (Inr (reply 200 (JsonOrder (new_order 1 0 (Some ''book'') 80 1)))),
       Finished (Inr (reply 200 (JsonOrder (new_order 2 0 (Some ''pen'') 80 2))))],
      \<lparr>customers = [sample_customer\<lparr>wallet := 20\<rparr>],
       orders = [new_order 1 0 (Some ''book'') 80 1, new_order 2 0 (Some ''pen'') 80 2],
       next_oid = 3\<rparr>) \<and>
   balance sample_db 0 = Some 100 \<and>
   balance \<lparr>customers = [sample_customer\<lparr>wallet := 20\<rparr>],
       orders = [new_order 1 0 (Some ''book'') 80 1, new_order 2 0 (Some ''pen'') 80 2],
       next_oid = 3\<rparr> 0 = Some 180 \<and>
   fst (run bcrypt [(Purchase (Oid 0) (JStr ''book'') (JNum 100), 1),
                    (Purchase (Oid 0) (JStr ''pen'') (JNum 100), 2)] sample_db) =
     [Inr (reply 200 (JsonOrder (new_order 1 0 (Some ''book'') 80 1))), Inr insufficient]"
proof -
  let ?P1 = "Ready (Purchase (Oid 0) (JStr ''book'') (JNum 100)) 1"
  let ?P2 = "Ready (Purchase (Oid 0) (JStr ''pen'') (JNum 100)) 2"
  let ?L1 = "PurchaseLoaded sample_customer (JStr ''book'') (JNum 100) 1"
  let ?L2 = "PurchaseLoaded sample_customer (JStr ''pen'') (JNum 100) 2"
  let ?S1 = "PurchaseSaved sample_customer (JStr ''book'') (Num 80) 1"
  let ?S2 = "PurchaseSaved sample_customer (JStr ''pen'') (Num 80) 2"
  let ?o1 = "new_order 1 0 (Some ''book'') 80 1"
  let ?o2 = "new_order 2 0 (Some ''pen'') 80 2"
  let ?F1 = "Finished (Inr (reply 200 (JsonOrder ?o1)))"
  let ?F2 = "Finished (Inr (reply 200 (JsonOrder ?o2)))"
  let ?d1 = "sample_db\<lparr>customers := [sample_customer\<lparr>wallet := 20\<rparr>]\<rparr>"
  let ?d2 = "\<lparr>customers = [sample_customer\<lparr>wallet := 20\<rparr>], orders = [?o1], next_oid = 2\<rparr>"
  let ?d3 = "\<lparr>customers = [sample_customer\<lparr>wallet := 20\<rparr>], orders = [?o1, ?o2], next_oid = 3\<rparr>"
  have price: "final_price (Some 20) (JNum 100) = Num 80" by (simp add: final_price_def)
  have 1: "conc_step bcrypt ([?P1, ?P2], sample_db) ([?L1, ?P2], sample_db)"
    using conc_step.step [of 0 "[?P1, ?P2]" bcrypt sample_db ?L1 sample_db]
    by (simp add: sample_simps)
  have 2: "conc_step bcrypt ([?L1, ?P2], sample_db) ([?L1, ?L2], sample_db)"
    using conc_step.step [of 1 "[?L1, ?P2]" bcrypt sample_db ?L2 sample_db]
    by (simp add: sample_simps)
  have 3: "conc_step bcrypt ([?L1, ?L2], sample_db) ([?S1, ?L2], ?d1)"
    using conc_step.step [of 0 "[?L1, ?L2]" bcrypt sample_db ?S1 ?d1]
    by (simp add: sample_simps save_customer_def price)
  have 4: "conc_step bcrypt ([?S1, ?L2], ?d1) ([?S1, ?S2], ?d1)"
    using conc_step.step [of 1 "[?S1, ?L2]" bcrypt ?d1 ?S2 ?d1]
    by (simp add: sample_simps save_customer_def price)
  have 5: "conc_step bcrypt ([?S1, ?S2], ?d1) ([?F1, ?S2], ?d2)"
    using conc_step.step [of 0 "[?S1, ?S2]" bcrypt ?d1 ?F1 ?d2]
    by (simp add: sample_simps alloc_oid_def insert_order_def Let_def)
  have 6: "conc_step bcrypt ([?F1, ?S2], ?d2) ([?F1, ?F2], ?d3)"
    using conc_step.step [of 1 "[?F1, ?S2]" bcrypt ?d2 ?F2 ?d3]
    by (simp add: sample_simps alloc_oid_def insert_order_def Let_def)
  have reach: "(conc_step bcrypt)\<^sup>*\<^sup>* ([?P1, ?P2], sample_db) ([?F1, ?F2], ?d3)"
    using 1 2 3 4 5 6 by (meson rtranclp.rtrancl_into_rtrancl rtranclp.rtrancl_refl)
  have b0: "balance sample_db 0 = Some 100"
    by (simp add: balance_def spent_def sample_simps)
  have b3: "balance ?d3 0 = Some 180"
    by (simp add: balance_def spent_def sample_simps new_order_def)
  have serial: "fst (run bcrypt [(Purchase (Oid 0) (JStr ''book'') (JNum 100), 1),
                    (Purchase (Oid 0) (JStr ''pen'') (JNum 100), 2)] sample_db) =
     [Inr (reply 200 (JsonOrder ?o1)), Inr insufficient]"
    by (simp add: purchase_def sample_simps save_customer_def price alloc_oid_def
        insert_order_def Let_def final_price_def)
  show ?thesis using reach b0 b3 serial by blast
qed


lemma conc_steps_single:
  "(conc_step bcrypt)\<^sup>*\<^sup>* ([p], d) ([fst (proc_steps bcrypt n p d)], snd (proc_steps bcrypt n p d))"
proof (induction n arbitrary: p d)
  case 0
  then show ?case by simp
next
  case (Suc n)
  show ?case
  proof (cases "finished p")
    case True
    then obtain out where "p = Finished out" by (cases p) auto
    then show ?thesis by (simp add: proc_steps_finished)
  next
    case False
    obtain p' d' where st: "proc_step bcrypt p d = (p', d')" by fastforce
    with False have "conc_step bcrypt ([p], d) ([p'], d')"
      using conc_step.step [of 0 "[p]" bcrypt d p' d'] by simp
    moreover have "(conc_step bcrypt)\<^sup>*\<^sup>* ([p'], d')
        ([fst (proc_steps bcrypt n p' d')], snd (proc_steps bcrypt n p' d'))"
      by (rule Suc.IH)
    ultimately show ?thesis using st by (simp add: converse_rtranclp_into_rtranclp)
  qed
qed

lemma conc_step_append:
  "conc_step bcrypt (ps, d) (ps', d') \<Longrightarrow> conc_step bcrypt (ps @ qs, d) (ps' @ qs, d')"
  by (induction "(ps, d)" "(ps', d')" arbitrary: ps d ps' d' rule: conc_step.induct)
    (metis conc_step.step length_append list_update_append1 nth_append trans_less_add1)

lemma conc_step_Cons:
  "conc_step bcrypt (ps, d) (ps', d') \<Longrightarrow> conc_step bcrypt (p # ps, d) (p # ps', d')"
  by (induction "(ps, d)" "(ps', d')" arbitrary: ps d ps' d' rule: conc_step.induct)
    (metis conc_step.step Suc_less_eq length_Cons list_update_code(3) nth_Cons_Suc)

lemma conc_steps_lift:
  assumes "(conc_step bcrypt)\<^sup>*\<^sup>* (ps, d) (ps', d')"
  shows "(conc_step bcrypt)\<^sup>*\<^sup>* (ps @ qs, d) (ps' @ qs, d')"
    and "(conc_step bcrypt)\<^sup>*\<^sup>* (p # ps, d) (p # ps', d')"
  using assms
  by (induction rule: rtranclp_induct2)
    (auto intro: rtranclp.rtrancl_into_rtrancl conc_step_append conc_step_Cons)

text \<open>Serving requests one after another is one of the schedules of the concurrent server: the interleaving model reaches the answers and the database of the sequential run.\<close>

theorem serial_schedule:
  "(conc_step bcrypt)\<^sup>*\<^sup>* (map (\<lambda>(rq, now). Ready rq now) rqs, d)
     (map Finished (fst (run bcrypt rqs d)), snd (run bcrypt rqs d))"
proof (induction rqs arbitrary: d)
  case Nil
  then show ?case by simp
next
  case (Cons a rqs)
  obtain rq now where a: "a = (rq, now)" by fastforce
  let ?h = "handle bcrypt now rq d"
  have "(conc_step bcrypt)\<^sup>*\<^sup>* ([Ready rq now], d) ([Finished (fst ?h)], snd ?h)"
    using conc_steps_single [of bcrypt "Ready rq now" d "work (Ready rq now)"]
    by (simp add: proc_alone_handle)
  then have first: "(conc_step bcrypt)\<^sup>*\<^sup>* (Ready rq now # map (\<lambda>(rq, now). Ready rq now) rqs, d)
      (Finished (fst ?h) # map (\<lambda>(rq, now). Ready rq now) rqs, snd ?h)"
    using conc_steps_lift(1) by fastforce
  have "(conc_step bcrypt)\<^sup>*\<^sup>* (Finished (fst ?h) # map (\<lambda>(rq, now). Ready rq now) rqs, snd ?h)
      (Finished (fst ?h) # map Finished (fst (run bcrypt rqs (snd ?h))), snd (run bcrypt rqs (snd ?h)))"
    by (rule conc_steps_lift(2) [OF Cons.IH])
  with first have "(conc_step bcrypt)\<^sup>*\<^sup>* (Ready rq now # map (\<lambda>(rq, now). Ready rq now) rqs, d)
      (Finished (fst ?h) # map Finished (fst (run bcrypt rqs (snd ?h))), snd (run bcrypt rqs (snd ?h)))"
    by (rule rtranclp_trans)
  then show ?case by (simp add: a split_def Let_def)
qed

text \<open>C30: A purchase that read its customer before a concurrent delete removed it fails with DocumentNotFound on its save, records no order, and leaves the request unanswered, while the delete is answered 204.\<close>

theorem purchase_vs_delete:
  "(conc_step bcrypt)\<^sup>*\<^sup>*
     ([Ready (Purchase (Oid 0) (JStr ''book'') (JNum 100)) 1, Ready (DeleteCustomer (Oid 0)) 2],
      sample_db)
     ([Finished (Inl DocumentNotFound), Finished (Inr (reply 204 NoBody))],
      sample_db\<lparr>customers := []\<rparr>)"
proof -
  let ?P = "Ready (Purchase (Oid 0) (JStr ''book'') (JNum 100)) 1"
  let ?D = "Ready (DeleteCustomer (Oid 0)) 2"
  let ?L = "PurchaseLoaded sample_customer (JStr ''book'') (JNum 100) 1"
  let ?FD = "Finished (Inr (reply 204 NoBody))"
  let ?d1 = "sample_db\<lparr>customers := []\<rparr>"
  have 1: "conc_step bcrypt ([?P, ?D], sample_db) ([?L, ?D], sample_db)"
    using conc_step.step [of 0 "[?P, ?D]" bcrypt sample_db ?L sample_db]
    by (simp add: sample_simps)
  have 2: "conc_step bcrypt ([?L, ?D], sample_db) ([?L, ?FD], ?d1)"
    using conc_step.step [of 1 "[?L, ?D]" bcrypt sample_db ?FD ?d1]
    by (simp add: sample_simps delete_def delete_customer_def)
  have 3: "conc_step bcrypt ([?L, ?FD], ?d1) ([Finished (Inl DocumentNotFound), ?FD], ?d1)"
    using conc_step.step [of 0 "[?L, ?FD]" bcrypt ?d1 "Finished (Inl DocumentNotFound)" ?d1]
    by (simp add: sample_simps save_customer_def final_price_def)
  show ?thesis using 1 2 3 by (meson rtranclp.rtrancl_into_rtrancl rtranclp.rtrancl_refl)
qed

text \<open>C26: A discount set while a purchase of the same customer is in flight survives the purchase's save: the purchase read the customer before the discount was saved, so it charges the old final price (80 at 20 percent), but its save writes only the wallet, and the stored rate stays the new 50 percent.\<close>

theorem discount_survives_purchase:
  "(conc_step bcrypt)\<^sup>*\<^sup>*
     ([Ready (Purchase (Oid 0) (JStr ''book'') (JNum 100)) 1, Ready (SetDiscount (Oid 0) (JNum 50)) 2],
      sample_db)
     ([Finished (Inr (reply 200 (JsonOrder (new_order 1 0 (Some ''book'') 80 1)))),
       Finished (Inr (reply 200 (JsonCustomer (sample_customer\<lparr>rate_discount := Some 50\<rparr>))))],
      \<lparr>customers = [sample_customer\<lparr>rate_discount := Some 50, wallet := 20\<rparr>],
       orders = [new_order 1 0 (Some ''book'') 80 1], next_oid = 2\<rparr>)"
proof -
  let ?P = "Ready (Purchase (Oid 0) (JStr ''book'') (JNum 100)) 1"
  let ?D = "Ready (SetDiscount (Oid 0) (JNum 50)) 2"
  let ?LP = "PurchaseLoaded sample_customer (JStr ''book'') (JNum 100) 1"
  let ?LD = "DiscountLoaded sample_customer (JNum 50)"
  let ?SP = "PurchaseSaved sample_customer (JStr ''book'') (Num 80) 1"
  let ?o = "new_order 1 0 (Some ''book'') 80 1"
  let ?FP = "Finished (Inr (reply 200 (JsonOrder ?o)))"
  let ?FD = "Finished (Inr (reply 200 (JsonCustomer (sample_customer\<lparr>rate_discount := Some 50\<rparr>))))"
  let ?d1 = "sample_db\<lparr>customers := [sample_customer\<lparr>rate_discount := Some 50\<rparr>]\<rparr>"
  let ?d2 = "sample_db\<lparr>customers := [sample_customer\<lparr>rate_discount := Some 50, wallet := 20\<rparr>]\<rparr>"
  let ?d3 = "\<lparr>customers = [sample_customer\<lparr>rate_discount := Some 50, wallet := 20\<rparr>], orders = [?o],
    next_oid = 2\<rparr>"
  have price: "final_price (Some 20) (JNum 100) = Num 80" by (simp add: final_price_def)
  have 1: "conc_step bcrypt ([?P, ?D], sample_db) ([?LP, ?D], sample_db)"
    using conc_step.step [of 0 "[?P, ?D]" bcrypt sample_db ?LP sample_db]
    by (simp add: sample_simps)
  have 2: "conc_step bcrypt ([?LP, ?D], sample_db) ([?LP, ?LD], sample_db)"
    using conc_step.step [of 1 "[?LP, ?D]" bcrypt sample_db ?LD sample_db]
    by (simp add: sample_simps)
  have 3: "conc_step bcrypt ([?LP, ?LD], sample_db) ([?LP, ?FD], ?d1)"
    using conc_step.step [of 1 "[?LP, ?LD]" bcrypt sample_db ?FD ?d1]
    by (simp add: sample_simps save_customer_def)
  have 4: "conc_step bcrypt ([?LP, ?FD], ?d1) ([?SP, ?FD], ?d2)"
    using conc_step.step [of 0 "[?LP, ?FD]" bcrypt ?d1 ?SP ?d2]
    by (simp add: sample_simps save_customer_def price)
  have 5: "conc_step bcrypt ([?SP, ?FD], ?d2) ([?FP, ?FD], ?d3)"
    using conc_step.step [of 0 "[?SP, ?FD]" bcrypt ?d2 ?FP ?d3]
    by (simp add: sample_simps alloc_oid_def insert_order_def Let_def)
  show ?thesis using 1 2 3 4 5 by (meson rtranclp.rtrancl_into_rtrancl rtranclp.rtrancl_refl)
qed

section \<open>Concrete runs\<close>

theorem conc_invariants_witness:
  "(conc_step rev)\<^sup>*\<^sup>* ([Ready (TopUp (Oid 0) (JNum 5)) 1], sample_db)
     ([TopupLoaded sample_customer (JNum 5)], sample_db) \<and>
   server_ok ([Ready (TopUp (Oid 0) (JNum 5)) 1], sample_db) \<and>
   wallets_ok sample_db"
proof -
  have st: "conc_step rev ([Ready (TopUp (Oid 0) (JNum 5)) 1], sample_db)
      ([TopupLoaded sample_customer (JNum 5)], sample_db)"
    using conc_step.step [of 0 "[Ready (TopUp (Oid 0) (JNum 5)) 1]" rev sample_db
        "TopupLoaded sample_customer (JNum 5)" sample_db]
    by (simp add: sample_simps)
  have ok: "server_ok ([Ready (TopUp (Oid 0) (JNum 5)) 1], sample_db)"
    by (simp add: server_ok_def db_ok_def amount_ok_def rates_ok_def wallets_ok_def rate_ok_def
        db_wf_def coll_wf_def sample_simps)
  have rt: "(conc_step rev)\<^sup>*\<^sup>* ([Ready (TopUp (Oid 0) (JNum 5)) 1], sample_db)
      ([TopupLoaded sample_customer (JNum 5)], sample_db)"
    using st by (rule r_into_rtranclp)
  show ?thesis using conc_invariants [OF rt ok] rt ok by simp
qed

theorem conc_progress_witness:
  "\<not> list_all finished [Ready Home 0] \<and> (\<exists>s'. conc_step rev ([Ready Home 0], sample_db) s')"
  using conc_progress [of "[Ready Home 0]" rev sample_db] by simp

end
