(* ===== verification/Races.thy ===== *)
theory Races
  imports Concurrency
begin

text \<open>
  Races between the wallet requests of one customer: top-ups (lines 80--87) and purchases
  (lines 106--129) read the customer, compute a new wallet from what they read, and save
  it. \<open>wallet_delta\<close> is the change a request means to make: the amount of a top-up, minus
  the final price of a purchase. The invariant \<open>wallet_inv\<close> ties every value of the
  wallet, the stored one and the one each loaded process holds, to a set of requests that
  have saved (\<open>saved_set\<close>: the purchases that have saved their debit and the
  requests answered 200 after their save; a refused purchase, answered 400, is not
  among them): the value is the initial
  wallet plus their changes (\<open>from_done\<close>). A save adds the saver's change to a value that
  does not contain it, so under every interleaving the wallet is the initial one plus the
  changes of some saved requests: a race drops changes (a lost debit or a lost credit),
  never invents or doubles one.
\<close>

section \<open>The invariant\<close>

fun wallet_req :: "oid \<Rightarrow> request \<Rightarrow> bool" where
  "wallet_req k (TopUp r (JNum a)) = (r = Oid k)"
| "wallet_req k (Purchase r pn (JNum pr)) = (r = Oid k)"
| "wallet_req k _ = False"

fun wallet_delta :: "real option \<Rightarrow> request \<Rightarrow> real" where
  "wallet_delta rate (TopUp r (JNum a)) = a"
| "wallet_delta rate (Purchase r pn (JNum pr)) =
     (case final_price rate (JNum pr) of Num x \<Rightarrow> - x | NaN \<Rightarrow> 0)"
| "wallet_delta rate _ = 0"

fun saved :: "proc \<Rightarrow> bool" where
  "saved (Finished (Inr r)) = (status r = 200)"
| "saved (PurchaseSaved _ _ _ _) = True"
| "saved _ = False"

definition saved_set :: "proc list \<Rightarrow> nat set" where
  "saved_set ps = {j. j < length ps \<and> saved (ps ! j)}"

definition from_done :: "real \<Rightarrow> real list \<Rightarrow> nat set \<Rightarrow> real \<Rightarrow> bool" where
  "from_done w0 ds D x \<longleftrightarrow> (\<exists>S \<subseteq> D. x = w0 + (\<Sum>j\<in>S. ds ! j))"

fun wallet_proc_inv :: "oid \<Rightarrow> real option \<Rightarrow> real \<Rightarrow> real list \<Rightarrow> nat set \<Rightarrow> nat \<Rightarrow> proc \<Rightarrow> bool" where
  "wallet_proc_inv k rate w0 ds D j (Ready rq now) = (wallet_req k rq \<and> wallet_delta rate rq = ds ! j)"
| "wallet_proc_inv k rate w0 ds D j (TopupLoaded c v) =
     (v = JNum (ds ! j) \<and> cust_id c = k \<and> from_done w0 ds D (wallet c))"
| "wallet_proc_inv k rate w0 ds D j (PurchaseLoaded c pn price now) =
     ((\<exists>pr. price = JNum pr) \<and> final_price rate price = Num (- ds ! j) \<and> cust_id c = k \<and>
      rate_discount c = rate \<and> from_done w0 ds D (wallet c))"
| "wallet_proc_inv k rate w0 ds D j (PurchaseSaved c pn fp now) = (fp = Num (- ds ! j))"
| "wallet_proc_inv k rate w0 ds D j (Finished out) = True"
| "wallet_proc_inv k rate w0 ds D j _ = False"

definition wallet_inv :: "oid \<Rightarrow> real option \<Rightarrow> real \<Rightarrow> real list \<Rightarrow> server \<Rightarrow> bool" where
  "wallet_inv k rate w0 ds s \<longleftrightarrow>
     length ds = length (fst s) \<and>
     (\<exists>c. coll_find cust_id k (customers (snd s)) = Some c \<and> rate_discount c = rate \<and>
          from_done w0 ds (saved_set (fst s)) (wallet c)) \<and>
     (\<forall>j < length (fst s). wallet_proc_inv k rate w0 ds (saved_set (fst s)) j (fst s ! j))"

section \<open>Lemmas\<close>

lemma saved_set_update:
  "i < length ps \<Longrightarrow>
   saved_set (ps[i := p]) = (saved_set ps - {i}) \<union> (if saved p then {i} else {})"
  by (auto simp: saved_set_def nth_list_update split: if_splits)

lemma saved_set_mem: "i < length ps \<Longrightarrow> i \<in> saved_set ps \<longleftrightarrow> saved (ps ! i)"
  by (simp add: saved_set_def)

lemma from_done_mono: "from_done w0 ds D x \<Longrightarrow> D \<subseteq> D' \<Longrightarrow> from_done w0 ds D' x"
  by (auto simp: from_done_def)

lemma from_done_commit:
  assumes "from_done w0 ds D x" and "i \<notin> D" and "finite D"
  shows "from_done w0 ds (insert i D) (x + ds ! i)"
proof -
  from assms(1) obtain S where S: "S \<subseteq> D" "x = w0 + (\<Sum>j\<in>S. ds ! j)"
    by (auto simp: from_done_def)
  moreover have "finite S" "i \<notin> S" using S(1) assms(2,3) finite_subset by auto
  ultimately have "x + ds ! i = w0 + (\<Sum>j\<in>insert i S. ds ! j)" by simp
  with S(1) show ?thesis unfolding from_done_def by blast
qed

lemma wallet_proc_inv_mono:
  "wallet_proc_inv k rate w0 ds D j p \<Longrightarrow> D \<subseteq> D' \<Longrightarrow> wallet_proc_inv k rate w0 ds D' j p"
  by (cases "(k, rate, w0, ds, D, j, p)" rule: wallet_proc_inv.cases) (auto intro: from_done_mono)

lemma final_price_JNum: "\<exists>x. final_price rate (JNum pr) = Num x"
  by (simp add: final_price_def)

lemma wallet_inv_update:
  assumes inv: "wallet_inv k rate w0 ds (ps, d)" and i: "i < length ps"
    and D: "saved_set ps \<subseteq> saved_set (ps[i := p'])"
    and db: "\<exists>c. coll_find cust_id k (customers d') = Some c \<and> rate_discount c = rate \<and>
               from_done w0 ds (saved_set (ps[i := p'])) (wallet c)"
    and pi: "wallet_proc_inv k rate w0 ds (saved_set (ps[i := p'])) i p'"
  shows "wallet_inv k rate w0 ds (ps[i := p'], d')"
proof -
  from inv have "\<forall>j < length ps. wallet_proc_inv k rate w0 ds (saved_set ps) j (ps ! j)"
    "length ds = length ps"
    by (simp_all add: wallet_inv_def)
  with D pi i db show ?thesis
    by (auto simp: wallet_inv_def nth_list_update intro: wallet_proc_inv_mono)
qed


lemma wallet_inv_step:
  assumes "conc_step bcrypt s s'" and "wallet_inv k rate w0 ds s"
  shows "wallet_inv k rate w0 ds s'"
  using assms
proof (induction rule: conc_step.induct)
  case (step i ps d p' d')
  let ?D = "saved_set ps"
  let ?D' = "saved_set (ps[i := p'])"
  from step.prems obtain c where c: "coll_find cust_id k (customers d) = Some c"
      "rate_discount c = rate" "from_done w0 ds ?D (wallet c)"
    and procs: "\<forall>j < length ps. wallet_proc_inv k rate w0 ds ?D j (ps ! j)"
    unfolding wallet_inv_def by auto
  from procs step.hyps(1) have pi: "wallet_proc_inv k rate w0 ds ?D i (ps ! i)" by blast
  have fin: "finite ?D" by (simp add: saved_set_def)
  have ck: "cust_id c = k" using c(1) by (rule coll_find_cust_id)
  have upd: "wallet_inv k rate w0 ds (ps[i := p'], d')"
    if "?D \<subseteq> ?D'" "\<exists>c. coll_find cust_id k (customers d') = Some c \<and> rate_discount c = rate \<and>
          from_done w0 ds ?D' (wallet c)" "wallet_proc_inv k rate w0 ds ?D' i p'"
    using wallet_inv_update [OF step.prems step.hyps(1)] that by blast
  have commit: "?D' = insert i ?D" if "saved p'"
    using that saved_set_update [OF step.hyps(1), of p'] by auto
  have same: "?D' = ?D" if "saved (ps ! i) = saved p'"
    using that saved_set_update [OF step.hyps(1), of p'] saved_set_mem [OF step.hyps(1)] by auto
  have stored: "\<exists>c'. coll_find cust_id k
        (coll_update cust_id k (\<lambda>x. x\<lparr>wallet := y + ds ! i\<rparr>) (customers d)) = Some c' \<and>
        rate_discount c' = rate \<and> from_done w0 ds (insert i ?D) (wallet c')"
    if "from_done w0 ds ?D y" "i \<notin> ?D" for y
    using c that fin by (simp add: coll_find_update from_done_commit)
  show ?case
  proof (cases "ps ! i")
    case (Ready rq now)
    with pi have rq: "wallet_req k rq" "wallet_delta rate rq = ds ! i" by simp_all
    then consider (t) a where "rq = TopUp (Oid k) (JNum a)" | (p) pn pr where "rq = Purchase (Oid k) pn (JNum pr)"
      by (cases "(k, rq)" rule: wallet_req.cases) auto
    then show ?thesis
    proof cases
      case t
      with Ready step.hyps(3) c rq have p': "p' = TopupLoaded c (JNum (ds ! i))" and d': "d' = d"
        by auto
      have D: "?D' = ?D" by (rule same) (simp add: Ready p')
      show ?thesis by (rule upd) (use D c ck in \<open>simp_all add: p' d'\<close>)
    next
      case p
      with Ready step.hyps(3) c rq have p': "p' = PurchaseLoaded c pn (JNum pr) now" and d': "d' = d"
        and fp: "final_price rate (JNum pr) = Num (- ds ! i)"
        using final_price_JNum [of rate pr] by auto
      have D: "?D' = ?D" by (rule same) (simp add: Ready p')
      show ?thesis by (rule upd) (use D c ck fp in \<open>simp_all add: p' d'\<close>)
    qed
  next
    case (TopupLoaded c1 v)
    with pi have v: "v = JNum (ds ! i)" and w: "from_done w0 ds ?D (wallet c1)" by simp_all
    have notin: "i \<notin> ?D" using TopupLoaded by (simp add: saved_set_def)
    from TopupLoaded step.hyps(3) c v pi ck
    have p': "p' = Finished (Inr (reply 200 (JsonCustomer (c1\<lparr>wallet := wallet c1 + ds ! i\<rparr>))))"
      and d': "d' = d\<lparr>customers := coll_update cust_id k (\<lambda>x. x\<lparr>wallet := wallet c1 + ds ! i\<rparr>) (customers d)\<rparr>"
      by (auto simp: save_customer_found)
    have D: "?D' = insert i ?D" by (rule commit) (simp add: p' reply_def)
    show ?thesis by (rule upd) (use D stored [OF w notin] in \<open>auto simp: p' d'\<close>)
  next
    case (PurchaseLoaded c1 pn price now)
    with pi have fp: "final_price (rate_discount c1) price = Num (- ds ! i)"
      and w: "from_done w0 ds ?D (wallet c1)" and k1: "cust_id c1 = k" by auto
    have notin: "i \<notin> ?D" using PurchaseLoaded by (simp add: saved_set_def)
    show ?thesis
    proof (cases "wallet c1 < - ds ! i")
      case True
      with PurchaseLoaded step.hyps(3) fp have p': "p' = Finished (Inr insufficient)" and d': "d' = d"
        by (simp_all add: Let_def)
      have D: "?D' = ?D" by (rule same) (simp add: PurchaseLoaded p' insufficient_def reply_def)
      show ?thesis by (rule upd) (use D c in \<open>auto simp: p' d'\<close>)
    next
      case False
      with PurchaseLoaded step.hyps(3) fp c k1 have p': "p' = PurchaseSaved c1 pn (Num (- ds ! i)) now"
        and d': "d' = d\<lparr>customers := coll_update cust_id k (\<lambda>x. x\<lparr>wallet := wallet c1 + ds ! i\<rparr>) (customers d)\<rparr>"
        by (auto simp: Let_def save_customer_found)
      have D: "?D' = insert i ?D" by (rule commit) (simp add: p')
      show ?thesis by (rule upd) (use D stored [OF w notin] in \<open>auto simp: p' d'\<close>)
    qed
  next
    case (PurchaseSaved c1 pn fp now)
    with pi have fp: "fp = Num (- ds ! i)" by simp
    with PurchaseSaved step.hyps(3) have "(\<exists>r. p' = Finished (Inr r) \<and> status r = 200) \<and>
        customers d' = customers d"
      by (auto simp: Let_def alloc_oid_def insert_order_def reply_def)
    then obtain r where p': "p' = Finished (Inr r)" "status r = 200" and d': "customers d' = customers d"
      by blast
    have D: "?D' = ?D" by (rule same) (simp add: PurchaseSaved p')
    show ?thesis by (rule upd) (use D c in \<open>simp_all add: p' d'\<close>)
  qed (use pi step.hyps(2) in auto)
qed

lemma wallet_inv_init:
  assumes "coll_find cust_id k (customers d) = Some c" and "list_all (wallet_req k \<circ> fst) rqs"
  shows "wallet_inv k (rate_discount c) (wallet c) (map (wallet_delta (rate_discount c) \<circ> fst) rqs)
    (map (\<lambda>(rq, now). Ready rq now) rqs, d)"
proof -
  have "saved_set (map (\<lambda>(rq, now). Ready rq now) rqs) = {}"
    by (auto simp: saved_set_def case_prod_beta)
  moreover have "from_done (wallet c) ds {} (wallet c)" for ds
    by (simp add: from_done_def)
  ultimately show ?thesis
    using assms by (auto simp: wallet_inv_def case_prod_beta list_all_length)
qed

text \<open>C31: Under every interleaving of top-ups and purchases of one customer, the stored wallet is the initial wallet plus the changes (the amount of a top-up, minus the final price of a purchase) of some of the requests that have saved (a purchase refused with 400 is never among them): a race can drop a change but never invents one, and the discount rate is untouched.\<close>

theorem wallet_race:
  assumes run: "(conc_step bcrypt)\<^sup>*\<^sup>* (map (\<lambda>(rq, now). Ready rq now) rqs, d) (ps, d')"
    and reqs: "list_all (wallet_req k \<circ> fst) rqs"
    and found: "coll_find cust_id k (customers d) = Some c"
  shows "\<exists>c'. coll_find cust_id k (customers d') = Some c' \<and> rate_discount c' = rate_discount c \<and>
     (\<exists>S \<subseteq> saved_set ps. wallet c' = wallet c + (\<Sum>j\<in>S. wallet_delta (rate_discount c) (fst (rqs ! j))))"
proof -
  let ?ds = "map (wallet_delta (rate_discount c) \<circ> fst) rqs"
  have "wallet_inv k (rate_discount c) (wallet c) ?ds (ps, d')"
    using run wallet_inv_init [OF found reqs]
    by (induction rule: rtranclp_induct) (auto intro: wallet_inv_step)
  then obtain c' S where len: "length rqs = length ps"
    and db: "coll_find cust_id k (customers d') = Some c'" "rate_discount c' = rate_discount c"
    and S: "S \<subseteq> saved_set ps" "wallet c' = wallet c + (\<Sum>j\<in>S. ?ds ! j)"
    unfolding wallet_inv_def from_done_def by auto
  have "(\<Sum>j\<in>S. ?ds ! j) = (\<Sum>j\<in>S. wallet_delta (rate_discount c) (fst (rqs ! j)))"
    using S(1) len by (intro sum.cong) (auto simp: saved_set_def)
  with db S show ?thesis by auto
qed

section \<open>Concrete runs\<close>

theorem wallet_race_witness:
  "(conc_step rev)\<^sup>*\<^sup>* ([Ready (TopUp (Oid 0) (JNum 50)) 1, Ready (Purchase (Oid 0) (JStr ''book'') (JNum 100)) 2], sample_db)
     ([Finished (Inr (reply 200 (JsonCustomer (sample_customer\<lparr>wallet := 150\<rparr>)))),
       Finished (Inr (reply 200 (JsonOrder (new_order 1 0 (Some ''book'') 80 2))))],
      \<lparr>customers = [sample_customer\<lparr>wallet := 150\<rparr>], orders = [new_order 1 0 (Some ''book'') 80 2],
       next_oid = 2\<rparr>) \<and>
   coll_find cust_id 0 (customers sample_db) = Some sample_customer \<and>
   (\<exists>S \<subseteq> {0, 1}. (150::real) = 100 + (\<Sum>j\<in>S. [50, -80] ! j))"
proof -
  let ?T = "Ready (TopUp (Oid 0) (JNum 50)) 1"
  let ?P = "Ready (Purchase (Oid 0) (JStr ''book'') (JNum 100)) 2"
  let ?LT = "TopupLoaded sample_customer (JNum 50)"
  let ?LP = "PurchaseLoaded sample_customer (JStr ''book'') (JNum 100) 2"
  let ?SP = "PurchaseSaved sample_customer (JStr ''book'') (Num 80) 2"
  let ?FT = "Finished (Inr (reply 200 (JsonCustomer (sample_customer\<lparr>wallet := 150\<rparr>))))"
  let ?o = "new_order 1 0 (Some ''book'') 80 2"
  let ?FP = "Finished (Inr (reply 200 (JsonOrder ?o)))"
  let ?d1 = "sample_db\<lparr>customers := [sample_customer\<lparr>wallet := 20\<rparr>]\<rparr>"
  let ?d2 = "sample_db\<lparr>customers := [sample_customer\<lparr>wallet := 150\<rparr>]\<rparr>"
  let ?d3 = "\<lparr>customers = [sample_customer\<lparr>wallet := 150\<rparr>], orders = [?o], next_oid = 2\<rparr>"
  have price: "final_price (Some 20) (JNum 100) = Num 80" by (simp add: final_price_def)
  have 1: "conc_step rev ([?T, ?P], sample_db) ([?LT, ?P], sample_db)"
    using conc_step.step [of 0 "[?T, ?P]" rev sample_db ?LT sample_db] by (simp add: sample_simps)
  have 2: "conc_step rev ([?LT, ?P], sample_db) ([?LT, ?LP], sample_db)"
    using conc_step.step [of 1 "[?LT, ?P]" rev sample_db ?LP sample_db] by (simp add: sample_simps)
  have 3: "conc_step rev ([?LT, ?LP], sample_db) ([?LT, ?SP], ?d1)"
    using conc_step.step [of 1 "[?LT, ?LP]" rev sample_db ?SP ?d1]
    by (simp add: sample_simps save_customer_def price)
  have 4: "conc_step rev ([?LT, ?SP], ?d1) ([?FT, ?SP], ?d2)"
    using conc_step.step [of 0 "[?LT, ?SP]" rev ?d1 ?FT ?d2]
    by (simp add: sample_simps save_customer_def)
  have 5: "conc_step rev ([?FT, ?SP], ?d2) ([?FT, ?FP], ?d3)"
    using conc_step.step [of 1 "[?FT, ?SP]" rev ?d2 ?FP ?d3]
    by (simp add: sample_simps alloc_oid_def insert_order_def Let_def)
  have reach: "(conc_step rev)\<^sup>*\<^sup>* ([?T, ?P], sample_db) ([?FT, ?FP], ?d3)"
    using 1 2 3 4 5 by (meson rtranclp.rtrancl_into_rtrancl rtranclp.rtrancl_refl)
  have run: "(conc_step rev)\<^sup>*\<^sup>* (map (\<lambda>(rq, now). Ready rq now)
      [(TopUp (Oid 0) (JNum 50), 1), (Purchase (Oid 0) (JStr ''book'') (JNum 100), 2)], sample_db)
      ([?FT, ?FP], ?d3)"
    using reach by simp
  have reqs: "list_all (wallet_req 0 \<circ> fst)
      [(TopUp (Oid 0) (JNum 50), 1), (Purchase (Oid 0) (JStr ''book'') (JNum 100), 2::int)]"
    by simp
  have ds: "wallet_delta (Some 20) (Purchase (Oid 0) (JStr ''book'') (JNum 100)) = -80"
    by (simp add: price)
  from wallet_race [OF run reqs sample_found] show ?thesis
    using reach sample_found ds by (auto simp: sample_simps saved_set_def reply_def)
qed

end
