(* ===== verification/Hardened.thy ===== *)
theory Hardened
  imports Races
begin

text \<open>
  The hardened port that section 9 of the specification proposes and \<open>src/index.js\<close>
  does not have: per-customer mutual exclusion around the read-modify-write handlers. A
  process holds the lock of a customer from its read to its last write (\<open>locks\<close>); a
  top-up, discount or purchase may start only when no process holds the lock of its
  customer (\<open>wants\<close>, \<open>lock_free\<close>). \<open>locked_step\<close> is \<open>conc_step\<close> with that guard,
  so every serialized schedule is a schedule of the code's server (\<open>locked_conc_step\<close>)
  and the segments are the code's own (\<open>proc_step\<close>). The invariant \<open>lock_inv\<close>
  says at most one process holds a lock, a loaded process holds the stored wallet, and the
  stored wallet is the initial one plus the change of every request that succeeded
  (\<open>succ_set\<close>). The lemmas show the accounts exact under the lock, where
  \<open>Races.wallet_race\<close> only bounds them for the code, and that the lock never deadlocks.
\<close>

section \<open>Per-customer serialization\<close>

fun locks :: "proc \<Rightarrow> oid option" where
  "locks (TopupLoaded c _) = Some (cust_id c)"
| "locks (DiscountLoaded c _) = Some (cust_id c)"
| "locks (PurchaseLoaded c _ _ _) = Some (cust_id c)"
| "locks (PurchaseSaved c _ _ _) = Some (cust_id c)"
| "locks _ = None"

fun wants :: "proc \<Rightarrow> oid option" where
  "wants (Ready (TopUp (Oid k) _) _) = Some k"
| "wants (Ready (SetDiscount (Oid k) _) _) = Some k"
| "wants (Ready (Purchase (Oid k) _ _) _) = Some k"
| "wants _ = None"

definition lock_free :: "oid \<Rightarrow> proc list \<Rightarrow> bool" where
  "lock_free k ps \<longleftrightarrow> list_all (\<lambda>p. locks p \<noteq> Some k) ps"

inductive locked_step :: "(string \<Rightarrow> string) \<Rightarrow> server \<Rightarrow> server \<Rightarrow> bool" for bcrypt where
  step: "i < length ps \<Longrightarrow> \<not> finished (ps ! i) \<Longrightarrow>
    (case wants (ps ! i) of Some k \<Rightarrow> lock_free k ps | None \<Rightarrow> True) \<Longrightarrow>
    proc_step bcrypt (ps ! i) d = (p', d') \<Longrightarrow> locked_step bcrypt (ps, d) (ps[i := p'], d')"

fun succeeded :: "proc \<Rightarrow> bool" where
  "succeeded (Finished (Inr r)) = (status r = 200)"
| "succeeded (PurchaseSaved _ _ _ _) = True"
| "succeeded _ = False"

definition succ_set :: "proc list \<Rightarrow> nat set" where
  "succ_set ps = {j. j < length ps \<and> succeeded (ps ! j)}"

fun lock_proc_inv :: "oid \<Rightarrow> real option \<Rightarrow> real list \<Rightarrow> real \<Rightarrow> nat \<Rightarrow> proc \<Rightarrow> bool" where
  "lock_proc_inv k rate ds w j (Ready rq now) = (wallet_req k rq \<and> wallet_delta rate rq = ds ! j)"
| "lock_proc_inv k rate ds w j (TopupLoaded c v) =
     (v = JNum (ds ! j) \<and> cust_id c = k \<and> wallet c = w)"
| "lock_proc_inv k rate ds w j (PurchaseLoaded c pn price now) =
     ((\<exists>pr. price = JNum pr) \<and> final_price rate price = Num (- ds ! j) \<and> cust_id c = k \<and>
      rate_discount c = rate \<and> wallet c = w)"
| "lock_proc_inv k rate ds w j (PurchaseSaved c pn fp now) = (fp = Num (- ds ! j) \<and> cust_id c = k)"
| "lock_proc_inv k rate ds w j (Finished out) =
     (out = Inr insufficient \<or> (\<exists>r. out = Inr r \<and> status r = 200))"
| "lock_proc_inv k rate ds w j _ = False"

definition lock_inv :: "oid \<Rightarrow> real option \<Rightarrow> real \<Rightarrow> real list \<Rightarrow> server \<Rightarrow> bool" where
  "lock_inv k rate w0 ds s \<longleftrightarrow>
     length ds = length (fst s) \<and>
     (\<exists>c. coll_find cust_id k (customers (snd s)) = Some c \<and> rate_discount c = rate \<and>
          wallet c = w0 + (\<Sum>j\<in>succ_set (fst s). ds ! j) \<and>
          (\<forall>j < length (fst s). lock_proc_inv k rate ds (wallet c) j (fst s ! j))) \<and>
     (\<forall>i < length (fst s). \<forall>j < length (fst s). locks (fst s ! i) \<noteq> None \<longrightarrow>
        locks (fst s ! j) \<noteq> None \<longrightarrow> i = j)"

section \<open>Lemmas\<close>

lemma locked_conc_step: "locked_step bcrypt s s' \<Longrightarrow> conc_step bcrypt s s'"
  by (induction rule: locked_step.induct) (rule conc_step.step)

lemma succ_set_update:
  "i < length ps \<Longrightarrow>
   succ_set (ps[i := p]) = (succ_set ps - {i}) \<union> (if succeeded p then {i} else {})"
  by (auto simp: succ_set_def nth_list_update split: if_splits)

lemma lock_proc_inv_free:
  "locks p = None \<Longrightarrow> lock_proc_inv k rate ds w j p = lock_proc_inv k rate ds w' j p"
  by (cases p) auto

lemma lock_inv_update:
  assumes inv: "lock_inv k rate w0 ds (ps, d)" and i: "i < length ps"
    and db: "coll_find cust_id k (customers d') = Some c'" "rate_discount c' = rate"
      "wallet c' = w0 + (\<Sum>j\<in>succ_set (ps[i := p']). ds ! j)"
    and others: "\<forall>j < length ps. j \<noteq> i \<longrightarrow> lock_proc_inv k rate ds (wallet c') j (ps ! j)"
    and pi: "lock_proc_inv k rate ds (wallet c') i p'"
    and uniq: "\<forall>j < length ps. j \<noteq> i \<longrightarrow> locks p' \<noteq> None \<longrightarrow> locks (ps ! j) = None"
  shows "lock_inv k rate w0 ds (ps[i := p'], d')"
proof -
  from inv have len: "length ds = length ps"
    and u: "\<forall>a < length ps. \<forall>b < length ps. locks (ps ! a) \<noteq> None \<longrightarrow> locks (ps ! b) \<noteq> None \<longrightarrow> a = b"
    by (auto simp: lock_inv_def)
  have "a = b" if "a < length ps" "b < length ps" "locks (ps[i := p'] ! a) \<noteq> None"
      "locks (ps[i := p'] ! b) \<noteq> None" for a b
  proof (cases "a = i")
    case True
    with that uniq show ?thesis by (cases "b = i") (auto simp: nth_list_update)
  next
    case False
    with that uniq u show ?thesis by (cases "b = i") (auto simp: nth_list_update)
  qed
  moreover have "\<forall>j < length ps. lock_proc_inv k rate ds (wallet c') j (ps[i := p'] ! j)"
    using others pi i by (auto simp: nth_list_update)
  ultimately show ?thesis using len db unfolding lock_inv_def by auto
qed

lemma lock_proc_inv_holds: "lock_proc_inv k rate ds w j p \<Longrightarrow> locks p \<noteq> None \<Longrightarrow> locks p = Some k"
  by (cases p) auto

lemma succ_set_mem: "i < length ps \<Longrightarrow> i \<in> succ_set ps \<longleftrightarrow> succeeded (ps ! i)"
  by (simp add: succ_set_def)

lemma lock_inv_step:
  assumes "locked_step bcrypt s s'" and "lock_inv k rate w0 ds s"
  shows "lock_inv k rate w0 ds s'"
  using assms
proof (induction rule: locked_step.induct)
  case (step i ps d p' d')
  let ?S = "succ_set ps"
  let ?S' = "succ_set (ps[i := p'])"
  from step.prems obtain c where c: "coll_find cust_id k (customers d) = Some c"
      "rate_discount c = rate" "wallet c = w0 + (\<Sum>j\<in>?S. ds ! j)"
    and procs: "\<forall>j < length ps. lock_proc_inv k rate ds (wallet c) j (ps ! j)"
    and u: "\<forall>a < length ps. \<forall>b < length ps. locks (ps ! a) \<noteq> None \<longrightarrow> locks (ps ! b) \<noteq> None \<longrightarrow> a = b"
    unfolding lock_inv_def by auto
  from procs step.hyps(1) have pi: "lock_proc_inv k rate ds (wallet c) i (ps ! i)" by blast
  have ck: "cust_id c = k" using c(1) by (rule coll_find_cust_id)
  have fin: "finite ?S" by (simp add: succ_set_def)
  have upd: "lock_inv k rate w0 ds (ps[i := p'], d')"
    if "coll_find cust_id k (customers d') = Some c'" "rate_discount c' = rate"
      "wallet c' = w0 + (\<Sum>j\<in>?S'. ds ! j)"
      "\<forall>j < length ps. j \<noteq> i \<longrightarrow> lock_proc_inv k rate ds (wallet c') j (ps ! j)"
      "lock_proc_inv k rate ds (wallet c') i p'"
      "\<forall>j < length ps. j \<noteq> i \<longrightarrow> locks p' \<noteq> None \<longrightarrow> locks (ps ! j) = None" for c'
    using lock_inv_update [OF step.prems step.hyps(1) that] .
  have same: "?S' = ?S" if "succeeded (ps ! i) = succeeded p'"
    using that succ_set_update [OF step.hyps(1), of p'] succ_set_mem [OF step.hyps(1)] by auto
  have commit: "(\<Sum>j\<in>?S'. ds ! j) = (\<Sum>j\<in>?S. ds ! j) + ds ! i"
    if "\<not> succeeded (ps ! i)" "succeeded p'"
  proof -
    have "?S' = insert i ?S" "i \<notin> ?S"
      using that succ_set_update [OF step.hyps(1), of p'] succ_set_mem [OF step.hyps(1)] by auto
    with fin show ?thesis by simp
  qed
  have alone: "\<forall>j < length ps. j \<noteq> i \<longrightarrow> locks (ps ! j) = None" if "locks (ps ! i) \<noteq> None"
    using u that step.hyps(1) by blast
  have free: "\<forall>j < length ps. j \<noteq> i \<longrightarrow> lock_proc_inv k rate ds w j (ps ! j)"
    if "\<forall>j < length ps. j \<noteq> i \<longrightarrow> locks (ps ! j) = None" for w
    using that procs lock_proc_inv_free by blast
  have found_upd: "coll_find cust_id k (coll_update cust_id k (\<lambda>x. x\<lparr>wallet := y\<rparr>) (customers d)) =
      Some (c\<lparr>wallet := y\<rparr>)" for y
    using c(1) by (simp add: coll_find_update)
  show ?case
  proof (cases "ps ! i")
    case (Ready rq now)
    with pi have rq: "wallet_req k rq" "wallet_delta rate rq = ds ! i" by simp_all
    have wk: "wants (ps ! i) = Some k" using Ready rq(1) by (cases "(k, rq)" rule: wallet_req.cases) auto
    with step.hyps(3) have "lock_free k ps" by simp
    then have none: "\<forall>j < length ps. j \<noteq> i \<longrightarrow> locks (ps ! j) = None"
      using procs lock_proc_inv_holds by (fastforce simp: lock_free_def list_all_length)
    from rq consider (t) a where "rq = TopUp (Oid k) (JNum a)" | (p) pn pr where "rq = Purchase (Oid k) pn (JNum pr)"
      by (cases "(k, rq)" rule: wallet_req.cases) auto
    then show ?thesis
    proof cases
      case t
      with Ready step.hyps(4) c rq have p': "p' = TopupLoaded c (JNum (ds ! i))" and d': "d' = d"
        by auto
      have "?S' = ?S" by (rule same) (simp add: Ready p')
      then show ?thesis by (intro upd [of c]) (use c ck none free in \<open>simp_all add: p' d'\<close>)
    next
      case p
      with Ready step.hyps(4) c rq have p': "p' = PurchaseLoaded c pn (JNum pr) now" and d': "d' = d"
        and fp: "final_price rate (JNum pr) = Num (- ds ! i)"
        using final_price_JNum [of rate pr] by auto
      have "?S' = ?S" by (rule same) (simp add: Ready p')
      then show ?thesis by (intro upd [of c]) (use c ck none free fp in \<open>simp_all add: p' d'\<close>)
    qed
  next
    case (TopupLoaded c1 v)
    with pi have v: "v = JNum (ds ! i)" and k1: "cust_id c1 = k" and w: "wallet c1 = wallet c" by simp_all
    from TopupLoaded have none: "\<forall>j < length ps. j \<noteq> i \<longrightarrow> locks (ps ! j) = None" by (intro alone) simp
    from TopupLoaded step.hyps(4) c v k1
    have p': "p' = Finished (Inr (reply 200 (JsonCustomer (c1\<lparr>wallet := wallet c1 + ds ! i\<rparr>))))"
      and d': "d' = d\<lparr>customers := coll_update cust_id k (\<lambda>x. x\<lparr>wallet := wallet c1 + ds ! i\<rparr>) (customers d)\<rparr>"
      by (auto simp: save_customer_found)
    have "(\<Sum>j\<in>?S'. ds ! j) = (\<Sum>j\<in>?S. ds ! j) + ds ! i" by (rule commit) (simp_all add: TopupLoaded p' reply_def)
    then show ?thesis
      by (intro upd [of "c\<lparr>wallet := wallet c1 + ds ! i\<rparr>"])
        (use c none free found_upd w in \<open>simp_all add: p' d' reply_def\<close>)
  next
    case (PurchaseLoaded c1 pn price now)
    with pi have fp: "final_price (rate_discount c1) price = Num (- ds ! i)"
      and w: "wallet c1 = wallet c" and k1: "cust_id c1 = k" by auto
    from PurchaseLoaded have none: "\<forall>j < length ps. j \<noteq> i \<longrightarrow> locks (ps ! j) = None" by (intro alone) simp
    show ?thesis
    proof (cases "wallet c1 < - ds ! i")
      case True
      with PurchaseLoaded step.hyps(4) fp have p': "p' = Finished (Inr insufficient)" and d': "d' = d"
        by (simp_all add: Let_def)
      have "?S' = ?S" by (rule same) (simp add: PurchaseLoaded p' insufficient_def reply_def)
      then show ?thesis by (intro upd [of c]) (use c none free in \<open>simp_all add: p' d'\<close>)
    next
      case False
      with PurchaseLoaded step.hyps(4) fp c k1 have p': "p' = PurchaseSaved c1 pn (Num (- ds ! i)) now"
        and d': "d' = d\<lparr>customers := coll_update cust_id k (\<lambda>x. x\<lparr>wallet := wallet c1 + ds ! i\<rparr>) (customers d)\<rparr>"
        by (auto simp: Let_def save_customer_found)
      have "(\<Sum>j\<in>?S'. ds ! j) = (\<Sum>j\<in>?S. ds ! j) + ds ! i" by (rule commit) (simp_all add: PurchaseLoaded p')
      then show ?thesis
        by (intro upd [of "c\<lparr>wallet := wallet c1 + ds ! i\<rparr>"])
          (use c none free found_upd w k1 in \<open>simp_all add: p' d'\<close>)
    qed
  next
    case (PurchaseSaved c1 pn fp now)
    with pi have fp: "fp = Num (- ds ! i)" by simp
    from PurchaseSaved have none: "\<forall>j < length ps. j \<noteq> i \<longrightarrow> locks (ps ! j) = None" by (intro alone) simp
    from PurchaseSaved step.hyps(4) fp
    have p': "p' = Finished (Inr (reply 200 (JsonOrder (new_order (next_oid d) (cust_id c1) (cast_string pn) (- ds ! i) now))))"
      and d': "customers d' = customers d"
      by (auto simp: Let_def alloc_oid_def insert_order_def)
    have "?S' = ?S" by (rule same) (simp add: PurchaseSaved p' reply_def)
    then show ?thesis by (intro upd [of c]) (use c none free in \<open>simp_all add: p' d' reply_def\<close>)
  qed (use pi step.hyps(2) in auto)
qed

lemma locks_busy: "locks p \<noteq> None \<Longrightarrow> \<not> finished p \<and> wants p = None"
  by (cases p) auto

lemma lock_inv_init:
  assumes "coll_find cust_id k (customers d) = Some c" and "list_all (wallet_req k \<circ> fst) rqs"
  shows "lock_inv k (rate_discount c) (wallet c) (map (wallet_delta (rate_discount c) \<circ> fst) rqs)
    (map (\<lambda>(rq, now). Ready rq now) rqs, d)"
proof -
  have "succ_set (map (\<lambda>(rq, now). Ready rq now) rqs) = {}"
    by (auto simp: succ_set_def case_prod_beta)
  then show ?thesis
    using assms by (auto simp: lock_inv_def case_prod_beta list_all_length)
qed

text \<open>C38: With the per-customer serialization the specification proposes for a hardened port (a request on a customer waits while another request on that customer is between its read and its last write), every interleaving of top-ups and purchases of one customer keeps exact accounts: the wallet is the initial wallet plus the change of every request that succeeded, so no update is lost.\<close>

theorem locked_exact:
  assumes run: "(locked_step bcrypt)\<^sup>*\<^sup>* (map (\<lambda>(rq, now). Ready rq now) rqs, d) (ps, d')"
    and reqs: "list_all (wallet_req k \<circ> fst) rqs"
    and found: "coll_find cust_id k (customers d) = Some c"
  shows "\<exists>c'. coll_find cust_id k (customers d') = Some c' \<and>
     wallet c' = wallet c + (\<Sum>j\<in>succ_set ps. wallet_delta (rate_discount c) (fst (rqs ! j)))"
proof -
  let ?ds = "map (wallet_delta (rate_discount c) \<circ> fst) rqs"
  have "lock_inv k (rate_discount c) (wallet c) ?ds (ps, d')"
    using run lock_inv_init [OF found reqs]
    by (induction rule: rtranclp_induct) (auto intro: lock_inv_step)
  then obtain c' where len: "length rqs = length ps"
    and db: "coll_find cust_id k (customers d') = Some c'"
      "wallet c' = wallet c + (\<Sum>j\<in>succ_set ps. ?ds ! j)"
    unfolding lock_inv_def by auto
  have "(\<Sum>j\<in>succ_set ps. ?ds ! j) = (\<Sum>j\<in>succ_set ps. wallet_delta (rate_discount c) (fst (rqs ! j)))"
    using len by (intro sum.cong) (auto simp: succ_set_def)
  with db show ?thesis by auto
qed

text \<open>C39: The serialized server never deadlocks: while some request is unfinished, one can take a step, since a request that holds a customer's lock is never waiting for one.\<close>

theorem locked_progress:
  assumes "\<not> list_all finished ps"
  shows "\<exists>s'. locked_step bcrypt (ps, d) s'"
proof -
  have stepI: "\<exists>s'. locked_step bcrypt (ps, d) s'"
    if "j < length ps" "\<not> finished (ps ! j)"
       "case wants (ps ! j) of Some k \<Rightarrow> lock_free k ps | None \<Rightarrow> True" for j
  proof -
    obtain p' d' where "proc_step bcrypt (ps ! j) d = (p', d')" by fastforce
    then have "locked_step bcrypt (ps, d) (ps[j := p'], d')" by (rule locked_step.step [OF that])
    then show ?thesis by blast
  qed
  from assms obtain i where i: "i < length ps" "\<not> finished (ps ! i)" by (auto simp: list_all_length)
  show ?thesis
  proof (cases "case wants (ps ! i) of Some k \<Rightarrow> lock_free k ps | None \<Rightarrow> True")
    case True
    with i show ?thesis by (rule stepI)
  next
    case False
    then obtain k where "\<not> lock_free k ps" by (auto split: option.splits)
    then obtain j where j: "j < length ps" "locks (ps ! j) = Some k"
      by (auto simp: lock_free_def list_all_length)
    with locks_busy [of "ps ! j"] show ?thesis by (intro stepI [of j]) auto
  qed
qed

section \<open>Concrete runs\<close>

theorem locked_exact_witness:
  "(locked_step rev)\<^sup>*\<^sup>* ([Ready (Purchase (Oid 0) (JStr ''book'') (JNum 100)) 1,
                          Ready (Purchase (Oid 0) (JStr ''pen'') (JNum 100)) 2], sample_db)
     ([Finished (Inr (reply 200 (JsonOrder (new_order 1 0 (Some ''book'') 80 1)))),
       Finished (Inr insufficient)],
      \<lparr>customers = [sample_customer\<lparr>wallet := 20\<rparr>], orders = [new_order 1 0 (Some ''book'') 80 1],
       next_oid = 2\<rparr>) \<and>
   coll_find cust_id 0 (customers sample_db) = Some sample_customer \<and>
   (20::real) = 100 + (\<Sum>j\<in>{0}. [- 80, - 80] ! j)"
proof -
  let ?P1 = "Ready (Purchase (Oid 0) (JStr ''book'') (JNum 100)) 1"
  let ?P2 = "Ready (Purchase (Oid 0) (JStr ''pen'') (JNum 100)) 2"
  let ?L1 = "PurchaseLoaded sample_customer (JStr ''book'') (JNum 100) 1"
  let ?S1 = "PurchaseSaved sample_customer (JStr ''book'') (Num 80) 1"
  let ?o1 = "new_order 1 0 (Some ''book'') 80 1"
  let ?F1 = "Finished (Inr (reply 200 (JsonOrder ?o1)))"
  let ?c20 = "sample_customer\<lparr>wallet := 20\<rparr>"
  let ?L2 = "PurchaseLoaded ?c20 (JStr ''pen'') (JNum 100) 2"
  let ?F2 = "Finished (Inr insufficient)"
  let ?d1 = "sample_db\<lparr>customers := [?c20]\<rparr>"
  let ?d2 = "\<lparr>customers = [?c20], orders = [?o1], next_oid = 2\<rparr>"
  have price: "final_price (Some 20) (JNum 100) = Num 80" by (simp add: final_price_def)
  have 1: "locked_step rev ([?P1, ?P2], sample_db) ([?L1, ?P2], sample_db)"
    using locked_step.step [of 0 "[?P1, ?P2]" rev sample_db ?L1 sample_db]
    by (simp add: sample_simps lock_free_def)
  have 2: "locked_step rev ([?L1, ?P2], sample_db) ([?S1, ?P2], ?d1)"
    using locked_step.step [of 0 "[?L1, ?P2]" rev sample_db ?S1 ?d1]
    by (simp add: sample_simps save_customer_def price)
  have 3: "locked_step rev ([?S1, ?P2], ?d1) ([?F1, ?P2], ?d2)"
    using locked_step.step [of 0 "[?S1, ?P2]" rev ?d1 ?F1 ?d2]
    by (simp add: sample_simps alloc_oid_def insert_order_def Let_def)
  have 4: "locked_step rev ([?F1, ?P2], ?d2) ([?F1, ?L2], ?d2)"
    using locked_step.step [of 1 "[?F1, ?P2]" rev ?d2 ?L2 ?d2]
    by (simp add: sample_simps lock_free_def)
  have 5: "locked_step rev ([?F1, ?L2], ?d2) ([?F1, ?F2], ?d2)"
    using locked_step.step [of 1 "[?F1, ?L2]" rev ?d2 ?F2 ?d2]
    by (simp add: sample_simps price Let_def)
  have reach: "(locked_step rev)\<^sup>*\<^sup>* ([?P1, ?P2], sample_db) ([?F1, ?F2], ?d2)"
    using 1 2 3 4 5 by (meson rtranclp.rtrancl_into_rtrancl rtranclp.rtrancl_refl)
  have run: "(locked_step rev)\<^sup>*\<^sup>* (map (\<lambda>(rq, now). Ready rq now)
      [(Purchase (Oid 0) (JStr ''book'') (JNum 100), 1), (Purchase (Oid 0) (JStr ''pen'') (JNum 100), 2)],
      sample_db) ([?F1, ?F2], ?d2)"
    using reach by simp
  have reqs: "list_all (wallet_req 0 \<circ> fst)
      [(Purchase (Oid 0) (JStr ''book'') (JNum 100), 1), (Purchase (Oid 0) (JStr ''pen'') (JNum 100), 2::int)]"
    by simp
  have succ: "succ_set [?F1, ?F2] = {0}"
    by (auto simp: succ_set_def insufficient_def reply_def less_Suc_eq)
  from locked_exact [OF run reqs sample_found] show ?thesis
    using reach sample_found by (simp add: succ sample_simps price)
qed

theorem locked_progress_witness:
  "\<not> list_all finished [Ready Home 0] \<and> (\<exists>s'. locked_step rev ([Ready Home 0], sample_db) s')"
  using locked_progress [of "[Ready Home 0]" rev sample_db] by simp

end
