(* ===== verification/Json.thy ===== *)
theory Json
  imports JsString
begin

text \<open>
  The JSON layer in front of the handlers. \<open>app.use(express.json())\<close> (line 13 of
  \<open>src/index.js\<close>) turns a request body into a JavaScript value with \<open>JSON.parse\<close>,
  and \<open>res.json\<close> turns a handler's result back into text with \<open>JSON.stringify\<close>.
  \<open>json\<close> is the value \<open>JSON.parse\<close> builds. Its objects are lists of properties in
  JavaScript's property order: integer-like keys first, in ascending order, then the
  other keys in the order they were created. \<open>JSON.parse\<close> is modelled as a lexer
  (\<open>lex_go\<close>, a character-by-character state machine) and a token-stack parser
  (\<open>parse_tokens\<close>, one step per token over a stack of open arrays and objects).
  Both are structurally recursive, so \<open>json_parse\<close> is total. Together they accept
  exactly the JSON texts of ECMA-404, and a repeated key keeps the last value in the
  position of the first, as \<open>JSON.parse\<close> does. The characters of the model are 8-bit.
  A \<open>\u\<close> escape above \<open>00FF\<close> has no character of the model, and the parser then
  answers \<open>WideEscape\<close>, the edge of the model. The lemmas show that the printer and the
  parser are inverse on the flat objects a client sends as a request body.
\<close>

section \<open>JSON values\<close>

datatype json =
    JVNum jsnum
  | JVStr string
  | JVBool bool
  | JVNull
  | JVArr "json list"
  | JVObj "(string \<times> json) list"

text \<open>Why a text is not read: a syntax error, or a character the model cannot hold.\<close>

datatype jerr = SyntaxErr | WideEscape

section \<open>Property order of JavaScript objects\<close>

text \<open>
  An array index is the canonical decimal form of a number below \<open>2^32 - 1\<close>. Such keys
  come first in an object's property order, in ascending numeric order.
\<close>

definition array_index :: "string \<Rightarrow> nat option" where
  "array_index k =
     (case int_digits k of
        Some n \<Rightarrow> if nat_digits n = k \<and> n < 4294967295 then Some n else None
      | None \<Rightarrow> None)"

definition goes_before :: "string \<Rightarrow> string \<Rightarrow> bool" where
  "goes_before k k' =
     (case array_index k of
        None \<Rightarrow> False
      | Some n \<Rightarrow> (case array_index k' of None \<Rightarrow> True | Some n' \<Rightarrow> n < n'))"

text \<open>
  CreateDataProperty on an object built by \<open>JSON.parse\<close>: an existing key keeps its
  place and takes the new value; a new key is placed by the property order.
\<close>

fun obj_set :: "string \<Rightarrow> json \<Rightarrow> (string \<times> json) list \<Rightarrow> (string \<times> json) list" where
  "obj_set k v [] = [(k, v)]"
| "obj_set k v ((k', v') # kvs) =
     (if k' = k then (k, v) # kvs
      else if goes_before k k' then (k, v) # (k', v') # kvs
      else (k', v') # obj_set k v kvs)"

section \<open>Lexer\<close>

datatype token =
    TLBrace | TRBrace | TLBrack | TRBrack | TColon | TComma
  | TStr string | TNum jsnum | TTrue | TFalse | TNull

definition json_space :: "char \<Rightarrow> bool" where
  "json_space c \<longleftrightarrow> of_char c \<in> {9, 10, 13, 32 :: nat}"

definition is_digit :: "char \<Rightarrow> bool" where
  "is_digit c \<longleftrightarrow> digit_val 10 c \<noteq> None"

definition num_char :: "char \<Rightarrow> bool" where
  "num_char c \<longleftrightarrow> is_digit c \<or> c \<in> set ''+-.eE''"

text \<open>The number grammar of JSON: \<open>-? (0 | [1-9][0-9]* ) (. [0-9]+)? ([eE] [+-]? [0-9]+)?\<close>.\<close>

fun exp_ok :: "string \<Rightarrow> bool" where
  "exp_ok [] = True"
| "exp_ok (e # t) =
     ((e = CHR ''e'' \<or> e = CHR ''E'') \<and>
      (let u = (case t of s # u \<Rightarrow> if s = CHR ''+'' \<or> s = CHR ''-'' then u else t | [] \<Rightarrow> t)
       in u \<noteq> [] \<and> list_all is_digit u))"

definition frac_exp_ok :: "string \<Rightarrow> bool" where
  "frac_exp_ok r =
     (case r of
        c # t \<Rightarrow>
          if c = CHR ''.'' then t \<noteq> [] \<and> is_digit (hd t) \<and> exp_ok (dropWhile is_digit t)
          else exp_ok r
      | [] \<Rightarrow> True)"

definition json_num_ok :: "string \<Rightarrow> bool" where
  "json_num_ok s =
     (let u = (case s of c # r \<Rightarrow> if c = CHR ''-'' then r else s | [] \<Rightarrow> s)
      in case u of
           [] \<Rightarrow> False
         | d # r \<Rightarrow> if d = CHR ''0'' then frac_exp_ok r
                    else is_digit d \<and> frac_exp_ok (dropWhile is_digit r))"

definition num_token :: "string \<Rightarrow> jerr + token" where
  "num_token s = (if json_num_ok s then Inr (TNum (str_to_number s)) else Inl SyntaxErr)"

text \<open>The escapes of a JSON string other than \<open>\u\<close>.\<close>

definition esc_char :: "char \<Rightarrow> char option" where
  "esc_char c =
     (if c = CHR 0x22 \<or> c = CHR 0x5C \<or> c = CHR ''/'' then Some c
      else if c = CHR ''b'' then Some (char_of (8 :: nat))
      else if c = CHR ''f'' then Some (char_of (12 :: nat))
      else if c = CHR ''n'' then Some (char_of (10 :: nat))
      else if c = CHR ''r'' then Some (char_of (13 :: nat))
      else if c = CHR ''t'' then Some (char_of (9 :: nat))
      else None)"

text \<open>
  States of the lexer: between tokens, inside a string (the characters read so far,
  reversed), after a backslash, inside a \<open>\u\<close> escape, inside a number (its characters,
  reversed), inside a literal (the characters still expected).
\<close>

datatype lstate = LNorm | LStr string | LEsc string | LUni string "nat list" | LNum string
  | LLit string token

definition norm_char :: "char \<Rightarrow> jerr + lstate \<times> token list" where
  "norm_char c =
     (if json_space c then Inr (LNorm, [])
      else if c = CHR ''{'' then Inr (LNorm, [TLBrace])
      else if c = CHR ''}'' then Inr (LNorm, [TRBrace])
      else if c = CHR ''['' then Inr (LNorm, [TLBrack])
      else if c = CHR '']'' then Inr (LNorm, [TRBrack])
      else if c = CHR '':'' then Inr (LNorm, [TColon])
      else if c = CHR '','' then Inr (LNorm, [TComma])
      else if c = CHR 0x22 then Inr (LStr [], [])
      else if c = CHR ''t'' then Inr (LLit ''rue'' TTrue, [])
      else if c = CHR ''f'' then Inr (LLit ''alse'' TFalse, [])
      else if c = CHR ''n'' then Inr (LLit ''ull'' TNull, [])
      else if c = CHR ''-'' \<or> is_digit c then Inr (LNum [c], [])
      else Inl SyntaxErr)"

fun lstep :: "lstate \<Rightarrow> char \<Rightarrow> jerr + lstate \<times> token list" where
  "lstep LNorm c = norm_char c"
| "lstep (LStr acc) c =
     (if c = CHR 0x22 then Inr (LNorm, [TStr (rev acc)])
      else if c = CHR 0x5C then Inr (LEsc acc, [])
      else if of_char c < (32 :: nat) then Inl SyntaxErr
      else Inr (LStr (c # acc), []))"
| "lstep (LEsc acc) c =
     (if c = CHR ''u'' then Inr (LUni acc [], [])
      else case esc_char c of Some e \<Rightarrow> Inr (LStr (e # acc), []) | None \<Rightarrow> Inl SyntaxErr)"
| "lstep (LUni acc ds) c =
     (case digit_val 16 c of
        None \<Rightarrow> Inl SyntaxErr
      | Some x \<Rightarrow>
          if length ds < 3 then Inr (LUni acc (ds @ [x]), [])
          else (let v = digits_value 16 (ds @ [x])
                in if v < 256 then Inr (LStr (char_of v # acc), []) else Inl WideEscape))"
| "lstep (LNum acc) c =
     (if num_char c then Inr (LNum (c # acc), [])
      else case num_token (rev acc) of
             Inl e \<Rightarrow> Inl e
           | Inr t \<Rightarrow> (case norm_char c of Inl e \<Rightarrow> Inl e | Inr (st, ts) \<Rightarrow> Inr (st, t # ts)))"
| "lstep (LLit r t) c =
     (case r of
        [] \<Rightarrow> Inl SyntaxErr
      | x # r' \<Rightarrow> if c \<noteq> x then Inl SyntaxErr
                 else if r' = [] then Inr (LNorm, [t]) else Inr (LLit r' t, []))"

definition lfinish :: "lstate \<Rightarrow> jerr + token list" where
  "lfinish st =
     (case st of
        LNorm \<Rightarrow> Inr []
      | LNum acc \<Rightarrow> (case num_token (rev acc) of Inl e \<Rightarrow> Inl e | Inr t \<Rightarrow> Inr [t])
      | _ \<Rightarrow> Inl SyntaxErr)"

text \<open>Tokens found before the rest of the text is lexed, kept in front of its result.\<close>

definition prep :: "token list \<Rightarrow> jerr + token list \<Rightarrow> jerr + token list" where
  "prep ts r = (case r of Inl e \<Rightarrow> Inl e | Inr ts' \<Rightarrow> Inr (ts @ ts'))"

fun lex_go :: "lstate \<Rightarrow> string \<Rightarrow> jerr + token list" where
  "lex_go st [] = lfinish st"
| "lex_go st (c # cs) = (case lstep st c of Inl e \<Rightarrow> Inl e | Inr (st', ts) \<Rightarrow> prep ts (lex_go st' cs))"

section \<open>Parser\<close>

text \<open>
  An open array holds its elements so far, reversed; an open object its properties so far
  and the key whose value comes next.
\<close>

datatype frame = FArr "json list" | FObj "(string \<times> json) list" string

text \<open>
  What the parser expects next: a value; a value or \<open>]\<close> (after \<open>[\<close>); a key or \<open>}\<close>
  (after \<open>{\<close>); a key (after a comma in an object); a colon; a comma or the closing
  bracket (after a value inside an array or object). \<open>PDone\<close> holds the complete value.
\<close>

datatype pmode = PValue | PValueOrEnd | PKeyOrEnd | PKey | PColon | PAfter | PDone json

fun emit :: "json \<Rightarrow> frame list \<Rightarrow> pmode \<times> frame list" where
  "emit v [] = (PDone v, [])"
| "emit v (FArr xs # st) = (PAfter, FArr (v # xs) # st)"
| "emit v (FObj kvs k # st) = (PAfter, FObj (obj_set k v kvs) k # st)"

fun value_start :: "token \<Rightarrow> frame list \<Rightarrow> (pmode \<times> frame list) option" where
  "value_start TLBrack st = Some (PValueOrEnd, FArr [] # st)"
| "value_start TLBrace st = Some (PKeyOrEnd, FObj [] [] # st)"
| "value_start (TStr s) st = Some (emit (JVStr s) st)"
| "value_start (TNum n) st = Some (emit (JVNum n) st)"
| "value_start TTrue st = Some (emit (JVBool True) st)"
| "value_start TFalse st = Some (emit (JVBool False) st)"
| "value_start TNull st = Some (emit JVNull st)"
| "value_start _ st = None"

fun close :: "token \<Rightarrow> frame list \<Rightarrow> (pmode \<times> frame list) option" where
  "close TRBrack (FArr xs # st) = Some (emit (JVArr (rev xs)) st)"
| "close TRBrace (FObj kvs k # st) = Some (emit (JVObj kvs) st)"
| "close _ _ = None"

fun key :: "string \<Rightarrow> frame list \<Rightarrow> (pmode \<times> frame list) option" where
  "key k (FObj kvs _ # st) = Some (PColon, FObj kvs k # st)"
| "key k _ = None"

fun pstep :: "pmode \<Rightarrow> frame list \<Rightarrow> token \<Rightarrow> (pmode \<times> frame list) option" where
  "pstep PValue st t = value_start t st"
| "pstep PValueOrEnd st t = (if t = TRBrack then close t st else value_start t st)"
| "pstep PKeyOrEnd st t = (case t of TStr k \<Rightarrow> key k st | TRBrace \<Rightarrow> close t st | _ \<Rightarrow> None)"
| "pstep PKey st t = (case t of TStr k \<Rightarrow> key k st | _ \<Rightarrow> None)"
| "pstep PColon st t = (if t = TColon then Some (PValue, st) else None)"
| "pstep PAfter st t =
     (case (t, st) of
        (TComma, FArr xs # _) \<Rightarrow> Some (PValue, st)
      | (TComma, FObj kvs k # _) \<Rightarrow> Some (PKey, st)
      | _ \<Rightarrow> close t st)"
| "pstep (PDone v) st t = None"

fun parse_tokens :: "pmode \<Rightarrow> frame list \<Rightarrow> token list \<Rightarrow> json option" where
  "parse_tokens (PDone v) st [] = Some v"
| "parse_tokens m st [] = None"
| "parse_tokens m st (t # ts) =
     (case pstep m st t of None \<Rightarrow> None | Some (m', st') \<Rightarrow> parse_tokens m' st' ts)"

text \<open>\<open>JSON.parse\<close>.\<close>

definition json_parse :: "string \<Rightarrow> jerr + json" where
  "json_parse s =
     (case lex_go LNorm s of
        Inl e \<Rightarrow> Inl e
      | Inr ts \<Rightarrow> (case parse_tokens PValue [] ts of Some v \<Rightarrow> Inr v | None \<Rightarrow> Inl SyntaxErr))"

section \<open>Printer\<close>

definition hex_digit :: "nat \<Rightarrow> char" where
  "hex_digit d = ''0123456789abcdef'' ! d"

text \<open>QuoteJSONString (ECMA-262 25.5.2.3) on one character.\<close>

definition quote_char :: "char \<Rightarrow> string" where
  "quote_char c =
     (let n = of_char c :: nat
      in if n = 8 then [CHR 0x5C, CHR ''b'']
         else if n = 9 then [CHR 0x5C, CHR ''t'']
         else if n = 10 then [CHR 0x5C, CHR ''n'']
         else if n = 12 then [CHR 0x5C, CHR ''f'']
         else if n = 13 then [CHR 0x5C, CHR ''r'']
         else if c = CHR 0x22 \<or> c = CHR 0x5C then [CHR 0x5C, c]
         else if n < 32 then [CHR 0x5C, CHR ''u'', CHR ''0'', CHR ''0'', hex_digit (n div 16),
                              hex_digit (n mod 16)]
         else [c])"

definition quote :: "string \<Rightarrow> string" where
  "quote s = CHR 0x22 # concat (map quote_char s) @ [CHR 0x22]"

fun join :: "string list \<Rightarrow> string" where
  "join [] = []"
| "join [s] = s"
| "join (s # ss) = s @ '','' @ join ss"

text \<open>\<open>JSON.stringify\<close>: a number that is not finite prints as \<open>null\<close>.\<close>

fun json_print :: "json \<Rightarrow> string" where
  "json_print (JVNum n) = (case n of Num r \<Rightarrow> num_to_string r | _ \<Rightarrow> ''null'')"
| "json_print (JVStr s) = quote s"
| "json_print (JVBool b) = (if b then ''true'' else ''false'')"
| "json_print JVNull = ''null''"
| "json_print (JVArr vs) = ''['' @ join (map json_print vs) @ '']''"
| "json_print (JVObj kvs) =
     ''{'' @ join (map (\<lambda>(k, v). quote k @ '':'' @ json_print v) kvs) @ ''}''"

section \<open>Flat objects\<close>

text \<open>
  The values a client sends in the fields of a request body: strings, booleans,
  \<open>null\<close>, and integers below \<open>10^21\<close>, which \<open>JSON.stringify\<close> prints exactly.
  \<open>tok\<close> is the token of such a value, \<open>obj_toks\<close> the tokens of the properties of an
  object between its braces.
\<close>

fun flat :: "json \<Rightarrow> bool" where
  "flat (JVNum (Num r)) \<longleftrightarrow> r = of_int \<lfloor>r\<rfloor> \<and> \<bar>r\<bar> < 10 ^ 21"
| "flat (JVStr s) \<longleftrightarrow> True"
| "flat (JVBool b) \<longleftrightarrow> True"
| "flat JVNull \<longleftrightarrow> True"
| "flat _ \<longleftrightarrow> False"

fun tok :: "json \<Rightarrow> token" where
  "tok (JVNum n) = TNum n"
| "tok (JVStr s) = TStr s"
| "tok (JVBool b) = (if b then TTrue else TFalse)"
| "tok _ = TNull"

fun obj_toks :: "(string \<times> json) list \<Rightarrow> token list" where
  "obj_toks [] = []"
| "obj_toks [(k, v)] = [TStr k, TColon, tok v]"
| "obj_toks ((k, v) # kv # kvs) = [TStr k, TColon, tok v, TComma] @ obj_toks (kv # kvs)"


section \<open>Lemmas\<close>

subsection \<open>The lexer on printed values\<close>

lemma prep_simps [simp]:
  "prep [] r = r"
  "prep a (prep b r) = prep (a @ b) r"
  "prep a (Inr b) = Inr (a @ b)"
  by (cases r; simp add: prep_def)+

lemma hex_digit_val: "d < 16 \<Longrightarrow> digit_val 16 (hex_digit d) = Some d"
  by (auto simp: less_Suc_eq numeral_eq_Suc digit_val_def hex_digit_def)

lemma char_of_eq: "of_char c = (n :: nat) \<Longrightarrow> c = char_of n"
  by (metis char_of_char)

lemma lex_quote_char: "lex_go (LStr acc) (quote_char c @ r) = lex_go (LStr (c # acc)) r"
proof -
  note simps = quote_char_def Let_def esc_char_def
  consider (esc) n where "n \<in> {8, 9, 10, 12, 13}" "c = char_of (n :: nat)"
    | (qb) "c = CHR 0x22 \<or> c = CHR 0x5C"
    | (ctl) "(of_char c :: nat) \<notin> {8, 9, 10, 12, 13}" "c \<noteq> CHR 0x22" "c \<noteq> CHR 0x5C"
      "of_char c < (32 :: nat)"
    | (plain) "(of_char c :: nat) \<notin> {8, 9, 10, 12, 13}" "c \<noteq> CHR 0x22" "c \<noteq> CHR 0x5C"
      "\<not> of_char c < (32 :: nat)"
    by (metis char_of_char)
  then show ?thesis
  proof cases
    case esc
    then show ?thesis by (auto simp: simps)
  next
    case qb
    then show ?thesis by (auto simp: simps)
  next
    case ctl
    define n where "n = (of_char c :: nat)"
    then have c: "c = char_of n" by simp
    from ctl have d: "n div 16 < 16" "n mod 16 < 16" "n div 16 < 2" by (auto simp: n_def)
    have v: "digits_value 16 [0, 0, n div 16, n mod 16] = n"
      by (simp add: digits_value_def)
    from ctl have q: "quote_char c = [CHR 0x5C, CHR ''u'', CHR ''0'', CHR ''0'', hex_digit (n div 16),
        hex_digit (n mod 16)]"
      by (simp add: quote_char_def Let_def n_def)
    have z: "digit_val 16 (CHR ''0'') = Some 0" by (simp add: digit_val_def)
    have "n < 256" by (simp add: n_def)
    then show ?thesis using q d v z by (simp add: hex_digit_val c [symmetric])
  next
    case plain
    then show ?thesis by (simp add: simps)
  qed
qed

lemma lex_quote_chars:
  "lex_go (LStr acc) (concat (map quote_char s) @ r) = lex_go (LStr (rev s @ acc)) r"
  by (induction s arbitrary: acc) (simp_all add: lex_quote_char)

lemma lex_quote:
  "lex_go LNorm (quote s @ r) = prep [TStr s] (lex_go LNorm r)"
  using lex_quote_chars [of "[]" s "CHR 0x22 # r"]
  by (simp add: quote_def norm_char_def json_space_def)

lemma lex_num_chars:
  "list_all num_char s \<Longrightarrow> lex_go (LNum acc) (s @ r) = lex_go (LNum (rev s @ acc)) r"
  by (induction s arbitrary: acc) simp_all

lemma digit_num_char: "digit_val 10 c \<noteq> None \<Longrightarrow> num_char c"
  by (simp add: num_char_def is_digit_def)

lemma digit_char_zero: "d < 10 \<Longrightarrow> digit_char d = CHR ''0'' \<Longrightarrow> d = 0"
  by (simp add: digit_char_def nth_Cons' split: if_splits)

lemma nat_digits_hd: "hd (nat_digits n) = CHR ''0'' \<Longrightarrow> nat_digits n = ''0''"
proof (induction n rule: nat_digits.induct)
  case (1 n)
  show ?case
  proof (cases "n < 10")
    case True
    then have "nat_digits n = [digit_char n]" by (simp add: nat_digits.simps)
    with 1(2) True digit_char_zero [of n] show ?thesis by (simp add: digit_char_def)
  next
    case False
    then have eq: "nat_digits n = nat_digits (n div 10) @ [digit_char (n mod 10)]"
      by (simp add: nat_digits.simps)
    with 1(2) have "hd (nat_digits (n div 10)) = CHR ''0''" by simp
    with 1(1) False have "nat_digits (n div 10) = ''0''" by simp
    then have "n div 10 = 0"
      using nat_digits_value [of "n div 10"] by (simp add: digits_value_def digit_val_def)
    with False show ?thesis by simp
  qed
qed

lemma json_num_ok_digits:
  "json_num_ok (nat_digits n)" "json_num_ok (CHR ''-'' # nat_digits n)"
proof -
  obtain h t where ht: "nat_digits n = h # t" by (cases "nat_digits n") auto
  have all: "is_digit h" "list_all is_digit t"
    using nat_digits_dec [of n] ht by (auto simp: is_digit_def list_all_iff)
  have hm: "h \<noteq> CHR ''-''" using all(1) by (auto simp: is_digit_def digit_val_def)
  have dw: "dropWhile is_digit t = []" using all(2) by (simp add: dropWhile_eq_Nil_conv list_all_iff)
  have "json_num_ok (h # t) \<and> json_num_ok (CHR ''-'' # h # t)"
  proof (cases "h = CHR ''0''")
    case True
    then have "t = []" using nat_digits_hd [of n] ht by simp
    with True show ?thesis by (simp add: json_num_ok_def frac_exp_ok_def)
  next
    case False
    with all(1) hm show ?thesis by (simp add: json_num_ok_def frac_exp_ok_def dw)
  qed
  then show "json_num_ok (nat_digits n)" "json_num_ok (CHR ''-'' # nat_digits n)"
    by (simp_all add: ht)
qed

lemma digit_norm_char: "is_digit d \<Longrightarrow> norm_char d = Inr (LNum [d], [])"
proof -
  assume d: "is_digit d"
  then have b: "48 \<le> (of_char d :: nat)" "(of_char d :: nat) \<le> 57"
    unfolding is_digit_def digit_val_dec by simp_all
  then have "\<not> json_space d" by (auto simp: json_space_def)
  moreover have "d \<noteq> CHR ''{''" "d \<noteq> CHR ''}''" "d \<noteq> CHR ''[''" "d \<noteq> CHR '']''"
    "d \<noteq> CHR '':''" "d \<noteq> CHR '',''" "d \<noteq> CHR 0x22" "d \<noteq> CHR ''t''" "d \<noteq> CHR ''f''"
    "d \<noteq> CHR ''n''"
    using b by auto
  ultimately show ?thesis using d by (simp add: norm_char_def)
qed

lemma num_to_string_int_lex:
  assumes "\<bar>z\<bar> < 10 ^ 21"
  obtains h t where "num_to_string (of_int z) = h # t" "norm_char h = Inr (LNum [h], [])"
    "list_all num_char t" "json_num_ok (h # t)" "str_to_number (h # t) = Num (of_int z)"
proof -
  let ?m = "nat \<bar>z\<bar>"
  obtain d ds where dd: "nat_digits ?m = d # ds" by (cases "nat_digits ?m") auto
  have all: "list_all (\<lambda>c. digit_val 10 c \<noteq> None) (d # ds)" using nat_digits_dec [of ?m] dd by simp
  have val: "digits_value 10 (map (\<lambda>c. the (digit_val 10 c)) (d # ds)) = ?m"
    using nat_digits_value [of ?m] dd by simp
  have nd: "norm_char d = Inr (LNum [d], [])"
    using all by (intro digit_norm_char) (simp add: is_digit_def)
  have nm: "norm_char (CHR ''-'') = Inr (LNum [CHR ''-''], [])"
    by (simp add: norm_char_def json_space_def)
  have nc: "list_all num_char ds" "list_all num_char (d # ds)"
    using all by (auto simp: list_all_iff digit_num_char)
  show ?thesis
  proof (cases "z < 0")
    case True
    have eq: "num_to_string (of_int z) = CHR ''-'' # d # ds"
      using num_to_string_int [OF assms] True dd by simp
    have "str_to_number (CHR ''-'' # d # ds) = Num (- of_nat (nat \<bar>z\<bar>))"
      using str_to_number_digits(2) [OF _ all] val by simp
    also have "- of_nat (nat \<bar>z\<bar>) = (of_int z :: real)" using True by simp
    finally show ?thesis
      by (intro that [OF eq nm]) (use nc json_num_ok_digits(2) [of ?m] dd in simp_all)
  next
    case False
    have eq: "num_to_string (of_int z) = d # ds"
      using num_to_string_int [OF assms] False dd by simp
    have "str_to_number (d # ds) = Num (of_nat (nat \<bar>z\<bar>))"
      using str_to_number_digits(1) [OF _ all] val by simp
    also have "of_nat (nat \<bar>z\<bar>) = (of_int z :: real)" using False by simp
    finally show ?thesis
      by (intro that [OF eq nd]) (use nc json_num_ok_digits(1) [of ?m] dd in simp_all)
  qed
qed

lemma lex_int:
  assumes "\<bar>z\<bar> < 10 ^ 21" "\<not> num_char c" "norm_char c = Inr (LNorm, ts)"
  shows "lex_go LNorm (num_to_string (of_int z) @ c # r) =
    prep (TNum (Num (of_int z)) # ts) (lex_go LNorm r)"
proof -
  obtain h t where "num_to_string (of_int z) = h # t" "norm_char h = Inr (LNum [h], [])"
    "list_all num_char t" "json_num_ok (h # t)" "str_to_number (h # t) = Num (of_int z)"
    using num_to_string_int_lex [OF assms(1)] by blast
  then show ?thesis
    using assms(2,3) by (simp add: lex_num_chars num_token_def)
qed

lemma lex_lit:
  "lex_go LNorm (''true'' @ r) = prep [TTrue] (lex_go LNorm r)"
  "lex_go LNorm (''false'' @ r) = prep [TFalse] (lex_go LNorm r)"
  "lex_go LNorm (''null'' @ r) = prep [TNull] (lex_go LNorm r)"
  by (simp_all add: norm_char_def json_space_def)

lemma lex_flat:
  assumes "flat v" "\<not> num_char c" "norm_char c = Inr (LNorm, ts)"
  shows "lex_go LNorm (json_print v @ c # r) = prep (tok v # ts) (lex_go LNorm r)"
proof -
  have c: "lex_go LNorm (c # r) = prep ts (lex_go LNorm r)"
    using assms(3) by simp
  show ?thesis
  proof (cases v rule: flat.cases)
    case (1 x)
    with assms(1) have x: "x = of_int \<lfloor>x\<rfloor>" "\<bar>\<lfloor>x\<rfloor>\<bar> < 10 ^ 21" by auto
    have "lex_go LNorm (num_to_string (of_int \<lfloor>x\<rfloor>) @ c # r) =
        prep (TNum (Num (of_int \<lfloor>x\<rfloor>)) # ts) (lex_go LNorm r)"
      by (rule lex_int [OF x(2) assms(2,3)])
    with 1 x(1) show ?thesis by simp
  next
    case (2 s)
    with c show ?thesis by (simp add: lex_quote)
  next
    case (3 b)
    with c show ?thesis by (cases b) (simp_all add: lex_lit [where r = "c # r", simplified])
  next
    case 4
    with c show ?thesis using lex_lit(3) [where r = "c # r"] by simp
  qed (use assms(1) in simp_all)
qed

lemma lex_entries:
  assumes "kvs \<noteq> []" "list_all (flat \<circ> snd) kvs"
  shows "lex_go LNorm (join (map (\<lambda>(k, v). quote k @ '':'' @ json_print v) kvs) @ CHR ''}'' # r) =
    prep (obj_toks kvs @ [TRBrace]) (lex_go LNorm r)"
  using assms
proof (induction kvs rule: obj_toks.induct)
  case (2 k v)
  have "lex_go LNorm (json_print v @ CHR ''}'' # r) = prep [tok v, TRBrace] (lex_go LNorm r)"
    using 2 by (intro lex_flat) (simp_all add: num_char_def is_digit_def digit_val_def norm_char_def
      json_space_def)
  then show ?case
    by (simp add: lex_quote norm_char_def json_space_def)
next
  case (3 k v kv kvs)
  let ?r = "join (map (\<lambda>(k, v). quote k @ '':'' @ json_print v) (kv # kvs)) @ CHR ''}'' # r"
  have "lex_go LNorm (json_print v @ CHR '','' # ?r) = prep [tok v, TComma] (lex_go LNorm ?r)"
    using 3 by (intro lex_flat) (simp_all add: num_char_def is_digit_def digit_val_def norm_char_def
      json_space_def)
  with 3 show ?case
    by (simp add: lex_quote norm_char_def json_space_def)
qed simp

lemma lex_obj:
  assumes "list_all (flat \<circ> snd) kvs"
  shows "lex_go LNorm (json_print (JVObj kvs)) = Inr (TLBrace # obj_toks kvs @ [TRBrace])"
proof (cases "kvs = []")
  case True
  then show ?thesis by (simp add: norm_char_def json_space_def lfinish_def)
next
  case False
  from lex_entries [OF False assms, of "[]"] show ?thesis
    by (simp add: norm_char_def json_space_def lfinish_def)
qed

lemma obj_set_new:
  "k \<notin> fst ` set kvs \<Longrightarrow> array_index k = None \<Longrightarrow> obj_set k v kvs = kvs @ [(k, v)]"
  by (induction kvs) (auto simp: goes_before_def)

lemma value_start_flat: "flat v \<Longrightarrow> value_start (tok v) st = Some (emit v st)"
  by (cases v rule: flat.cases) simp_all

lemma parse_entries:
  assumes "kvs \<noteq> []" "list_all (flat \<circ> snd) kvs" "distinct (map fst (acc @ kvs))"
    "\<forall>k \<in> fst ` set kvs. array_index k = None" "m = PKeyOrEnd \<or> m = PKey"
  shows "parse_tokens m (FObj acc k0 # st) (obj_toks kvs @ TRBrace # ts) =
    (case emit (JVObj (acc @ kvs)) st of (m', st') \<Rightarrow> parse_tokens m' st' ts)"
  using assms
proof (induction kvs arbitrary: acc k0 m rule: obj_toks.induct)
  case (2 k v)
  then have "obj_set k v acc = acc @ [(k, v)]" by (intro obj_set_new) auto
  with 2 show ?case by (auto simp: value_start_flat split: prod.split)
next
  case (3 k v kv kvs)
  then have "obj_set k v acc = acc @ [(k, v)]" by (intro obj_set_new) auto
  moreover have "parse_tokens PKey (FObj (acc @ [(k, v)]) k # st) (obj_toks (kv # kvs) @ TRBrace # ts) =
      (case emit (JVObj ((acc @ [(k, v)]) @ kv # kvs)) st of (m', st') \<Rightarrow> parse_tokens m' st' ts)"
    using 3 by (intro "3.IH") auto
  ultimately show ?case using 3 by (auto simp: value_start_flat)
qed simp


subsection \<open>Round trip\<close>

text \<open>
  A flat object with distinct keys, none of them an array index, is read back by
  \<open>JSON.parse\<close> exactly as \<open>JSON.stringify\<close> printed it.
\<close>

lemma json_flat_roundtrip:
  assumes "list_all (flat \<circ> snd) kvs" "distinct (map fst kvs)"
    "\<forall>k \<in> fst ` set kvs. array_index k = None"
  shows "json_parse (json_print (JVObj kvs)) = Inr (JVObj kvs)"
proof (cases "kvs = []")
  case True
  then show ?thesis unfolding json_parse_def lex_obj [OF assms(1)] by simp
next
  case False
  from parse_entries [OF False assms(1) _ assms(3), of "[]" PKeyOrEnd "[]" "[]" "[]"] assms(2)
  show ?thesis unfolding json_parse_def lex_obj [OF assms(1)] by simp
qed

end
