(* ===== verification/Http.thy ===== *)
theory Http
  imports App Json "HOL-Library.Monad_Syntax"
begin

text \<open>
  The Express application around the handlers (lines 11--13 and the route paths of
  \<open>src/index.js\<close>). A request is a method, a URL and a body. \<open>express.json()\<close> runs
  first, for every request: it reads a JSON body up to 100 kb, answers 413 above that,
  and answers 400 on text that is not JSON or whose top level is not an object or an
  array (strict mode). Then the router matches the path against the route paths:
  case-insensitive literals, one optional trailing slash, and \<open>:id\<close> a non-empty
  segment decoded with \<open>decodeURIComponent\<close>. A path that matches a route path
  whose id does not decode is answered 400 whatever its method. A request that no
  route takes is answered 404. A matched handler destructures \<open>req.body\<close>, which is
  \<open>undefined\<close> when no JSON body was parsed (Express 5), and that throws a
  \<open>TypeError\<close>. \<open>serve\<close> composes these steps with \<open>handle\<close> of \<open>App\<close>. It is \<open>None\<close>
  where the request leaves the model: a body field holding an array or an object, or a
  \<open>\u\<close> escape above \<open>00FF\<close>. The status pages of Express's final handler are
  modelled by their message text.
\<close>

section \<open>Requests\<close>

datatype http_method = GET | POST | PUT | DELETE

text \<open>
  The body as \<open>express.json()\<close> sees it: none, or of another content type
  (\<open>NoJson\<close>), or a JSON body, as decoded text.
\<close>

datatype http_body = NoJson | JsonText string

record http_request =
  req_method :: http_method
  req_url :: string
  req_body :: http_body

section \<open>\<open>express.json()\<close>\<close>

text \<open>The size of a body in bytes: a character is one byte of UTF-8 below 128, two above.\<close>

definition utf8_length :: "string \<Rightarrow> nat" where
  "utf8_length s = sum_list (map (\<lambda>c. if of_char c < (128 :: nat) then 1 else 2) s)"

definition body_limit :: nat where
  "body_limit = 102400"

definition strict_first :: "string \<Rightarrow> bool" where
  "strict_first s =
     (case dropWhile json_space s of c # _ \<Rightarrow> c = CHR ''{'' \<or> c = CHR ''['' | [] \<Rightarrow> False)"

datatype body_result = BodyOk "json option" | BodyError nat | BodyWide

definition read_body :: "http_body \<Rightarrow> body_result" where
  "read_body b =
     (case b of
        NoJson \<Rightarrow> BodyOk None
      | JsonText s \<Rightarrow>
          if body_limit < utf8_length s then BodyError 413
          else if s = [] then BodyOk (Some (JVObj []))
          else if \<not> strict_first s then BodyError 400
          else (case json_parse s of
                  Inr v \<Rightarrow> BodyOk (Some v)
                | Inl SyntaxErr \<Rightarrow> BodyError 400
                | Inl WideEscape \<Rightarrow> BodyWide))"

section \<open>Path parameters\<close>

fun pct_byte :: "string \<Rightarrow> (nat \<times> string) option" where
  "pct_byte (p # h1 # h2 # r) =
     (if p \<noteq> CHR ''%'' then None
      else case (digit_val 16 h1, digit_val 16 h2) of
             (Some a, Some b) \<Rightarrow> Some (16 * a + b, r)
           | _ \<Rightarrow> None)"
| "pct_byte _ = None"

fun cont_bytes :: "nat \<Rightarrow> string \<Rightarrow> (nat list \<times> string) option" where
  "cont_bytes 0 s = Some ([], s)"
| "cont_bytes (Suc n) s =
     (case pct_byte s of
        Some (b, r) \<Rightarrow>
          if 128 \<le> b \<and> b < 192 then
            (case cont_bytes n r of Some (bs, r') \<Rightarrow> Some (b # bs, r') | None \<Rightarrow> None)
          else None
      | None \<Rightarrow> None)"

text \<open>The continuation bytes a UTF-8 leading byte announces, and its payload bits.\<close>

definition utf8_lead :: "nat \<Rightarrow> (nat \<times> nat) option" where
  "utf8_lead b =
     (if 192 \<le> b \<and> b < 224 then Some (1, b - 192)
      else if 224 \<le> b \<and> b < 240 then Some (2, b - 224)
      else if 240 \<le> b \<and> b < 248 then Some (3, b - 240)
      else None)"

definition utf8_ok :: "nat \<Rightarrow> nat \<Rightarrow> bool" where
  "utf8_ok n v \<longleftrightarrow> [128, 2048, 65536] ! (n - 1) \<le> v \<and> \<not> (55296 \<le> v \<and> v \<le> 57343) \<and> v \<le> 1114111"

text \<open>\<open>decodeURIComponent\<close>: the code points of the decoded string, \<open>None\<close> for a URIError.\<close>

function uri_decode :: "string \<Rightarrow> nat list option" where
  "uri_decode [] = Some []"
| "uri_decode (c # cs) =
     (if c \<noteq> CHR ''%'' then map_option (Cons (of_char c)) (uri_decode cs)
      else case pct_byte (c # cs) of
             None \<Rightarrow> None
           | Some (b, r) \<Rightarrow>
               if b < 128 then map_option (Cons b) (uri_decode r)
               else case utf8_lead b of
                      None \<Rightarrow> None
                    | Some (n, v0) \<Rightarrow>
                        (case cont_bytes n r of
                           None \<Rightarrow> None
                         | Some (bs, r') \<Rightarrow>
                             (let v = foldl (\<lambda>a x. a * 64 + (x - 128)) v0 bs
                              in if utf8_ok n v then map_option (Cons v) (uri_decode r') else None)))"
  by pat_completeness auto
termination
proof -
  have p: "length r < length s" if "pct_byte s = Some (b, r)" for s b r
    using that by (induction s rule: pct_byte.induct) (auto split: if_splits option.splits)
  have c: "length r \<le> length s" if "cont_bytes n s = Some (bs, r)" for n s bs r
    using that
    by (induction n arbitrary: s bs) (fastforce dest: p split: option.splits if_splits)+
  show ?thesis
    by (relation "measure length") (fastforce dest: p c)+
qed

text \<open>
  The Mongoose cast of a path id to an \<open>ObjectId\<close> (bson 5 and later): 24 hexadecimal
  digits, in either case, are the 96-bit number they spell; anything else is malformed.
\<close>

definition hex_cp :: "nat \<Rightarrow> nat option" where
  "hex_cp n =
     (if 48 \<le> n \<and> n \<le> 57 then Some (n - 48)
      else if 97 \<le> n \<and> n \<le> 102 then Some (n - 87)
      else if 65 \<le> n \<and> n \<le> 70 then Some (n - 55)
      else None)"

definition cast_path_id :: "nat list \<Rightarrow> req_id" where
  "cast_path_id cs =
     (if length cs = 24 \<and> (\<forall>x \<in> set cs. hex_cp x \<noteq> None)
      then Oid (digits_value 16 (map (\<lambda>x. the (hex_cp x)) cs)) else Malformed)"

text \<open>An \<open>ObjectId\<close> as \<open>toHexString\<close> prints it in \<open>res.json\<close>: 24 lower-case digits.\<close>

definition oid_hex :: "oid \<Rightarrow> string" where
  "oid_hex i = map (\<lambda>k. hex_digit (i div 16 ^ k mod 16)) (rev [0..<24])"

section \<open>Routing\<close>

datatype route =
    RHome | RCreate | RListCustomers | RGet req_id | RUpdate req_id | RDelete req_id
  | RTopUp req_id | RDiscount req_id | RPurchase req_id | RListOrders | RCustomerOrders req_id

datatype route_match = NoRoute | BadParam | Matched route

definition lower_ascii :: "char \<Rightarrow> char" where
  "lower_ascii c =
     (let n = of_char c :: nat in if 65 \<le> n \<and> n \<le> 90 then char_of (n + 32) else c)"

definition lit :: "string \<Rightarrow> string \<Rightarrow> bool" where
  "lit s p \<longleftrightarrow> map lower_ascii s = p"

fun split_path :: "string \<Rightarrow> string list" where
  "split_path [] = [[]]"
| "split_path (c # cs) =
     (let ss = split_path cs in if c = CHR ''/'' then [] # ss else (c # hd ss) # tl ss)"

text \<open>
  The segments of the path of a URL (the part before \<open>?\<close>), with one trailing empty
  segment dropped: the route paths are not strict about a final slash.
\<close>

definition segments :: "string \<Rightarrow> string list option" where
  "segments url =
     (case takeWhile (\<lambda>c. c \<noteq> CHR ''?'') url of
        c # r \<Rightarrow>
          if c = CHR ''/'' then
            (let ss = split_path r in Some (if last ss = [] then butlast ss else ss))
          else None
      | [] \<Rightarrow> None)"

text \<open>
  The route paths of the application, without their methods. \<open>PId\<close> holds the raw id
  segment of the five paths with \<open>:id\<close>.
\<close>

datatype path_shape = PHome | PCustomers | POrders | PId string string

fun shape :: "string list \<Rightarrow> path_shape option" where
  "shape [] = Some PHome"
| "shape [a] =
     (if lit a ''customers'' then Some PCustomers else if lit a ''orders'' then Some POrders
      else None)"
| "shape [a, i] = (if lit a ''customers'' \<and> i \<noteq> [] then Some (PId i []) else None)"
| "shape [a, i, b] =
     (if lit a ''customers'' \<and> i \<noteq> [] \<and>
         (lit b ''topup'' \<or> lit b ''discount'' \<or> lit b ''purchase'' \<or> lit b ''orders'')
      then Some (PId i (map lower_ascii b)) else None)"
| "shape _ = None"

fun dispatch :: "http_method \<Rightarrow> path_shape \<Rightarrow> req_id \<Rightarrow> route option" where
  "dispatch GET PHome r = Some RHome"
| "dispatch POST PCustomers r = Some RCreate"
| "dispatch GET PCustomers r = Some RListCustomers"
| "dispatch GET POrders r = Some RListOrders"
| "dispatch GET (PId _ s) r = (if s = [] then Some (RGet r) else if s = ''orders'' then Some (RCustomerOrders r) else None)"
| "dispatch PUT (PId _ s) r = (if s = [] then Some (RUpdate r) else None)"
| "dispatch DELETE (PId _ s) r = (if s = [] then Some (RDelete r) else None)"
| "dispatch POST (PId _ s) r =
     (if s = ''topup'' then Some (RTopUp r) else if s = ''discount'' then Some (RDiscount r)
      else if s = ''purchase'' then Some (RPurchase r) else None)"
| "dispatch _ _ _ = None"

text \<open>
  The router: the id of a matching route path is decoded before the method is looked at,
  so a bad escape is answered 400 on every method.
\<close>

definition match_route :: "http_method \<Rightarrow> string \<Rightarrow> route_match" where
  "match_route m url =
     (case segments url \<bind> shape of
        None \<Rightarrow> NoRoute
      | Some sh \<Rightarrow>
          (case sh of
             PId i _ \<Rightarrow>
               (case uri_decode i of
                  None \<Rightarrow> BadParam
                | Some cs \<Rightarrow>
                    (case dispatch m sh (cast_path_id cs) of None \<Rightarrow> NoRoute | Some r \<Rightarrow> Matched r))
           | _ \<Rightarrow> (case dispatch m sh Malformed of None \<Rightarrow> NoRoute | Some r \<Rightarrow> Matched r)))"

section \<open>Handlers reading the body\<close>

fun to_jsval :: "json \<Rightarrow> jsval option" where
  "to_jsval (JVNum (Num r)) = Some (JNum r)"
| "to_jsval (JVStr s) = Some (JStr s)"
| "to_jsval (JVBool b) = Some (JBool b)"
| "to_jsval JVNull = Some JNull"
| "to_jsval _ = None"

text \<open>A property of the parsed body: \<open>undefined\<close> when absent or when the body is an array.\<close>

fun prop_get :: "json \<Rightarrow> string \<Rightarrow> jsval option" where
  "prop_get (JVObj kvs) k = (case map_of kvs k of None \<Rightarrow> Some JUndef | Some v \<Rightarrow> to_jsval v)"
| "prop_get _ k = Some JUndef"

text \<open>\<open>const { ... } = req.body\<close>: a \<open>TypeError\<close> when there is no parsed body.\<close>

definition with_body :: "json option \<Rightarrow> (json \<Rightarrow> request option) \<Rightarrow> (failure + request) option" where
  "with_body b f =
     (case b of
        None \<Rightarrow> Some (Inl TypeError)
      | Some JVNull \<Rightarrow> Some (Inl TypeError)
      | Some v \<Rightarrow> map_option Inr (f v))"

fun request_of :: "route \<Rightarrow> json option \<Rightarrow> (failure + request) option" where
  "request_of RHome b = Some (Inr Home)"
| "request_of RCreate b = with_body b (\<lambda>v. do {
       n \<leftarrow> prop_get v ''name''; e \<leftarrow> prop_get v ''email'';
       pw \<leftarrow> prop_get v ''password''; ph \<leftarrow> prop_get v ''phone'';
       Some (CreateCustomer n e pw ph) })"
| "request_of RListCustomers b = Some (Inr ListCustomers)"
| "request_of (RGet r) b = Some (Inr (GetCustomer r))"
| "request_of (RUpdate r) b = with_body b (\<lambda>v. do {
       n \<leftarrow> prop_get v ''name''; e \<leftarrow> prop_get v ''email'';
       pw \<leftarrow> prop_get v ''password''; ph \<leftarrow> prop_get v ''phone'';
       Some (UpdateCustomer r n e pw ph) })"
| "request_of (RDelete r) b = Some (Inr (DeleteCustomer r))"
| "request_of (RTopUp r) b = with_body b (\<lambda>v. do {
       w \<leftarrow> prop_get v ''wallet_topup''; Some (TopUp r w) })"
| "request_of (RDiscount r) b = with_body b (\<lambda>v. do {
       x \<leftarrow> prop_get v ''rate_discount''; Some (SetDiscount r x) })"
| "request_of (RPurchase r) b = with_body b (\<lambda>v. do {
       pn \<leftarrow> prop_get v ''product_name''; pr \<leftarrow> prop_get v ''product_price'';
       Some (Purchase r pn pr) })"
| "request_of RListOrders b = Some (Inr ListOrders)"
| "request_of (RCustomerOrders r) b = Some (Inr (CustomerOrders r))"

section \<open>The server\<close>

fun method_name :: "http_method \<Rightarrow> string" where
  "method_name GET = ''GET''"
| "method_name POST = ''POST''"
| "method_name PUT = ''PUT''"
| "method_name DELETE = ''DELETE''"

definition status_text :: "nat \<Rightarrow> string" where
  "status_text n = (if n = 400 then ''Bad Request'' else if n = 413 then ''Payload Too Large'' else [])"

definition error_page :: "nat \<Rightarrow> response" where
  "error_page n = reply n (Text (status_text n))"

definition serve :: "(string \<Rightarrow> string) \<Rightarrow> int \<Rightarrow> http_request \<Rightarrow> db \<Rightarrow> outcome option" where
  "serve bcrypt now hr d =
     (case read_body (req_body hr) of
        BodyError n \<Rightarrow> Some (Inr (error_page n), d)
      | BodyWide \<Rightarrow> None
      | BodyOk b \<Rightarrow>
          (case match_route (req_method hr) (req_url hr) of
             NoRoute \<Rightarrow>
               Some (Inr (reply 404 (Text (''Cannot '' @ method_name (req_method hr) @ '' '' @
                 takeWhile (\<lambda>c. c \<noteq> CHR ''?'') (req_url hr)))), d)
           | BadParam \<Rightarrow> Some (Inr (error_page 400), d)
           | Matched r \<Rightarrow>
               (case request_of r b of
                  None \<Rightarrow> None
                | Some (Inl e) \<Rightarrow> Some (Inl e, d)
                | Some (Inr rq) \<Rightarrow> Some (handle bcrypt now rq d))))"


text \<open>A path segment with no \<open>/\<close> and no \<open>?\<close>.\<close>

definition plain_seg :: "string \<Rightarrow> bool" where
  "plain_seg s \<longleftrightarrow> s \<noteq> [] \<and> CHR ''/'' \<notin> set s \<and> CHR ''?'' \<notin> set s"

section \<open>Requests as a client sends them\<close>

text \<open>
  The HTTP form of a request of the route table: its method, its path with the id as
  the 24 hex digits \<open>res.json\<close> prints (a malformed id as \<open>x\<close>), and its fields as a
  JSON object printed by \<open>JSON.stringify\<close>, which leaves out an \<open>undefined\<close> field.
\<close>

fun jsval_json :: "jsval \<Rightarrow> json option" where
  "jsval_json (JNum r) = Some (JVNum (Num r))"
| "jsval_json (JStr s) = Some (JVStr s)"
| "jsval_json (JBool b) = Some (JVBool b)"
| "jsval_json JNull = Some JVNull"
| "jsval_json JUndef = None"

fun fields_json :: "(string \<times> jsval) list \<Rightarrow> (string \<times> json) list" where
  "fields_json [] = []"
| "fields_json ((k, v) # fs) =
     (case jsval_json v of None \<Rightarrow> fields_json fs | Some j \<Rightarrow> (k, j) # fields_json fs)"

fun body_fields :: "request \<Rightarrow> (string \<times> jsval) list" where
  "body_fields (CreateCustomer n e pw ph) =
     [(''name'', n), (''email'', e), (''password'', pw), (''phone'', ph)]"
| "body_fields (UpdateCustomer r n e pw ph) =
     [(''name'', n), (''email'', e), (''password'', pw), (''phone'', ph)]"
| "body_fields (TopUp r v) = [(''wallet_topup'', v)]"
| "body_fields (SetDiscount r v) = [(''rate_discount'', v)]"
| "body_fields (Purchase r pn pr) = [(''product_name'', pn), (''product_price'', pr)]"
| "body_fields _ = []"

fun id_segment :: "req_id \<Rightarrow> string" where
  "id_segment (Oid i) = oid_hex i"
| "id_segment Malformed = ''x''"

fun http_of :: "request \<Rightarrow> http_request" where
  "http_of Home = \<lparr>req_method = GET, req_url = ''/'', req_body = NoJson\<rparr>"
| "http_of (CreateCustomer n e pw ph) = \<lparr>req_method = POST, req_url = ''/customers'',
     req_body = JsonText (json_print (JVObj (fields_json (body_fields (CreateCustomer n e pw ph)))))\<rparr>"
| "http_of ListCustomers = \<lparr>req_method = GET, req_url = ''/customers'', req_body = NoJson\<rparr>"
| "http_of (GetCustomer r) =
     \<lparr>req_method = GET, req_url = ''/customers/'' @ id_segment r, req_body = NoJson\<rparr>"
| "http_of (UpdateCustomer r n e pw ph) = \<lparr>req_method = PUT, req_url = ''/customers/'' @ id_segment r,
     req_body = JsonText (json_print (JVObj (fields_json (body_fields (UpdateCustomer r n e pw ph)))))\<rparr>"
| "http_of (DeleteCustomer r) =
     \<lparr>req_method = DELETE, req_url = ''/customers/'' @ id_segment r, req_body = NoJson\<rparr>"
| "http_of (TopUp r v) = \<lparr>req_method = POST, req_url = ''/customers/'' @ id_segment r @ ''/topup'',
     req_body = JsonText (json_print (JVObj (fields_json (body_fields (TopUp r v)))))\<rparr>"
| "http_of (SetDiscount r v) = \<lparr>req_method = POST, req_url = ''/customers/'' @ id_segment r @ ''/discount'',
     req_body = JsonText (json_print (JVObj (fields_json (body_fields (SetDiscount r v)))))\<rparr>"
| "http_of (Purchase r pn pr) = \<lparr>req_method = POST, req_url = ''/customers/'' @ id_segment r @ ''/purchase'',
     req_body = JsonText (json_print (JVObj (fields_json (body_fields (Purchase r pn pr)))))\<rparr>"
| "http_of ListOrders = \<lparr>req_method = GET, req_url = ''/orders'', req_body = NoJson\<rparr>"
| "http_of (CustomerOrders r) =
     \<lparr>req_method = GET, req_url = ''/customers/'' @ id_segment r @ ''/orders'', req_body = NoJson\<rparr>"

text \<open>The route a request of the route table is served by, and whether it sends a body.\<close>

fun route_of :: "request \<Rightarrow> route" where
  "route_of Home = RHome"
| "route_of (CreateCustomer n e pw ph) = RCreate"
| "route_of ListCustomers = RListCustomers"
| "route_of (GetCustomer r) = RGet r"
| "route_of (UpdateCustomer r n e pw ph) = RUpdate r"
| "route_of (DeleteCustomer r) = RDelete r"
| "route_of (TopUp r v) = RTopUp r"
| "route_of (SetDiscount r v) = RDiscount r"
| "route_of (Purchase r pn pr) = RPurchase r"
| "route_of ListOrders = RListOrders"
| "route_of (CustomerOrders r) = RCustomerOrders r"

fun has_body :: "request \<Rightarrow> bool" where
  "has_body (CreateCustomer n e pw ph) = True"
| "has_body (UpdateCustomer r n e pw ph) = True"
| "has_body (TopUp r v) = True"
| "has_body (SetDiscount r v) = True"
| "has_body (Purchase r pn pr) = True"
| "has_body _ = False"

text \<open>
  The requests the HTTP form carries exactly: ids of 96 bits, numbers that are integers
  below \<open>10^21\<close> (printed without rounding), and a body within the limit.
\<close>

fun field_ok :: "jsval \<Rightarrow> bool" where
  "field_ok (JNum r) \<longleftrightarrow> r = of_int \<lfloor>r\<rfloor> \<and> \<bar>r\<bar> < 10 ^ 21"
| "field_ok _ \<longleftrightarrow> True"

definition http_ok :: "request \<Rightarrow> bool" where
  "http_ok rq \<longleftrightarrow>
     (case request_id rq of Some (Oid i) \<Rightarrow> i < 2 ^ 96 | _ \<Rightarrow> True) \<and>
     list_all (field_ok \<circ> snd) (body_fields rq) \<and>
     (case req_body (http_of rq) of JsonText s \<Rightarrow> utf8_length s \<le> body_limit | NoJson \<Rightarrow> True)"


section \<open>Lemmas\<close>

lemma uri_decode_plain: "CHR ''%'' \<notin> set s \<Longrightarrow> uri_decode s = Some (map of_char s)"
  by (induction s) auto

lemma hex_cp_digit: "d < 16 \<Longrightarrow> hex_cp (of_char (hex_digit d)) = Some d"
  by (auto simp: less_Suc_eq numeral_eq_Suc hex_cp_def hex_digit_def)

lemma hex_digit_set: "d < 16 \<Longrightarrow> hex_digit d \<in> set ''0123456789abcdef''"
  unfolding hex_digit_def by (rule nth_mem) simp

lemma digits_value_radix:
  "digits_value b (map (\<lambda>k. i div b ^ k mod b) (rev [0..<n])) = i mod b ^ n"
proof (induction n)
  case 0
  then show ?case by (simp add: digits_value_def)
next
  case (Suc n)
  have "digits_value b (map (\<lambda>k. i div b ^ k mod b) (rev [0..<Suc n])) =
      i div b ^ n mod b * b ^ n + i mod b ^ n"
    using digits_value_append [of b "[i div b ^ n mod b]"] Suc by simp
  also have "\<dots> = i mod (b ^ n * b)"
    using mod_mult2_eq [of i "b ^ n" b] by (simp add: algebra_simps)
  also have "\<dots> = i mod b ^ Suc n" by (simp add: mult.commute)
  finally show ?case .
qed

lemma oid_hex_chars:
  "length (oid_hex i) = 24" "set (oid_hex i) \<subseteq> set ''0123456789abcdef''"
  by (auto simp: oid_hex_def simp del: set_simps intro!: hex_digit_set)

lemma cast_oid_hex:
  assumes "i < 2 ^ 96"
  shows "cast_path_id (map of_char (oid_hex i)) = Oid i"
proof -
  have h: "hex_cp (of_char (hex_digit (i div 16 ^ k mod 16))) = Some (i div 16 ^ k mod 16)" for k
    by (simp add: hex_cp_digit)
  have "digits_value 16 (map (\<lambda>k. i div 16 ^ k mod 16) (rev [0..<24])) = i"
    using assms digits_value_radix [of 16 i 24] by simp
  then show ?thesis by (simp add: cast_path_id_def oid_hex_def h comp_def)
qed

lemma split_path_not_Nil [simp]: "split_path s \<noteq> []"
  by (cases s) (simp_all add: Let_def)

lemma split_path_plain:
  "CHR ''/'' \<notin> set s \<Longrightarrow> split_path (s @ r) = (s @ hd (split_path r)) # tl (split_path r)"
  by (induction s) (auto simp: Let_def)

lemma split_path_single: "CHR ''/'' \<notin> set s \<Longrightarrow> split_path s = [s]"
  using split_path_plain [of s "[]"] by simp

lemma takeWhile_plain: "plain_seg s \<Longrightarrow> takeWhile (\<lambda>c. c \<noteq> CHR ''?'') s = s"
  by (auto simp: plain_seg_def takeWhile_eq_all_conv)

lemma segments_id:
  assumes "plain_seg s"
  shows "segments (''/customers/'' @ s) = Some [''customers'', s]"
  using assms
  by (simp add: segments_def Let_def split_path_single plain_seg_def takeWhile_plain [OF assms])

lemma segments_id_sub:
  assumes "plain_seg s" "plain_seg t"
  shows "segments (''/customers/'' @ s @ CHR ''/'' # t) = Some [''customers'', s, t]"
proof -
  have tw: "takeWhile (\<lambda>c. c \<noteq> CHR ''?'') (s @ CHR ''/'' # t) = s @ CHR ''/'' # t"
    using assms by (auto simp: plain_seg_def takeWhile_eq_all_conv)
  show ?thesis using assms
    by (simp add: segments_def Let_def split_path_plain split_path_single plain_seg_def tw)
qed

lemma id_segment_ok:
  assumes "case r of Oid i \<Rightarrow> i < 2 ^ 96 | Malformed \<Rightarrow> True"
  shows "plain_seg (id_segment r) \<and> uri_decode (id_segment r) = Some (map of_char (id_segment r)) \<and>
    cast_path_id (map of_char (id_segment r)) = r"
proof (cases r)
  case (Oid i)
  have "c \<notin> set (oid_hex i)" if "c \<notin> set ''0123456789abcdef''" for c
    using oid_hex_chars(2) [of i] that by blast
  then have "CHR ''/'' \<notin> set (oid_hex i)" "CHR ''?'' \<notin> set (oid_hex i)" "CHR ''%'' \<notin> set (oid_hex i)"
    by simp_all
  moreover have "oid_hex i \<noteq> []" using oid_hex_chars(1) [of i] by auto
  ultimately show ?thesis
    using Oid assms cast_oid_hex [of i] by (simp add: plain_seg_def uri_decode_plain)
next
  case Malformed
  then show ?thesis by (simp add: plain_seg_def cast_path_id_def)
qed

lemma match_id:
  assumes "case r of Oid i \<Rightarrow> i < 2 ^ 96 | Malformed \<Rightarrow> True"
  shows "match_route m (''/customers/'' @ id_segment r) =
      (case dispatch m (PId (id_segment r) []) r of None \<Rightarrow> NoRoute | Some x \<Rightarrow> Matched x)"
    and "t \<in> {''topup'', ''discount'', ''purchase'', ''orders''} \<Longrightarrow>
      match_route m (''/customers/'' @ id_segment r @ CHR ''/'' # t) =
      (case dispatch m (PId (id_segment r) t) r of None \<Rightarrow> NoRoute | Some x \<Rightarrow> Matched x)"
proof -
  note ok = id_segment_ok [OF assms]
  note seg = segments_id [simplified] segments_id_sub [simplified]
  show "match_route m (''/customers/'' @ id_segment r) =
      (case dispatch m (PId (id_segment r) []) r of None \<Rightarrow> NoRoute | Some x \<Rightarrow> Matched x)"
    using ok by (auto simp: match_route_def seg lit_def lower_ascii_def plain_seg_def)
  assume "t \<in> {''topup'', ''discount'', ''purchase'', ''orders''}"
  then have "plain_seg t" "map lower_ascii t = t" "lit t t"
    by (auto simp: plain_seg_def lit_def lower_ascii_def)
  with ok show "match_route m (''/customers/'' @ id_segment r @ CHR ''/'' # t) =
      (case dispatch m (PId (id_segment r) t) r of None \<Rightarrow> NoRoute | Some x \<Rightarrow> Matched x)"
    using \<open>t \<in> _\<close>
    by (auto simp: match_route_def seg lit_def lower_ascii_def plain_seg_def)
qed

lemma fields_json_keys: "set (map fst (fields_json fs)) \<subseteq> set (map fst fs)"
  by (induction fs rule: fields_json.induct) (auto split: option.split)

lemma fields_json_key_mem: "(a, b) \<in> set (fields_json fs) \<Longrightarrow> a \<in> fst ` set fs"
  using fields_json_keys [of fs] by force

lemma fields_json_distinct: "distinct (map fst fs) \<Longrightarrow> distinct (map fst (fields_json fs))"
  by (induction fs rule: fields_json.induct) (auto split: option.split dest: fields_json_key_mem)

lemma fields_json_flat: "list_all (field_ok \<circ> snd) fs \<Longrightarrow> list_all (flat \<circ> snd) (fields_json fs)"
proof (induction fs rule: fields_json.induct)
  case (2 k v fs)
  then show ?case by (cases v) (auto split: option.split)
qed simp

lemma map_of_fields_json:
  "distinct (map fst fs) \<Longrightarrow>
   map_of (fields_json fs) k = (case map_of fs k of None \<Rightarrow> None | Some v \<Rightarrow> jsval_json v)"
proof (induction fs rule: fields_json.induct)
  case (2 k' v fs)
  then have "k' \<notin> set (map fst (fields_json fs))" using fields_json_keys by auto
  with 2 show ?case
    by (auto split: option.split simp: map_of_eq_None_iff dest: fields_json_key_mem)
qed simp

lemma prop_get_fields:
  assumes "distinct (map fst fs)"
  shows "prop_get (JVObj (fields_json fs)) k = Some (case map_of fs k of Some v \<Rightarrow> v | None \<Rightarrow> JUndef)"
proof (cases "map_of fs k")
  case (Some v)
  with assms show ?thesis by (cases v) (simp_all add: map_of_fields_json)
qed (use assms in \<open>simp add: map_of_fields_json\<close>)

lemma array_index_word: "s \<noteq> [] \<Longrightarrow> \<not> is_digit (hd s) \<Longrightarrow> array_index s = None"
  by (cases s) (auto simp: array_index_def int_digits_def is_digit_def split: option.split)

lemma read_fields:
  assumes "distinct (map fst fs)" "list_all (field_ok \<circ> snd) fs"
    "\<forall>k \<in> set (map fst fs). array_index k = None"
    "utf8_length (json_print (JVObj (fields_json fs))) \<le> body_limit"
  shows "read_body (JsonText (json_print (JVObj (fields_json fs)))) = BodyOk (Some (JVObj (fields_json fs)))"
proof -
  have "json_parse (json_print (JVObj (fields_json fs))) = Inr (JVObj (fields_json fs))"
    using assms(3)
    by (intro json_flat_roundtrip fields_json_flat fields_json_distinct assms(1,2))
      (fastforce dest: fields_json_key_mem)
  with assms(4) show ?thesis
    by (simp add: read_body_def strict_first_def json_space_def not_less)
qed

lemma read_body_fields:
  assumes "list_all (field_ok \<circ> snd) fs" "distinct (map fst fs)"
    "\<forall>k \<in> set (map fst fs). k \<noteq> [] \<and> \<not> is_digit (hd k)"
    "utf8_length (json_print (JVObj (fields_json fs))) \<le> body_limit"
  shows "read_body (JsonText (json_print (JVObj (fields_json fs)))) = BodyOk (Some (JVObj (fields_json fs)))"
  using assms by (intro read_fields) (auto intro: array_index_word)

lemma serve_matched:
  assumes "read_body (req_body hr) = BodyOk b" "match_route (req_method hr) (req_url hr) = Matched r"
    "request_of r b = Some (Inr rq)"
  shows "serve bcrypt now hr d = Some (handle bcrypt now rq d)"
  using assms by (simp add: serve_def)

lemma http_body:
  "req_body (http_of rq) =
     (if has_body rq then JsonText (json_print (JVObj (fields_json (body_fields rq)))) else NoJson)"
  by (cases rq) (simp_all only: http_of.simps http_request.select_convs has_body.simps if_True if_False)

lemma body_keys:
  "distinct (map fst (body_fields rq))"
  "\<forall>k \<in> set (map fst (body_fields rq)). k \<noteq> [] \<and> \<not> is_digit (hd k)"
  by (cases rq; simp add: is_digit_def digit_val_def)+

lemma read_http:
  assumes "http_ok rq"
  shows "read_body (req_body (http_of rq)) =
    BodyOk (if has_body rq then Some (JVObj (fields_json (body_fields rq))) else None)"
proof (cases "has_body rq")
  case True
  then have b: "req_body (http_of rq) = JsonText (json_print (JVObj (fields_json (body_fields rq))))"
    by (simp only: http_body if_True)
  have u: "utf8_length (json_print (JVObj (fields_json (body_fields rq)))) \<le> body_limit"
    using assms unfolding http_ok_def b by simp
  have f: "list_all (field_ok \<circ> snd) (body_fields rq)" using assms by (simp add: http_ok_def)
  show ?thesis
    unfolding b if_P [OF True] by (rule read_body_fields [OF f body_keys u])
next
  case False
  then show ?thesis by (simp add: http_body read_body_def)
qed

lemma match_http:
  assumes "http_ok rq"
  shows "match_route (req_method (http_of rq)) (req_url (http_of rq)) = Matched (route_of rq)"
proof -
  have id: "case r of Oid i \<Rightarrow> i < 2 ^ 96 | Malformed \<Rightarrow> True" if "request_id rq = Some r" for r
    using assms that by (auto simp: http_ok_def split: req_id.split)
  show ?thesis
  proof (cases rq)
    case (GetCustomer r)
    with id [of r] show ?thesis using match_id(1) [of r GET] by simp
  next
    case (UpdateCustomer r n e pw ph)
    with id [of r] show ?thesis using match_id(1) [of r PUT] by simp
  next
    case (DeleteCustomer r)
    with id [of r] show ?thesis using match_id(1) [of r DELETE] by simp
  next
    case (TopUp r v)
    with id [of r] show ?thesis using match_id(2) [of r "''topup''" POST] by simp
  next
    case (SetDiscount r v)
    with id [of r] show ?thesis using match_id(2) [of r "''discount''" POST] by simp
  next
    case (Purchase r pn pr)
    with id [of r] show ?thesis using match_id(2) [of r "''purchase''" POST] by simp
  next
    case (CustomerOrders r)
    with id [of r] show ?thesis using match_id(2) [of r "''orders''" GET] by simp
  qed (simp_all add: match_route_def segments_def lit_def lower_ascii_def)
qed

text \<open>
  A POST without a JSON body (no body, or another content type) leaves \<open>req.body\<close>
  undefined, and the handler's destructuring throws before any store call.
\<close>

lemma no_body_type_error:
  "serve bcrypt now \<lparr>req_method = POST, req_url = ''/customers'', req_body = NoJson\<rparr> d = Some (Inl TypeError, d)"
  by (simp add: serve_def read_body_def match_route_def segments_def lit_def lower_ascii_def
      with_body_def)

section \<open>Properties\<close>

text \<open>C6: A path that matches a route path with an id, /customers/:id or one of its four sub-routes, but whose id is not valid percent-encoding, is answered 400 on every method and changes nothing: the router decodes the id before it looks at the method.\<close>

theorem bad_escape_400:
  assumes "plain_seg i" "uri_decode i = None" "read_body b = BodyOk j"
    and "u = ''/customers/'' @ i \<or>
      (\<exists>w \<in> {''topup'', ''discount'', ''purchase'', ''orders''}. u = ''/customers/'' @ i @ CHR ''/'' # w)"
  shows "serve bcrypt now \<lparr>req_method = m, req_url = u, req_body = b\<rparr> d = Some (Inr (error_page 400), d)"
proof -
  have "match_route m u = BadParam"
    using assms(4)
  proof
    assume "u = ''/customers/'' @ i"
    then show ?thesis using assms(1,2) segments_id [OF assms(1), simplified]
      by (simp add: match_route_def lit_def lower_ascii_def plain_seg_def)
  next
    assume "\<exists>w \<in> {''topup'', ''discount'', ''purchase'', ''orders''}. u = ''/customers/'' @ i @ CHR ''/'' # w"
    then obtain w where w: "w \<in> {''topup'', ''discount'', ''purchase'', ''orders''}"
      and u: "u = ''/customers/'' @ i @ CHR ''/'' # w" by blast
    from w have "plain_seg w" by (auto simp: plain_seg_def)
    with w u show ?thesis using assms(1,2) segments_id_sub [OF assms(1), simplified]
      by (auto simp: match_route_def lit_def lower_ascii_def plain_seg_def)
  qed
  with assms(3) show ?thesis by (simp add: serve_def)
qed

text \<open>C13: express.json() answers 400 to a JSON body within the size limit that is not JSON, or whose top level is not an object or an array, whatever the method and path, before any route runs; the database is unchanged.\<close>

theorem bad_json_400:
  assumes "s \<noteq> []" "utf8_length s \<le> body_limit" "\<not> strict_first s \<or> json_parse s = Inl SyntaxErr"
  shows "serve bcrypt now \<lparr>req_method = m, req_url = u, req_body = JsonText s\<rparr> d =
    Some (Inr (error_page 400), d)"
  using assms by (auto simp: serve_def read_body_def not_less)

text \<open>C21: A JSON body of more than 100 kb, counted in UTF-8 bytes, is answered 413 whatever the method and path, and the database is unchanged.\<close>

theorem body_limit_413:
  assumes "body_limit < utf8_length s"
  shows "serve bcrypt now \<lparr>req_method = m, req_url = u, req_body = JsonText s\<rparr> d =
    Some (Inr (error_page 413), d)"
  using assms by (simp add: serve_def read_body_def)

text \<open>C23: The HTTP layer is faithful to the route table: a request of the model, sent as its method, its path with the id printed as 24 hex digits, and its fields as a JSON body, reaches exactly its handler with exactly its fields. This holds for every id of 96 bits, every string, boolean and null field, every integer field below 10^21 and every body within the limit.\<close>

theorem serve_http_of:
  assumes "http_ok rq"
  shows "serve bcrypt now (http_of rq) d = Some (handle bcrypt now rq d)"
proof (rule serve_matched [OF read_http [OF assms] match_http [OF assms]])
  show "request_of (route_of rq) (if has_body rq then Some (JVObj (fields_json (body_fields rq))) else None) =
      Some (Inr rq)"
    using prop_get_fields [OF body_keys(1) [of rq]]
    by (cases rq) (simp_all add: with_body_def del: fields_json.simps prop_get.simps)
qed

text \<open>C27: A wallet route, /customers/:id/topup, /discount or /purchase, requested with a method other than POST reaches no handler: it is answered 404 Cannot METHOD path and the database is unchanged.\<close>

theorem wallet_route_method_404:
  assumes "plain_seg i" "uri_decode i = Some cs" "read_body b = BodyOk j"
    and "w \<in> {''topup'', ''discount'', ''purchase''}" and "m \<noteq> POST"
  shows "serve bcrypt now \<lparr>req_method = m, req_url = ''/customers/'' @ i @ CHR ''/'' # w, req_body = b\<rparr> d =
    Some (Inr (reply 404 (Text (''Cannot '' @ method_name m @ '' /customers/'' @ i @ CHR ''/'' # w))), d)"
proof -
  from assms(4) have w: "plain_seg w" "map lower_ascii w = w" "lit w w"
    by (auto simp: plain_seg_def lit_def lower_ascii_def)
  have nr: "match_route m (''/customers/'' @ i @ CHR ''/'' # w) = NoRoute"
    using assms(1,2,4,5) w segments_id_sub [OF assms(1) w(1), simplified]
    by (cases m) (auto simp: match_route_def lit_def lower_ascii_def plain_seg_def)
  have "takeWhile (\<lambda>c. c \<noteq> CHR ''?'') (''/customers/'' @ i @ CHR ''/'' # w) =
      ''/customers/'' @ i @ CHR ''/'' # w"
    using assms(1) w(1) by (auto simp: plain_seg_def takeWhile_eq_all_conv)
  with nr assms(3) show ?thesis by (simp add: serve_def takeWhile_plain [OF w(1)])
qed

text \<open>C29: The router is not case-sensitive and not strict about a final slash: a GET or a POST to /CuStOmErS/, in any case and with a trailing slash, is served exactly as the same request to /customers.\<close>

theorem route_case_slash:
  assumes "map lower_ascii a = ''customers''" and "m \<in> {GET, POST}"
  shows "serve bcrypt now \<lparr>req_method = m, req_url = ''/'' @ a @ ''/'', req_body = b\<rparr> d =
    serve bcrypt now \<lparr>req_method = m, req_url = ''/customers'', req_body = b\<rparr> d"
proof -
  have im: "lower_ascii ` set a = set ''customers''"
    using arg_cong [OF assms(1), of set] by simp
  have out: "c \<notin> set a" if "lower_ascii c = c" "c \<notin> set ''customers''" for c
  proof
    assume "c \<in> set a"
    then have "lower_ascii c \<in> set ''customers''" using im by blast
    with that show False by simp
  qed
  have "CHR ''/'' \<notin> set a" "CHR ''?'' \<notin> set a"
    by (rule out; simp add: lower_ascii_def)+
  then have "takeWhile (\<lambda>c. c \<noteq> CHR ''?'') (a @ ''/'') = a @ ''/''"
    and "split_path (a @ ''/'') = [a, []]"
    using split_path_plain [of a "''/''"] by (auto simp: takeWhile_eq_all_conv)
  then have seg: "segments (''/'' @ a @ ''/'') = Some [a]"
    by (simp add: segments_def Let_def)
  have sh: "shape [a] = Some PCustomers" using assms(1) by (simp add: lit_def)
  have seg': "segments ''/customers'' = Some [''customers'']"
    by (simp add: segments_def Let_def)
  have sh': "shape [''customers''] = Some PCustomers" by (simp add: lit_def lower_ascii_def)
  obtain r where r: "dispatch m PCustomers Malformed = Some r" using assms(2) by auto
  have "match_route m (''/'' @ a @ ''/'') = Matched r"
    unfolding match_route_def seg using sh r by simp
  moreover have "match_route m ''/customers'' = Matched r"
    unfolding match_route_def seg' using sh' r by simp
  ultimately show ?thesis by (cases "read_body b") (simp_all add: serve_def)
qed

section \<open>Concrete runs\<close>

theorem bad_escape_400_witness:
  "plain_seg ''%E0%80'' \<and> uri_decode ''%E0%80'' = None \<and> read_body NoJson = BodyOk None \<and>
   serve rev 0 \<lparr>req_method = GET, req_url = ''/customers/%E0%80/topup'', req_body = NoJson\<rparr> sample_db =
     Some (Inr (error_page 400), sample_db)"
proof -
  have dec: "uri_decode ''%E0%80'' = None"
    by (simp add: digit_val_def utf8_lead_def numeral_eq_Suc)
  have pl: "plain_seg ''%E0%80''" by (simp add: plain_seg_def)
  have rb: "read_body NoJson = BodyOk None" by (simp add: read_body_def)
  have "serve rev 0 \<lparr>req_method = GET, req_url = ''/customers/%E0%80/topup'', req_body = NoJson\<rparr> sample_db =
     Some (Inr (error_page 400), sample_db)"
    by (rule bad_escape_400 [OF pl dec rb]) simp
  with dec pl rb show ?thesis by simp
qed

theorem bad_json_400_witness:
  "''5'' \<noteq> [] \<and> utf8_length ''5'' \<le> body_limit \<and> \<not> strict_first ''5'' \<and>
   serve rev 0 \<lparr>req_method = GET, req_url = ''/customers'', req_body = JsonText ''5''\<rparr> sample_db =
     Some (Inr (error_page 400), sample_db)"
proof -
  have "utf8_length ''5'' \<le> body_limit" "\<not> strict_first ''5''"
    by (simp_all add: utf8_length_def body_limit_def strict_first_def json_space_def)
  then show ?thesis using bad_json_400 [of "''5''" rev 0 GET "''/customers''" sample_db] by simp
qed

theorem body_limit_413_witness:
  "utf8_length (replicate 51201 (CHR 0xE9)) = 102402 \<and> body_limit < utf8_length (replicate 51201 (CHR 0xE9)) \<and>
   serve rev 0 \<lparr>req_method = POST, req_url = ''/customers'', req_body = JsonText (replicate 51201 (CHR 0xE9))\<rparr>
     sample_db = Some (Inr (error_page 413), sample_db)"
proof -
  have u: "utf8_length (replicate 51201 (CHR 0xE9)) = 102402"
    by (simp add: utf8_length_def sum_list_replicate del: replicate_numeral)
  then have "body_limit < utf8_length (replicate 51201 (CHR 0xE9))"
    by (simp add: body_limit_def del: replicate_numeral)
  with u show ?thesis
    using body_limit_413 [of "replicate 51201 (CHR 0xE9)" rev 0 POST "''/customers''" sample_db]
    by (simp del: replicate_numeral)
qed

theorem serve_http_of_witness:
  "http_ok (TopUp (Oid 255) (JStr ''10'')) \<and>
   req_url (http_of (TopUp (Oid 255) (JStr ''10''))) = ''/customers/0000000000000000000000ff/topup'' \<and>
   serve rev 0 (http_of (TopUp (Oid 255) (JStr ''10''))) sample_db =
     Some (handle rev 0 (TopUp (Oid 255) (JStr ''10'')) sample_db)"
proof -
  have ok: "http_ok (TopUp (Oid 255) (JStr ''10''))"
    by (simp add: http_ok_def utf8_length_def body_limit_def quote_def quote_char_def Let_def)
  moreover have "req_url (http_of (TopUp (Oid 255) (JStr ''10''))) = ''/customers/0000000000000000000000ff/topup''"
    by (simp add: oid_hex_def hex_digit_def upt_rec)
  ultimately show ?thesis using serve_http_of [OF ok, of rev 0 sample_db] by simp
qed

theorem wallet_route_method_404_witness:
  "plain_seg ''abc'' \<and> uri_decode ''abc'' = Some (map of_char ''abc'') \<and>
   read_body NoJson = BodyOk None \<and> ''topup'' \<in> {''topup'', ''discount'', ''purchase''} \<and> GET \<noteq> POST \<and>
   serve rev 0 \<lparr>req_method = GET, req_url = ''/customers/abc/topup'', req_body = NoJson\<rparr> sample_db =
     Some (Inr (reply 404 (Text ''Cannot GET /customers/abc/topup'')), sample_db)"
proof -
  have pl: "plain_seg ''abc''" by (simp add: plain_seg_def)
  have dec: "uri_decode ''abc'' = Some (map of_char ''abc'')" by (rule uri_decode_plain) simp
  have rb: "read_body NoJson = BodyOk None" by (simp add: read_body_def)
  have "serve rev 0 \<lparr>req_method = GET, req_url = ''/customers/'' @ ''abc'' @ CHR ''/'' # ''topup'',
      req_body = NoJson\<rparr> sample_db =
    Some (Inr (reply 404 (Text (''Cannot '' @ method_name GET @ '' /customers/'' @ ''abc'' @ CHR ''/'' # ''topup''))),
      sample_db)"
    by (rule wallet_route_method_404 [OF pl dec rb]) simp_all
  with pl dec rb show ?thesis by simp
qed

theorem route_case_slash_witness:
  "map lower_ascii ''CuStOmErS'' = ''customers'' \<and> GET \<in> {GET, POST} \<and>
   serve rev 0 \<lparr>req_method = GET, req_url = ''/CuStOmErS/'', req_body = NoJson\<rparr> sample_db =
   serve rev 0 \<lparr>req_method = GET, req_url = ''/customers'', req_body = NoJson\<rparr> sample_db"
proof -
  have lo: "map lower_ascii ''CuStOmErS'' = ''customers''" by code_simp
  have "serve rev 0 \<lparr>req_method = GET, req_url = ''/'' @ ''CuStOmErS'' @ ''/'', req_body = NoJson\<rparr> sample_db =
   serve rev 0 \<lparr>req_method = GET, req_url = ''/customers'', req_body = NoJson\<rparr> sample_db"
    by (rule route_case_slash [OF lo]) simp
  with lo show ?thesis by simp
qed

end
