(* ===== verification/Spec2Isabelle.thy ===== *)
theory Spec2Isabelle
  imports Hardened Http
begin

text \<open>
  \<^bold>\<open>A verification library for the customer, wallet and order API of
  \<open>src/index.js\<close>.\<close>

  \<^bold>\<open>The program.\<close> One Express application over a MongoDB database reached through
  Mongoose. Two collections hold the state: customers (name, email, password hash,
  phone, an optional discount rate, a wallet) and orders (a reference to a customer, a
  product name, the price actually charged, a date). Eleven routes read and write them.
  Three routes are read-modify-write operations on a customer: top-up adds to the
  wallet, discount sets the rate after a range check, purchase prices the product,
  checks the wallet, debits it and records an order. The others create, read, update and
  delete customers and list orders. In front of them \<open>express.json()\<close> parses every
  request body and the router matches the path. Handlers are \<open>async\<close>; a rejection of
  an awaited call (a cast error, a save of a vanished document, a bcrypt argument error,
  a \<open>TypeError\<close> from destructuring a missing body) is never caught, and the request is
  left without a handled answer.

  \<^bold>\<open>The theories, in import order.\<close>
  \<^item> \<open>Prelude\<close>: identifiers (\<open>oid\<close>), the failures that leave a request unanswered
    (\<open>failure\<close>), the lemma collections \<open>js_simps\<close> and \<open>store_simps\<close>, and list lemmas
    for documents searched by key.
  \<^item> \<open>JsNumber\<close>: JavaScript numbers (\<open>jsnum\<close>: finite as exact reals, \<open>NaN\<close>, the two
    infinities) with the ECMAScript \<open>+\<close>, \<open>-\<close>, \<open>*\<close>, \<open><\<close> (\<open>js_plus\<close>, \<open>js_neg\<close>,
    \<open>js_times\<close>, \<open>js_less\<close>, the instances of HOL's operators), and the Mongoose cast of
    a computed number (\<open>cast_num\<close>).
  \<^item> \<open>JsString\<close>: StringToNumber (\<open>str_to_number\<close>: trimming, decimal literals with sign,
    fraction and exponent, \<open>Infinity\<close>, radix literals) and Number::toString
    (\<open>num_to_string\<close>), with the lemmas that read digit strings and print integers.
  \<^item> \<open>JsValue\<close>: the body values a handler reads (\<open>jsval\<close>: number, string, boolean,
    null, undefined), \<open>to_number\<close>, the \<open>+\<close> of \<open>customer.wallet += wallet_topup\<close>
    (\<open>add_to_number\<close>, a string concatenation when the amount is a string), truthiness of
    a stored number (\<open>num_truthy\<close>) and Mongoose's \<open>castNumber\<close> (\<open>cast_number\<close>,
    \<open>cast_str\<close>, \<open>cast_prim\<close>).
  \<^item> \<open>Collection\<close>: a collection as a list of documents in natural order with
    \<open>coll_find\<close>, \<open>coll_insert\<close>, \<open>coll_update\<close>, \<open>coll_delete\<close>, generic in the
    document type through its key; an abstraction \<open>coll_map\<close> to a finite map and the
    refinement lemmas \<open>coll_map_insert\<close>, \<open>coll_map_update\<close>, \<open>coll_map_delete\<close> under
    the invariant \<open>coll_wf\<close> (distinct keys).
  \<^item> \<open>Model\<close>: \<open>customerSchema\<close> and \<open>orderSchema\<close> (lines 20--40) as the records
    \<open>customer\<close> and \<open>order\<close>; the database \<open>db\<close> (both collections and the counter that
    stands for fresh \<open>ObjectId\<close>s); the Mongoose calls the handlers make
    (\<open>find_customer\<close> for \<open>findById\<close>, \<open>save_customer\<close> for \<open>save\<close> of a loaded document,
    which sets the modified paths and rejects with \<open>DocumentNotFound\<close> when the document
    is gone, \<open>insert_customer\<close>, \<open>insert_order\<close>, \<open>update_customer\<close>,
    \<open>delete_customer\<close>, \<open>orders_of\<close>, \<open>populate\<close>); responses (\<open>reply\<close>); and the
    well-formedness invariant \<open>db_wf\<close> with one lemma per call that keeps it.
  \<^item> \<open>Wallet\<close>: the pricing of a purchase (\<open>final_price\<close>, lines 111--112) and the
    handlers \<open>topup\<close> (lines 80--87), \<open>discount\<close> (lines 90--103) and \<open>purchase\<close>
    (lines 106--129), each a function from the request fields and the database to an
    \<open>outcome\<close>: the answer or the failure, and the database after the calls made.
    The customer's money: \<open>spent\<close> (prices of its orders) and \<open>balance\<close> (wallet plus
    spent). The invariants \<open>rates_ok\<close> and \<open>wallets_ok\<close>.
  \<^item> \<open>Customers\<close>: \<open>home\<close>, \<open>create\<close>, \<open>list_customers\<close>, \<open>get\<close>, \<open>update\<close>,
    \<open>delete\<close> (lines 16--77), \<open>list_orders\<close> and \<open>customer_orders\<close> (lines
    132--141). The body fields are JavaScript values: \<open>hash_password\<close> is bcryptjs's
    argument check (a non-string password rejects), \<open>cast_string\<close> the schema's String
    cast of name, email and phone, and \<open>set_field\<close> the update's key semantics (an
    undefined key is dropped, a null one clears the field). \<open>bcrypt\<close>, the hash, is a
    parameter: the lemmas hold for every hash function.
  \<^item> \<open>App\<close>: the route table as the datatype \<open>request\<close> and the dispatch \<open>handle\<close>;
    \<open>run\<close> serves a list of requests one after another; \<open>reachable\<close> holds of the
    databases such runs reach from \<open>init_db\<close>.
  \<^item> \<open>Concurrency\<close>: requests in flight at the same time. Node runs one handler at a
    time between two \<open>await\<close>s, so each handler is a sequence of atomic segments: top-up
    and discount read the customer and then compute and save (lines 80--103); purchase reads,
    then checks and saves the wallet, then inserts the order (lines 106--129); every other
    route makes one store call and is one segment. \<open>proc\<close> is the state a handler holds
    between two segments (the loaded document and the request fields), \<open>proc_step\<close> runs
    one segment, and \<open>conc_step\<close> lets any unfinished request of the server run its next
    segment, so \<open>rtranclp conc_step\<close> holds of every schedule.
  \<^item> \<open>Races\<close>: the wallet requests of one customer racing each other: the change each
    means to make (\<open>wallet_delta\<close>) and the invariant \<open>wallet_inv\<close> relating every
    stored or loaded wallet to the changes of the requests that have saved.
  \<^item> \<open>Hardened\<close>: the per-customer serialization of section 9 of the specification, a
    guard on \<open>conc_step\<close> (\<open>locked_step\<close>) that lets a wallet request start only when no
    other request holds its customer, with the invariant \<open>lock_inv\<close>.
  \<^item> \<open>Json\<close>: the JSON text of request and response bodies. \<open>json\<close> is a parsed value,
    with objects in JavaScript's property order (\<open>obj_set\<close>). \<open>json_parse\<close> is
    \<open>JSON.parse\<close>: a character-level lexer (\<open>lex_go\<close>, \<open>lstep\<close>) and a token-stack
    parser (\<open>parse_tokens\<close>, \<open>pstep\<close>), both structurally recursive. \<open>json_print\<close> is
    \<open>JSON.stringify\<close>. The lemmas prove that the two are inverse on flat objects
    (\<open>json_flat_roundtrip\<close>).
  \<^item> \<open>Http\<close>: the Express application (lines 11--13 and the route paths). \<open>read_body\<close>
    is \<open>express.json()\<close>: the 100 kb limit in UTF-8 bytes, the empty body as \<open>{}\<close>,
    strict mode, then \<open>JSON.parse\<close>. \<open>match_route\<close> is the router: \<open>segments\<close> of
    the path with one optional trailing slash, \<open>shape\<close> against the route paths
    case-insensitively, \<open>uri_decode\<close> (\<open>decodeURIComponent\<close>) of \<open>:id\<close> before the
    method is checked in \<open>dispatch\<close>, and \<open>cast_path_id\<close> (the bson cast of 24 hex
    digits). \<open>request_of\<close> is the destructuring of \<open>req.body\<close> in each handler.
    \<open>serve\<close> composes them with \<open>handle\<close>. The client side of a request of the route
    table (\<open>http_of\<close>, with \<open>oid_hex\<close> and \<open>json_print\<close>) states what the layer
    must carry.

  \<^bold>\<open>What is proved.\<close>
  \<^item> Purchase, on every branch (\<open>Wallet\<close>): the debit and the order on success
    (\<open>purchase_debits\<close>), no change on insufficient funds, on a missing customer, and on
    a missing price, where the \<open>NaN\<close> price passes the balance check and the save
    rejects (\<open>purchase_missing_price\<close>). The price computation implements the pricing
    rule of the specification (\<open>final_price_spec\<close>).
  \<^item> Top-up adds any number, negative ones included (\<open>topup_adds\<close>); a missing amount leaves the request unanswered. A string amount is
    appended to the wallet's digits instead (\<open>topup_string_concat\<close>: 100 and
    \<open>''10''\<close> give 10010), so no string, not even \<open>''-500''\<close>, makes a wallet negative
    (\<open>topup_string_nonneg\<close>).
  \<^item> Discount rejects a number outside \<open>[0, 100]\<close> and stores one inside it; a
    \<open>null\<close> or missing rate passes the check and clears the discount
    (\<open>discount_clears\<close>), and so does the empty string; a string that reads as \<open>NaN\<close>
    passes the check and fails the cast (\<open>discount_nan_string\<close>).
  \<^item> A purchase at the price \<open>''-Infinity''\<close> passes the balance check; without a
    discount the code would store an infinite wallet (\<open>purchase_minus_infinity\<close>).
  \<^item> CRUD: a created customer is stored with the hash of its password, its other fields
    cast to strings, no discount and a zero wallet (\<open>create_stores_hash\<close>); it
    is read back (\<open>create_then_get\<close>); an update with a falsy password keeps the
    hash, a null field is cleared and a number stored as its string
    (\<open>update_field_values\<close>), a non-string password is rejected before any query
    (\<open>malformed_id_unanswered\<close>), deleting a customer keeps its orders
    (\<open>delete_no_cascade\<close>); after a purchase the customer's order list ends with the
    new order (\<open>purchase_then_orders\<close>).
  \<^item> Across all requests (\<open>App\<close>): reachable databases are well-formed, with discounts
    in range and, without negative top-ups, non-negative wallets
    (\<open>reachable_invariants\<close>, by rule induction over \<open>reachable\<close> from one lemma per
    handler); only top-up, create and delete change a customer's balance, a purchase
    at a price that is not infinite included (\<open>handle_balance\<close>); a top-up or a
    discount on one customer commutes with one on another (\<open>wallet_requests_commute\<close>,
    from \<open>wallet_local\<close>: such a request reads and rewrites one document only); a path id that is not an \<open>ObjectId\<close> is never answered 404
    (\<open>malformed_id_unanswered\<close>); a negative wallet is reachable through a top-up
    (\<open>negative_topup_reachable\<close>).
  \<^item> Interleavings (\<open>Concurrency\<close>): a request run without interleaving computes the
    sequential handler (\<open>proc_alone\<close>, a check of the split at the awaits), so every
    sequential run is a schedule (\<open>serial_schedule\<close>); two purchases that both read a wallet of 100 before either
    saves both succeed, store two orders and leave 20, a lost debit of 80
    (\<open>lost_update\<close>); yet under every schedule without negative top-ups the database
    stays well-formed, with discounts in range and non-negative wallets
    (\<open>conc_invariants\<close>), because every save writes a value computed from a snapshot that
    passed its check; a purchase whose customer is deleted between its read and its save
    fails with \<open>DocumentNotFound\<close> (\<open>purchase_vs_delete\<close>); a discount saved while
    a purchase is in flight survives the purchase's save, which writes the wallet only
    (\<open>discount_survives_purchase\<close>); the server never deadlocks
    (\<open>conc_progress\<close>) and every schedule is finite (\<open>conc_terminates\<close>, by the measure
    \<open>server_work\<close>, the segments left).
  \<^item> Races of one customer (\<open>Races\<close>): under every interleaving of top-ups and purchases
    the wallet is the initial one plus the changes of some requests that saved, a
    purchase refused with 400 never among them (\<open>wallet_race\<close>): money is only ever lost to a race, never created, and a top-up can
    erase a concurrent purchase's debit while its order stays stored.
  \<^item> The hardened port (\<open>Hardened\<close>): with per-customer serialization the wallet is the
    initial one plus the change of every request that succeeded (\<open>locked_exact\<close>), and
    the serialized server never deadlocks (\<open>locked_progress\<close>).
  \<^item> Interface (\<open>App\<close>): every answer has a status and a body that the interface table
    of section 6 lists for its route (\<open>handle_conforms\<close>).
  \<^item> The HTTP layer (\<open>Http\<close>): every request of the route table, sent with its id as
    24 hex digits and its fields as \<open>JSON.stringify\<close> prints them, reaches exactly its
    handler with exactly its fields (\<open>serve_http_of\<close>, a refinement of \<open>handle\<close> by
    \<open>serve\<close>). A body that is not strict JSON is answered 400 before any route
    (\<open>bad_json_400\<close>). A body over 102400 bytes is answered 413 (\<open>body_limit_413\<close>).
    An id that does not decode is answered 400 on every method (\<open>bad_escape_400\<close>).
    A wallet route requested with a method other than POST is answered 404
    (\<open>wallet_route_method_404\<close>); paths match in any case and with a final slash
    (\<open>route_case_slash\<close>).
    A POST without a JSON body throws a \<open>TypeError\<close> (\<open>no_body_type_error\<close>).
  Each theorem with a hypothesis has a witness that applies it to the sample database of
  \<open>Model\<close> (one customer with 100 in its wallet and a 20 percent rate).

  \<^bold>\<open>Choices of the model.\<close> Finite numbers are exact reals, so IEEE rounding and the
  overflow of a finite computation are not modelled; \<open>NaN\<close> and the infinities are. Stored
  numbers are finite: where the code would store an infinity (only a purchase at a price of
  minus infinity reaches it) the model ends the request with \<open>InfiniteNumber\<close>.
  \<open>num_to_string\<close> searches at most 1100 decimals, enough for every finite double.
  Strings are lists of 8-bit characters. \<open>ObjectId\<close>s come from a counter, so a fresh one
  is never in use. Collections are lists in insertion order, the natural order MongoDB
  returns without a sort. \<open>run\<close> continues after a failed request, as Express 5 does (it
  answers 500), and for the same reason \<open>req.body\<close> is \<open>undefined\<close> without a JSON
  body (under Express 4 it would be \<open>{}\<close>). The body is modelled as its decoded text,
  so its byte length is the UTF-8 length of 8-bit characters. A \<open>\u\<close> escape above
  \<open>00FF\<close> and an array or object in a body field are outside the model, where
  \<open>serve\<close> is \<open>None\<close>. An id is cast as bson 5 and later do: exactly 24 hex digits.
  The round trips hold for integers below \<open>10^21\<close>, which \<open>JSON.stringify\<close> prints
  exactly. No fuel is needed elsewhere: every handler is a finite sequence of calls, and
  the lexer, the parser and \<open>uri_decode\<close> recurse on the text.

  \<^bold>\<open>Not modelled.\<close> Array and object values in any body field (a JSON body can
  hold them; their casts and ToPrimitive conversions are left out); HEAD and OPTIONS
  requests, the content-type and charset checks of \<open>express.json()\<close>, compressed
  bodies and HTML escaping in the error pages, which are modelled by their message; the
  connection and \<open>app.listen\<close> (lines 5--9, 12, 143--146), which are I/O set-up; the bcrypt
  algorithm (a parameter), whose \<open>await\<close> in create and update is not a segment boundary
  of \<open>Concurrency\<close> (its result depends on no stored state, so no interleaving there
  changes an outcome); MongoDB's own concurrency control beyond atomic single-document
  writes.
\<close>

end
